(* ===== verification/Kontracts_Prelude.thy ===== *)
theory Kontracts_Prelude
  imports Main "HOL-Library.Word" "HOL-Library.List_Lexorder" "HOL-Library.Code_Target_Numeral"
begin

text \<open>
  Shared vocabulary of the development: Rust's integer and byte types, the three ways a Rust
  call can end (\<open>Ok\<close>, \<open>Err\<close>, panic), the \<open>?\<close> operator in state-passing style, checked slice
  access, and the standard library's \<open>BTreeMap\<close> as a strictly sorted association list.
  The locale \<open>kv_store\<close> is the contract of a map that the kontract storage relies on.
\<close>

section \<open>Machine types and results\<close>

type_synonym u8 = "8 word"
type_synonym u32 = "32 word"
type_synonym u64 = "64 word"
type_synonym i32 = "32 word"
type_synonym bytes = "u8 list"

text \<open>
  The result of a Rust function that returns \<open>Result<'a, 'e>\<close>: a panic is a third value, so that
  every \<open>expect\<close>, slice index and \<open>copy_from_slice\<close> of the source is a branch of the model.
\<close>

datatype ('a, 'e) outcome = Ok 'a | Err 'e | Panic

fun is_ok :: "('a, 'e) outcome \<Rightarrow> bool" where
  "is_ok (Ok _) = True"
| "is_ok (Err _) = False"
| "is_ok Panic = False"

text \<open>Rust's \<open>map_err\<close>, and \<open>?\<close> on a value: stop at the first \<open>Err\<close> or panic.\<close>

fun map_err :: "('e \<Rightarrow> 'f) \<Rightarrow> ('a, 'e) outcome \<Rightarrow> ('a, 'f) outcome" where
  "map_err f (Ok a) = Ok a"
| "map_err f (Err e) = Err (f e)"
| "map_err f Panic = Panic"

fun bind_outcome :: "('a, 'e) outcome \<Rightarrow> ('a \<Rightarrow> ('b, 'e) outcome) \<Rightarrow> ('b, 'e) outcome" where
  "bind_outcome (Ok a) f = f a"
| "bind_outcome (Err e) f = Err e"
| "bind_outcome Panic f = Panic"

text \<open>\<open>?\<close> in state-passing style: the state reached so far is kept on every exit.\<close>

definition and_then ::
  "('s \<Rightarrow> ('a, 'e) outcome \<times> 's) \<Rightarrow> ('a \<Rightarrow> 's \<Rightarrow> ('b, 'e) outcome \<times> 's) \<Rightarrow>
   's \<Rightarrow> ('b, 'e) outcome \<times> 's" where
  "and_then m f s =
     (case m s of
        (Ok a, s') \<Rightarrow> f a s'
      | (Err e, s') \<Rightarrow> (Err e, s')
      | (Panic, s') \<Rightarrow> (Panic, s'))"

text \<open>\<open>ok_or\<close>: an absent value becomes an error.\<close>

definition ok_or :: "'a option \<Rightarrow> 'e \<Rightarrow> ('a, 'e) outcome" where
  "ok_or x e = (case x of None \<Rightarrow> Err e | Some a \<Rightarrow> Ok a)"

named_theorems store_simps \<open>unfolding rules of the host store and its operations\<close>
named_theorems pallet_simps \<open>unfolding rules of the pallet's operations\<close>

lemma and_then_Ok [simp]: "m s = (Ok a, s') \<Longrightarrow> and_then m f s = f a s'"
  and and_then_Err [simp]: "m s = (Err e, s') \<Longrightarrow> and_then m f s = (Err e, s')"
  and and_then_Panic [simp]: "m s = (Panic, s') \<Longrightarrow> and_then m f s = (Panic, s')"
  by (simp_all add: and_then_def)

lemma and_then_eq_Ok:
  "and_then m f s = (Ok b, t) \<longleftrightarrow> (\<exists>a s'. m s = (Ok a, s') \<and> f a s' = (Ok b, t))"
  by (auto simp: and_then_def split: prod.splits outcome.splits)

lemma and_then_eq_Panic:
  "and_then m f s = (Panic, t) \<longleftrightarrow>
     m s = (Panic, t) \<or> (\<exists>a s'. m s = (Ok a, s') \<and> f a s' = (Panic, t))"
  by (auto simp: and_then_def split: prod.splits outcome.splits)

lemma and_then_eq_Err:
  "and_then m f s = (Err e, t) \<longleftrightarrow>
     m s = (Err e, t) \<or> (\<exists>a s'. m s = (Ok a, s') \<and> f a s' = (Err e, t))"
  by (auto simp: and_then_def split: prod.splits outcome.splits)

lemma bind_outcome_eq_Ok: "bind_outcome m f = Ok b \<longleftrightarrow> (\<exists>a. m = Ok a \<and> f a = Ok b)"
  by (cases m) auto

lemma map_err_eq [simp]:
  "map_err f m = Ok a \<longleftrightarrow> m = Ok a"
  "map_err f m = Panic \<longleftrightarrow> m = Panic"
  by (cases m; simp)+

lemma map_err_eq_Err: "map_err f m = Err d \<longleftrightarrow> (\<exists>e. m = Err e \<and> d = f e)"
  by (cases m) auto

lemma ok_or_simps [simp]: "ok_or None e = Err e" "ok_or (Some a) e = Ok a"
  by (simp_all add: ok_or_def)

section \<open>Words\<close>

lemma unat_u8_less [simp]: "unat (x :: u8) < 256"
  using unsigned_less [of x] by simp

lemma unat_u32_less [simp]: "unat (x :: u32) < 4294967296"
  using unsigned_less [of x] by simp

lemma unat_u8_of_nat: "n < 256 \<Longrightarrow> unat (word_of_nat n :: u8) = n"
  by (simp add: unat_of_nat)

lemma unat_u32_of_nat: "n < 4294967296 \<Longrightarrow> unat (word_of_nat n :: u32) = n"
  by (simp add: unat_of_nat)

lemma unat_u64_of_nat: "n < 18446744073709551616 \<Longrightarrow> unat (word_of_nat n :: u64) = n"
  by (simp add: unat_of_nat)

lemma unat_u64_less: "unat (x :: u64) < 18446744073709551616"
  using unsigned_less [where 'a = nat and w = x] by simp

lemma unat_ucast_u64 [simp]: "unat (ucast (x :: u32) :: u64) = unat x"
proof -
  have "unat x < 2 ^ 64"
    using unat_u32_less [of x] by (rule less_le_trans) simp
  then show ?thesis by (simp add: unsigned_ucast_eq take_bit_nat_eq_self)
qed

section \<open>Slices\<close>

text \<open>\<open>xs.get(i..)\<close> and \<open>xs.get(..n)\<close>: \<open>None\<close> when the range is not inside the slice.\<close>

definition get_from :: "'a list \<Rightarrow> nat \<Rightarrow> 'a list option" where
  "get_from xs i = (if i \<le> length xs then Some (drop i xs) else None)"

definition get_to :: "'a list \<Rightarrow> nat \<Rightarrow> 'a list option" where
  "get_to xs n = (if n \<le> length xs then Some (take n xs) else None)"

text \<open>The window of \<open>n\<close> elements at \<open>p\<close>, and the list with a window overwritten.\<close>

definition window :: "nat \<Rightarrow> nat \<Rightarrow> 'a list \<Rightarrow> 'a list" where
  "window p n xs = take n (drop p xs)"

definition overwrite :: "nat \<Rightarrow> 'a list \<Rightarrow> 'a list \<Rightarrow> 'a list" where
  "overwrite p ys xs = take p xs @ ys @ drop (p + length ys) xs"

lemma length_window [simp]: "p + n \<le> length xs \<Longrightarrow> length (window p n xs) = n"
  by (simp add: window_def)

lemma length_overwrite [simp]:
  "p + length ys \<le> length xs \<Longrightarrow> length (overwrite p ys xs) = length xs"
  by (simp add: overwrite_def)

lemma window_overwrite [simp]:
  "p + length ys \<le> length xs \<Longrightarrow> window p (length ys) (overwrite p ys xs) = ys"
  by (simp add: window_def overwrite_def)

lemma window_overwrite_prefix:
  "p + length ys \<le> length xs \<Longrightarrow> n \<le> length ys \<Longrightarrow> window p n (overwrite p ys xs) = take n ys"
  by (simp add: window_def overwrite_def)

lemma overwrite_nth_outside:
  assumes "p + length ys \<le> length xs" and "i < length xs" and "i < p \<or> p + length ys \<le> i"
  shows "overwrite p ys xs ! i = xs ! i"
  using assms by (auto simp: overwrite_def nth_append min_def)

lemma get_from_to:
  "Option.bind (get_from xs i) (\<lambda>ys. get_to ys n) =
     (if i + n \<le> length xs then Some (window i n xs) else None)"
  by (auto simp: get_from_def get_to_def window_def)

section \<open>BTreeMap as a strictly sorted association list\<close>

type_synonym ('k, 'v) btree_map = "('k \<times> 'v) list"

definition btree_wf :: "('k::linorder, 'v) btree_map \<Rightarrow> bool" where
  "btree_wf m \<longleftrightarrow> sorted_wrt (<) (map fst m)"

fun btree_insert :: "'k::linorder \<Rightarrow> 'v \<Rightarrow> ('k, 'v) btree_map \<Rightarrow> ('k, 'v) btree_map" where
  "btree_insert k v [] = [(k, v)]"
| "btree_insert k v ((j, w) # m) =
     (if j < k then (j, w) # btree_insert k v m
      else if j = k then (j, v) # m
      else (k, v) # (j, w) # m)"

fun btree_remove :: "'k::linorder \<Rightarrow> ('k, 'v) btree_map \<Rightarrow> ('k, 'v) btree_map" where
  "btree_remove k [] = []"
| "btree_remove k ((j, w) # m) =
     (if j < k then (j, w) # btree_remove k m
      else if j = k then m
      else (j, w) # m)"

fun btree_get :: "('k::linorder, 'v) btree_map \<Rightarrow> 'k \<Rightarrow> 'v option" where
  "btree_get [] k = None"
| "btree_get ((j, w) # m) k =
     (if j < k then btree_get m k else if j = k then Some w else None)"

lemma btree_wf_Nil [simp]: "btree_wf []"
  by (simp add: btree_wf_def)

lemma btree_wf_Cons [simp]:
  "btree_wf ((k, v) # m) \<longleftrightarrow> (\<forall>j \<in> fst ` set m. k < j) \<and> btree_wf m"
  by (auto simp: btree_wf_def)

lemma keys_btree_insert: "fst ` set (btree_insert k v m) = insert k (fst ` set m)"
  by (induction m rule: btree_insert.induct) auto

lemma keys_btree_remove: "fst ` set (btree_remove k m) \<subseteq> fst ` set m"
  by (induction m rule: btree_remove.induct) auto

lemma btree_wf_insert [simp]: "btree_wf m \<Longrightarrow> btree_wf (btree_insert k v m)"
  by (induction m rule: btree_insert.induct) (auto simp: keys_btree_insert)

lemma btree_wf_remove [simp]: "btree_wf m \<Longrightarrow> btree_wf (btree_remove k m)"
  by (induction m rule: btree_remove.induct) (use keys_btree_remove in fastforce)+

lemma btree_get_above: "\<forall>j \<in> fst ` set m. k < j \<Longrightarrow> btree_get m k = None"
  by (cases m) auto

lemma btree_get_below: "\<forall>e \<in> set m. k < fst e \<Longrightarrow> x \<le> k \<Longrightarrow> btree_get m x = None"
  by (rule btree_get_above) auto

lemma btree_get_map_of: "btree_wf m \<Longrightarrow> btree_get m = map_of m"
proof (induction m)
  case Nil
  show ?case by auto
next
  case (Cons e m)
  obtain j w where e: "e = (j, w)" by (cases e)
  have "map_of m k = None" if "k \<le> j" for k
    using that Cons.prems e by (force simp: map_of_eq_None_iff)
  then show ?case using Cons e by (auto simp: fun_eq_iff)
qed

lemma btree_get_insert [simp]:
  "btree_get (btree_insert k v m) = (btree_get m)(k \<mapsto> v)" if "btree_wf m"
  using that
proof (induction m rule: btree_insert.induct)
  case (2 k v j w m)
  then show ?case by (auto simp: fun_eq_iff intro: btree_get_below)
qed (auto simp: fun_eq_iff)

lemma btree_get_remove [simp]:
  "btree_get (btree_remove k m) = (btree_get m)(k := None)" if "btree_wf m"
  using that
proof (induction m rule: btree_remove.induct)
  case (2 k j w m)
  then show ?case by (auto simp: fun_eq_iff btree_get_above intro: btree_get_below)
qed (auto simp: fun_eq_iff)

lemma set_btree_insert: "set (btree_insert k v m) \<subseteq> insert (k, v) (set m)"
  by (induction m rule: btree_insert.induct) auto

lemma length_btree_insert_le: "length (btree_insert k v m) \<le> Suc (length m)"
  by (induction m rule: btree_insert.induct) auto

lemma length_btree_insert_present:
  "btree_wf m \<Longrightarrow> btree_get m k \<noteq> None \<Longrightarrow> length (btree_insert k v m) = length m"
  by (induction m rule: btree_insert.induct) (auto split: if_splits)

lemma btree_ext: "btree_wf m \<Longrightarrow> btree_wf n \<Longrightarrow> btree_get m = btree_get n \<Longrightarrow> m = n"
proof (induction m arbitrary: n)
  case Nil
  show ?case
  proof (cases n)
    case (Cons e n')
    with Nil.prems(3) have "btree_get (e # n') (fst e) = None" by (metis btree_get.simps(1))
    then show ?thesis by (cases e) simp
  qed simp
next
  case (Cons e m)
  obtain j w where e: "e = (j, w)" by (cases e)
  show ?case
  proof (cases n)
    case Nil
    with fun_cong [OF Cons.prems(3), of j] e show ?thesis by simp
  next
    case n: (Cons d n')
    obtain i u where d: "d = (i, u)" by (cases d)
    have jw: "btree_get (e # m) j = Some w" and iu: "btree_get n i = Some u"
      using e d n by simp_all
    have "btree_get n j = Some w" and "btree_get (e # m) i = Some u"
      using jw iu by (simp_all only: Cons.prems(3))
    then have "\<not> j < i" and "\<not> i < j" using n d e by (auto split: if_splits)
    then have ij: "i = j" by simp
    with jw iu Cons.prems(3) have uw: "u = w" by simp
    have "btree_get m k = btree_get n' k" for k
    proof (cases "j < k")
      case True
      with fun_cong [OF Cons.prems(3), of k] e d n ij show ?thesis by simp
    next
      case False
      then have "\<forall>l \<in> fst ` set m. k < l" "\<forall>l \<in> fst ` set n'. k < l"
        using Cons.prems(1,2) e d n ij by auto
      then show ?thesis by (simp add: btree_get_above)
    qed
    then have "m = n'" using Cons e d n by (auto intro!: Cons.IH)
    with e d n ij uw show ?thesis by simp
  qed
qed

section \<open>The contract of a key-value store\<close>

text \<open>
  What the host functions and the pallet rely on when they use a map. \<open>kv_op\<close> is one abstract
  write; replaying a list of writes through any implementation of the contract gives the map that
  the same writes give on \<open>'k \<rightharpoonup> 'v\<close>.
\<close>

datatype ('k, 'v) kv_op = Put 'k 'v | Del 'k

fun map_apply :: "('k, 'v) kv_op \<Rightarrow> ('k \<rightharpoonup> 'v) \<Rightarrow> ('k \<rightharpoonup> 'v)" where
  "map_apply (Put k v) f = f(k \<mapsto> v)"
| "map_apply (Del k) f = f(k := None)"

fun btree_apply :: "('k::linorder, 'v) kv_op \<Rightarrow> ('k, 'v) btree_map \<Rightarrow> ('k, 'v) btree_map" where
  "btree_apply (Put k v) m = btree_insert k v m"
| "btree_apply (Del k) m = btree_remove k m"

fun op_key :: "('k, 'v) kv_op \<Rightarrow> 'k" where
  "op_key (Put k v) = k"
| "op_key (Del k) = k"

locale kv_store =
  fixes empty :: "'m"
    and apply_op :: "('k, 'v) kv_op \<Rightarrow> 'm \<Rightarrow> 'm"
    and get :: "'m \<Rightarrow> 'k \<Rightarrow> 'v option"
    and wf :: "'m \<Rightarrow> bool"
  assumes wf_empty: "wf empty"
    and wf_apply: "wf m \<Longrightarrow> wf (apply_op w m)"
    and get_empty: "get empty k = None"
    and get_apply: "wf m \<Longrightarrow> get (apply_op w m) = map_apply w (get m)"
    and extensional: "wf m \<Longrightarrow> wf n \<Longrightarrow> get m = get n \<Longrightarrow> m = n"
begin

lemma wf_replay: "wf m \<Longrightarrow> wf (fold apply_op ws m)"
  by (induction ws arbitrary: m) (auto simp: wf_apply)

lemma get_replay: "wf m \<Longrightarrow> get (fold apply_op ws m) = fold map_apply ws (get m)"
  by (induction ws arbitrary: m) (auto simp: wf_apply get_apply)

lemma untouched_key:
  "wf m \<Longrightarrow> k \<notin> op_key ` set ws \<Longrightarrow> get (fold apply_op ws m) k = get m k"
proof (induction ws arbitrary: m)
  case (Cons w ws)
  then have "get (fold apply_op ws (apply_op w m)) k = get (apply_op w m) k"
    by (intro Cons.IH) (auto simp: wf_apply)
  also have "\<dots> = get m k"
    using Cons.prems by (cases w) (auto simp: get_apply)
  finally show ?case by simp
qed simp

end

interpretation btree: kv_store "[]" btree_apply btree_get btree_wf
proof
  show "btree_wf (btree_apply w m)" if "btree_wf m" for w and m :: "('a, 'b) btree_map"
    using that by (cases w) auto
  show "btree_get (btree_apply w m) = map_apply w (btree_get m)" if "btree_wf m"
    for w and m :: "('a, 'b) btree_map"
    using that by (cases w) auto
qed (auto intro: btree_ext)

end
