(* ===== verification/Scale_Codec.thy ===== *)
theory Scale_Codec
  imports Kontracts_Prelude
begin

text \<open>
  The interface to \<open>parity-scale-codec\<close> (not under \<open>src/\<close>): the record \<open>scale\<close> holds the encoders
  and decoders the code calls, the locale \<open>scale_codec\<close> the documented format they promise (compact
  length prefixes of 1, 2, 4 or 5 bytes, vectors as length then items, maps as a vector of entries
  in key order, decoders that invert the encoders). Every definition of the model takes the codec
  as an argument. Theory \<open>Scale_Reference\<close> implements the published format and interprets the
  locale on it, which shows that the laws can hold together; the witnesses run on that instance.
\<close>

section \<open>The calls and their laws\<close>

type_synonym kv_storage = "(bytes, bytes) btree_map"

record scale =
  enc_compact :: "nat \<Rightarrow> bytes"
  dec_compact :: "bytes \<Rightarrow> (u32 \<times> bytes) option"
  enc_bytes :: "bytes \<Rightarrow> bytes"
  dec_bytes :: "bytes \<Rightarrow> (bytes \<times> bytes) option"
  enc_map :: "kv_storage \<Rightarrow> bytes option"
  dec_map :: "bytes \<Rightarrow> kv_storage option"
  dec_bounded_map :: "nat \<Rightarrow> nat \<Rightarrow> nat \<Rightarrow> bytes \<Rightarrow> kv_storage option"
  enc_u32 :: "u32 \<Rightarrow> bytes"
  dec_u32 :: "bytes \<Rightarrow> u32 option"
  enc_vec_u32 :: "u32 list \<Rightarrow> bytes"
  dec_vec_u32 :: "bytes \<Rightarrow> u32 list option"

text \<open>Length of a compact prefix, and of the entries of a storage without the prefix of the map.\<close>

definition compact_len :: "nat \<Rightarrow> nat" where
  "compact_len n = (if n < 64 then 1 else if n < 16384 then 2 else if n < 1073741824 then 4 else 5)"

definition entry_size :: "bytes \<times> bytes \<Rightarrow> nat" where
  "entry_size e = compact_len (length (fst e)) + length (fst e)
     + compact_len (length (snd e)) + length (snd e)"

definition entries_size :: "kv_storage \<Rightarrow> nat" where
  "entries_size m = sum_list (map entry_size m)"

text \<open>Everything a 32-bit length prefix can describe, and the bounds of a bounded map.\<close>

definition encodable :: "kv_storage \<Rightarrow> bool" where
  "encodable m \<longleftrightarrow> length m < 4294967296 \<and>
     (\<forall>e \<in> set m. length (fst e) < 4294967296 \<and> length (snd e) < 4294967296)"

text \<open>\<open>encode\<close> panics on a collection that a 32-bit length cannot describe: \<open>enc_map\<close> is then \<open>None\<close>.\<close>

definition within_bounds :: "nat \<Rightarrow> nat \<Rightarrow> nat \<Rightarrow> kv_storage \<Rightarrow> bool" where
  "within_bounds kmax vmax nmax m \<longleftrightarrow> length m \<le> nmax \<and>
     (\<forall>e \<in> set m. length (fst e) \<le> kmax \<and> length (snd e) \<le> vmax)"

lemma compact_len_pos [simp]: "0 < compact_len n"
  by (simp add: compact_len_def)

lemma compact_len_le: "compact_len n \<le> 5"
  by (simp add: compact_len_def)

lemma entries_size_Nil [simp]: "entries_size [] = 0"
  and entries_size_Cons [simp]: "entries_size (e # m) = entry_size e + entries_size m"
  by (simp_all add: entries_size_def)

lemma encodable_Nil [simp]: "encodable []"
  by (simp add: encodable_def)

lemma within_bounds_Nil [simp]: "within_bounds k v n []"
  by (simp add: within_bounds_def)

lemma within_bounds_encodable:
  assumes "within_bounds k v n m" and "k < 4294967296" "v < 4294967296" "n < 4294967296"
  shows "encodable m"
  using assms by (force simp: within_bounds_def encodable_def)

lemma entries_size_bound:
  assumes "within_bounds k v n m" and "k < 16384" and "v < 16384"
  shows "entries_size m \<le> n * (4 + k + v)"
proof -
  have "entry_size e \<le> 4 + k + v" if "e \<in> set m" for e
  proof -
    have "length (fst e) \<le> k" "length (snd e) \<le> v"
      using assms(1) that by (auto simp: within_bounds_def)
    then show ?thesis using assms(2,3) by (simp add: entry_size_def compact_len_def)
  qed
  then have "entries_size m \<le> length m * (4 + k + v)"
    using sum_list_mono [of m entry_size "\<lambda>_. 4 + k + v"]
    by (simp add: entries_size_def sum_list_triv)
  also have "\<dots> \<le> n * (4 + k + v)"
    using assms(1) by (intro mult_right_mono) (auto simp: within_bounds_def)
  finally show ?thesis .
qed

definition enc_entry :: "scale \<Rightarrow> bytes \<times> bytes \<Rightarrow> bytes" where
  "enc_entry C e = enc_bytes C (fst e) @ enc_bytes C (snd e)"

definition enc_entries :: "scale \<Rightarrow> kv_storage \<Rightarrow> bytes" where
  "enc_entries C m = concat (map (enc_entry C) m)"

locale scale_codec =
  fixes C :: scale
  assumes compact_length: "n < 4294967296 \<Longrightarrow> length (enc_compact C n) = compact_len n"
    and compact_roundtrip: "n < 4294967296 \<Longrightarrow>
      dec_compact C (enc_compact C n @ r) = Some (of_nat n, r)"
    and bytes_format: "length v < 4294967296 \<Longrightarrow> enc_bytes C v = enc_compact C (length v) @ v"
    and bytes_roundtrip: "length v < 4294967296 \<Longrightarrow> dec_bytes C (enc_bytes C v @ r) = Some (v, r)"
    and map_format: "enc_map C m =
      (if encodable m then Some (enc_compact C (length m) @ enc_entries C m) else None)"
    and map_roundtrip: "btree_wf m \<Longrightarrow> enc_map C m = Some bs \<Longrightarrow> dec_map C bs = Some m"
    and map_decoded: "dec_map C bs = Some m \<Longrightarrow> btree_wf m \<and> encodable m"
    and bounded_map_decoded: "dec_bounded_map C kmax vmax nmax bs = Some m \<Longrightarrow>
      btree_wf m \<and> within_bounds kmax vmax nmax m"
    and bounded_map: "btree_wf m \<Longrightarrow> enc_map C m = Some bs \<Longrightarrow>
      dec_bounded_map C kmax vmax nmax bs =
        (if within_bounds kmax vmax nmax m then Some m else None)"
    and u32_length: "length (enc_u32 C x) = 4"
    and u32_roundtrip: "dec_u32 C (enc_u32 C x @ r) = Some x"
    and u32_short: "length bs < 4 \<Longrightarrow> dec_u32 C bs = None"
    and vec_u32_format: "length xs < 4294967296 \<Longrightarrow>
      enc_vec_u32 C xs = enc_compact C (length xs) @ concat (map (enc_u32 C) xs)"
    and vec_u32_roundtrip: "length xs < 4294967296 \<Longrightarrow> dec_vec_u32 C (enc_vec_u32 C xs @ r) = Some xs"
    and vec_u32_empty: "dec_vec_u32 C [] = None"
begin

lemma bytes_length:
  "length v < 4294967296 \<Longrightarrow> length (enc_bytes C v) = compact_len (length v) + length v"
  by (simp add: bytes_format compact_length)

lemma entry_length:
  "length (fst e) < 4294967296 \<Longrightarrow> length (snd e) < 4294967296 \<Longrightarrow>
   length (enc_entry C e) = entry_size e"
  by (simp add: enc_entry_def entry_size_def bytes_length)

lemma entries_length: "encodable m \<Longrightarrow> length (enc_entries C m) = entries_size m"
  unfolding encodable_def enc_entries_def
  by (induction m) (auto simp: entry_length)

text \<open>Decoding the compact length of an encoded storage leaves exactly its entries.\<close>

lemma enc_map_encodable: "enc_map C m = Some bs \<Longrightarrow> encodable m"
  by (simp add: map_format split: if_splits)

lemma dec_compact_map:
  "enc_map C m = Some bs \<Longrightarrow> dec_compact C bs = Some (of_nat (length m), enc_entries C m)"
  by (auto simp: map_format compact_roundtrip encodable_def split: if_splits)

lemma bytes_roundtrip': "length v < 4294967296 \<Longrightarrow> dec_bytes C (enc_bytes C v) = Some (v, [])"
  using bytes_roundtrip [of v "[]"] by simp

lemma u32_roundtrip': "dec_u32 C (enc_u32 C x) = Some x"
  using u32_roundtrip [of x "[]"] by simp

lemma vec_u32_roundtrip': "length xs < 4294967296 \<Longrightarrow> dec_vec_u32 C (enc_vec_u32 C xs) = Some xs"
  using vec_u32_roundtrip [of xs "[]"] by simp

lemma vec_u32_length:
  assumes "length xs < 4294967296"
  shows "length (enc_vec_u32 C xs) = compact_len (length xs) + 4 * length xs"
proof -
  have "length (concat (map (enc_u32 C) xs)) = 4 * length xs"
    by (induction xs) (auto simp: u32_length)
  with assms show ?thesis by (simp add: vec_u32_format compact_length)
qed

text \<open>One byte of prefix is written for a vector exactly when it has fewer than 64 elements.\<close>

lemma bytes_length_Suc_iff:
  "length v < 4294967296 \<Longrightarrow> length (enc_bytes C v) = Suc (length v) \<longleftrightarrow> length v < 64"
  by (simp add: bytes_length compact_len_def)

end

end
