(* ===== verification/Scale_Reference.thy ===== *)
theory Scale_Reference
  imports Scale_Codec
begin

text \<open>
  The published SCALE format, executable, as the instance of the interface \<open>scale_codec\<close> that the
  witnesses evaluate: little-endian integers, the four modes of a compact integer (the two low bits
  of the first byte), vectors, and maps read back as a \<open>BTreeMap\<close> entry by entry.
  Nothing outside the witnesses depends on this instance.
\<close>

section \<open>Little-endian integers\<close>

fun le_bytes :: "nat \<Rightarrow> nat \<Rightarrow> bytes" where
  "le_bytes 0 n = []"
| "le_bytes (Suc k) n = word_of_nat (n mod 256) # le_bytes k (n div 256)"

fun le_nat :: "bytes \<Rightarrow> nat" where
  "le_nat [] = 0"
| "le_nat (b # bs) = unat b + 256 * le_nat bs"

lemma length_le_bytes [simp]: "length (le_bytes k n) = k"
  by (induction k arbitrary: n) auto

lemma le_nat_le_bytes: "n < 256 ^ k \<Longrightarrow> le_nat (le_bytes k n) = n"
proof (induction k arbitrary: n)
  case (Suc k)
  have "unat (word_of_nat (n mod 256) :: u8) = n mod 256"
    by (simp add: unat_of_nat)
  moreover have "n div 256 < 256 ^ k"
    using Suc.prems by (simp add: less_mult_imp_div_less mult.commute)
  ultimately show ?case by (simp add: Suc.IH)
qed simp

section \<open>Compact integers\<close>

definition ref_enc_compact :: "nat \<Rightarrow> bytes" where
  "ref_enc_compact n =
     (if n < 64 then le_bytes 1 (4 * n)
      else if n < 16384 then le_bytes 2 (4 * n + 1)
      else if n < 1073741824 then le_bytes 4 (4 * n + 2)
      else 3 # le_bytes 4 n)"

text \<open>The mode is in the two low bits; a value that a shorter mode could hold is refused.\<close>

definition ref_dec_compact :: "bytes \<Rightarrow> (u32 \<times> bytes) option" where
  "ref_dec_compact bs =
     (case bs of
        [] \<Rightarrow> None
      | b # _ \<Rightarrow>
          (let mode = unat b mod 4;
               k = (if mode = 0 then 1 else if mode = 1 then 2 else if mode = 2 then 4 else 5);
               raw = take k bs;
               n = (if mode = 3 then le_nat (drop 1 raw) else le_nat raw div 4)
           in if length bs < k then None
              else if mode = 3 \<and> b \<noteq> 3 then None
              else if compact_len n \<noteq> k then None
              else Some (word_of_nat n, drop k bs)))"

lemma length_ref_enc_compact: "length (ref_enc_compact n) = compact_len n"
  by (simp add: ref_enc_compact_def compact_len_def)

lemma low_bits: "r < 4 \<Longrightarrow> (4 * n + r) mod 256 mod 4 = (r :: nat)"
proof -
  have "(4 * n + r) mod 256 mod 4 = (4 * n + r) mod 4"
    by (rule mod_mod_cancel) simp
  then show "r < 4 \<Longrightarrow> ?thesis" by simp
qed

lemma ref_dec_compact_mode:
  assumes "raw = b # bs" and "unat b mod 4 = mode" and "mode \<in> {1, 2}"
    and "length raw = 2 * mode" and "le_nat raw div 4 = n" and "compact_len n = 2 * mode"
  shows "ref_dec_compact (raw @ r) = Some (word_of_nat n, r)"
  using assms by (auto simp: ref_dec_compact_def Let_def)

lemma ref_compact_roundtrip:
  assumes "n < 4294967296"
  shows "ref_dec_compact (ref_enc_compact n @ r) = Some (word_of_nat n, r)"
proof -
  consider "n < 64" | "64 \<le> n" "n < 16384" | "16384 \<le> n" "n < 1073741824" | "1073741824 \<le> n"
    by linarith
  then show ?thesis
  proof cases
    case 1
    have "unat (word_of_nat (4 * n) :: u8) = 4 * n"
      using 1 by (intro unat_u8_of_nat) simp
    then show ?thesis
      using 1 by (simp add: ref_dec_compact_def ref_enc_compact_def compact_len_def Let_def
          del: of_nat_mult)
  next
    case 2
    define raw where "raw = le_bytes 2 (4 * n + 1)"
    have raw: "le_nat raw = 4 * n + 1" "length raw = 2"
      using 2 by (simp_all add: raw_def le_nat_le_bytes)
    obtain b bs where b: "raw = b # bs" "unat b mod 4 = 1"
    proof
      show "raw = word_of_nat ((4 * n + 1) mod 256) # le_bytes 1 ((4 * n + 1) div 256)"
        by (simp add: raw_def numeral_2_eq_2)
      show "unat (word_of_nat ((4 * n + 1) mod 256) :: u8) mod 4 = 1"
        using low_bits [of 1 n] by (subst unat_u8_of_nat) simp_all
    qed
    have "ref_enc_compact n = raw"
      using 2 by (simp add: ref_enc_compact_def raw_def)
    with ref_dec_compact_mode [OF b, of n r] 2 raw show ?thesis
      by (simp add: compact_len_def)
  next
    case 3
    define raw where "raw = le_bytes 4 (4 * n + 2)"
    have raw: "le_nat raw = 4 * n + 2" "length raw = 4"
      using 3 by (simp_all add: raw_def le_nat_le_bytes)
    obtain b bs where b: "raw = b # bs" "unat b mod 4 = 2"
    proof
      show "raw = word_of_nat ((4 * n + 2) mod 256) # le_bytes 3 ((4 * n + 2) div 256)"
        using le_bytes.simps(2) [of 3 "4 * n + 2"] by (simp add: raw_def)
      show "unat (word_of_nat ((4 * n + 2) mod 256) :: u8) mod 4 = 2"
        using low_bits [of 2 n] by (subst unat_u8_of_nat) simp_all
    qed
    have "ref_enc_compact n = raw"
      using 3 by (simp add: ref_enc_compact_def raw_def)
    with ref_dec_compact_mode [OF b, of n r] 3 raw show ?thesis
      by (simp add: compact_len_def)
  next
    case 4
    then show ?thesis
      using assms by (simp add: ref_dec_compact_def ref_enc_compact_def compact_len_def
          le_nat_le_bytes)
  qed
qed

section \<open>Vectors and maps\<close>

definition ref_enc_bytes :: "bytes \<Rightarrow> bytes" where
  "ref_enc_bytes v = ref_enc_compact (length v) @ v"

definition ref_dec_bytes :: "bytes \<Rightarrow> (bytes \<times> bytes) option" where
  "ref_dec_bytes bs =
     (case ref_dec_compact bs of
        None \<Rightarrow> None
      | Some (n, r) \<Rightarrow>
          if unat n \<le> length r then Some (take (unat n) r, drop (unat n) r) else None)"

definition ref_enc_map :: "kv_storage \<Rightarrow> bytes option" where
  "ref_enc_map m =
     (if encodable m then Some (ref_enc_compact (length m) @
        concat (map (\<lambda>e. ref_enc_bytes (fst e) @ ref_enc_bytes (snd e)) m))
      else None)"

fun ref_dec_entries :: "nat \<Rightarrow> bytes \<Rightarrow> (kv_storage \<times> bytes) option" where
  "ref_dec_entries 0 bs = Some ([], bs)"
| "ref_dec_entries (Suc n) bs =
     (case ref_dec_bytes bs of
        None \<Rightarrow> None
      | Some (k, r) \<Rightarrow>
          (case ref_dec_bytes r of
             None \<Rightarrow> None
           | Some (v, r') \<Rightarrow>
               (case ref_dec_entries n r' of
                  None \<Rightarrow> None
                | Some (m, r'') \<Rightarrow> Some ((k, v) # m, r''))))"

definition collect_entries :: "kv_storage \<Rightarrow> kv_storage" where
  "collect_entries es = fold (\<lambda>e. btree_insert (fst e) (snd e)) es []"

definition ref_dec_map :: "bytes \<Rightarrow> kv_storage option" where
  "ref_dec_map bs =
     (case ref_dec_compact bs of
        None \<Rightarrow> None
      | Some (n, r) \<Rightarrow> map_option (\<lambda>(es, _). collect_entries es) (ref_dec_entries (unat n) r))"

definition ref_dec_bounded_map :: "nat \<Rightarrow> nat \<Rightarrow> nat \<Rightarrow> bytes \<Rightarrow> kv_storage option" where
  "ref_dec_bounded_map k v n bs =
     (case ref_dec_map bs of
        None \<Rightarrow> None
      | Some m \<Rightarrow> if within_bounds k v n m then Some m else None)"

definition ref_enc_u32 :: "u32 \<Rightarrow> bytes" where
  "ref_enc_u32 x = le_bytes 4 (unat x)"

definition ref_dec_u32 :: "bytes \<Rightarrow> u32 option" where
  "ref_dec_u32 bs = (if length bs < 4 then None else Some (word_of_nat (le_nat (take 4 bs))))"

definition ref_enc_vec_u32 :: "u32 list \<Rightarrow> bytes" where
  "ref_enc_vec_u32 xs = ref_enc_compact (length xs) @ concat (map ref_enc_u32 xs)"

fun ref_dec_u32s :: "nat \<Rightarrow> bytes \<Rightarrow> u32 list option" where
  "ref_dec_u32s 0 bs = Some []"
| "ref_dec_u32s (Suc n) bs =
     (case ref_dec_u32 bs of
        None \<Rightarrow> None
      | Some x \<Rightarrow> map_option ((#) x) (ref_dec_u32s n (drop 4 bs)))"

definition ref_dec_vec_u32 :: "bytes \<Rightarrow> u32 list option" where
  "ref_dec_vec_u32 bs =
     (case ref_dec_compact bs of None \<Rightarrow> None | Some (n, r) \<Rightarrow> ref_dec_u32s (unat n) r)"

definition scale_ref :: scale where
  "scale_ref = \<lparr>enc_compact = ref_enc_compact, dec_compact = ref_dec_compact,
     enc_bytes = ref_enc_bytes, dec_bytes = ref_dec_bytes, enc_map = ref_enc_map,
     dec_map = ref_dec_map, dec_bounded_map = ref_dec_bounded_map, enc_u32 = ref_enc_u32,
     dec_u32 = ref_dec_u32, enc_vec_u32 = ref_enc_vec_u32, dec_vec_u32 = ref_dec_vec_u32\<rparr>"

section \<open>The laws hold\<close>

lemma ref_bytes_roundtrip:
  "length v < 4294967296 \<Longrightarrow> ref_dec_bytes (ref_enc_bytes v @ r) = Some (v, r)"
  by (simp add: ref_dec_bytes_def ref_enc_bytes_def ref_compact_roundtrip unat_u32_of_nat)

lemma ref_dec_bytes_length:
  "ref_dec_bytes bs = Some (v, r) \<Longrightarrow> length v < 4294967296"
proof -
  assume "ref_dec_bytes bs = Some (v, r)"
  then obtain n :: u32 and r' where "v = take (unat n) r'"
    by (auto simp: ref_dec_bytes_def split: option.splits if_splits)
  then have "length v \<le> unat n" by simp
  also have "\<dots> < 4294967296" by simp
  finally show ?thesis .
qed

lemma ref_entries_roundtrip:
  "\<forall>e \<in> set m. length (fst e) < 4294967296 \<and> length (snd e) < 4294967296 \<Longrightarrow>
   ref_dec_entries (length m)
     (concat (map (\<lambda>e. ref_enc_bytes (fst e) @ ref_enc_bytes (snd e)) m) @ r) = Some (m, r)"
  by (induction m) (auto simp: ref_bytes_roundtrip)

lemma ref_dec_entries_bounds:
  "ref_dec_entries n bs = Some (m, r) \<Longrightarrow>
   length m = n \<and> (\<forall>e \<in> set m. length (fst e) < 4294967296 \<and> length (snd e) < 4294967296)"
proof (induction n bs arbitrary: m r rule: ref_dec_entries.induct)
  case (2 n bs)
  then obtain k s v t es where "ref_dec_bytes bs = Some (k, s)" "ref_dec_bytes s = Some (v, t)"
    and "ref_dec_entries n t = Some (es, r)" "m = (k, v) # es"
    by (auto split: option.splits)
  with 2 show ?case by (auto dest!: ref_dec_bytes_length)
qed simp

lemma btree_insert_last:
  "btree_wf (m @ [(k, v)]) \<Longrightarrow> btree_insert k v m = m @ [(k, v)]"
  by (induction m) auto

lemma collect_entries_wf_id: "btree_wf m \<Longrightarrow> collect_entries m = m"
proof (induction m rule: rev_induct)
  case (snoc e m)
  have "btree_wf m"
    using snoc.prems by (simp add: btree_wf_def sorted_wrt_append)
  with snoc show ?case
    using btree_insert_last [of m "fst e" "snd e"] by (simp add: collect_entries_def)
qed (simp add: collect_entries_def)

lemma collect_entries_props:
  "btree_wf (collect_entries es) \<and> length (collect_entries es) \<le> length es \<and>
   set (collect_entries es) \<subseteq> set es"
proof (induction es rule: rev_induct)
  case (snoc e es)
  let ?m = "collect_entries es"
  have "collect_entries (es @ [e]) = btree_insert (fst e) (snd e) ?m"
    by (simp add: collect_entries_def)
  moreover have "set (btree_insert (fst e) (snd e) ?m) \<subseteq> insert e (set ?m)"
    using set_btree_insert [of "fst e" "snd e" ?m] by simp
  moreover have "length (btree_insert (fst e) (snd e) ?m) \<le> Suc (length ?m)"
    by (rule length_btree_insert_le)
  ultimately show ?case using snoc by auto
qed (simp add: collect_entries_def)

lemma ref_map_roundtrip:
  "btree_wf m \<Longrightarrow> ref_enc_map m = Some bs \<Longrightarrow> ref_dec_map bs = Some m"
  using ref_entries_roundtrip [of m "[]"]
  by (auto simp: ref_dec_map_def ref_enc_map_def ref_compact_roundtrip unat_u32_of_nat
      encodable_def collect_entries_wf_id split: if_splits)

lemma ref_map_decoded:
  assumes "ref_dec_map bs = Some m"
  shows "btree_wf m \<and> encodable m"
proof -
  from assms obtain n :: u32 and es r r' where es: "ref_dec_entries (unat n) r = Some (es, r')"
    and m: "m = collect_entries es"
    by (auto simp: ref_dec_map_def split: option.splits)
  have "unat n < 4294967296" by (rule unat_u32_less)
  then have "length (collect_entries es) < 4294967296"
    using ref_dec_entries_bounds [OF es] collect_entries_props [of es] by linarith
  with ref_dec_entries_bounds [OF es] collect_entries_props [of es] show ?thesis
    unfolding m encodable_def by blast
qed

lemma ref_u32_roundtrip: "ref_dec_u32 (ref_enc_u32 x @ r) = Some x"
  by (simp add: ref_dec_u32_def ref_enc_u32_def le_nat_le_bytes)

lemma ref_u32s_roundtrip:
  "ref_dec_u32s (length xs) (concat (map ref_enc_u32 xs) @ r) = Some xs"
proof (induction xs)
  case (Cons x xs)
  have "length (ref_enc_u32 x) = 4"
    by (simp add: ref_enc_u32_def)
  with Cons show ?case by (simp add: ref_u32_roundtrip)
qed simp

lemma ref_vec_u32_roundtrip:
  "length xs < 4294967296 \<Longrightarrow> ref_dec_vec_u32 (ref_enc_vec_u32 xs @ r) = Some xs"
  by (simp add: ref_dec_vec_u32_def ref_enc_vec_u32_def ref_compact_roundtrip unat_u32_of_nat
      ref_u32s_roundtrip)

lemma scale_ref_sel [simp]:
  "enc_compact scale_ref = ref_enc_compact" "dec_compact scale_ref = ref_dec_compact"
  "enc_bytes scale_ref = ref_enc_bytes" "dec_bytes scale_ref = ref_dec_bytes"
  "enc_map scale_ref = ref_enc_map" "dec_map scale_ref = ref_dec_map"
  "dec_bounded_map scale_ref = ref_dec_bounded_map"
  "enc_u32 scale_ref = ref_enc_u32" "dec_u32 scale_ref = ref_dec_u32"
  "enc_vec_u32 scale_ref = ref_enc_vec_u32" "dec_vec_u32 scale_ref = ref_dec_vec_u32"
  by (simp_all add: scale_ref_def)

lemma ref_map_format:
  "ref_enc_map m =
     (if encodable m then Some (ref_enc_compact (length m) @ enc_entries scale_ref m) else None)"
proof -
  have "enc_entry scale_ref = (\<lambda>e. ref_enc_bytes (fst e) @ ref_enc_bytes (snd e))"
    by (simp add: enc_entry_def fun_eq_iff)
  then show ?thesis by (simp add: ref_enc_map_def enc_entries_def)
qed

lemma ref_bounded_map_decoded:
  "ref_dec_bounded_map kmax vmax nmax bs = Some m \<Longrightarrow>
   btree_wf m \<and> within_bounds kmax vmax nmax m"
  using ref_map_decoded [of bs]
  by (auto simp: ref_dec_bounded_map_def split: option.splits if_splits)

interpretation scale_ref: scale_codec scale_ref
proof
  show "dec_u32 scale_ref bs = None" if "length bs < 4" for bs
    using that by (simp add: ref_dec_u32_def)
  show "length (enc_u32 scale_ref x) = 4" for x
    by (simp add: ref_enc_u32_def)
  show "dec_vec_u32 scale_ref [] = None"
    by (simp add: ref_dec_vec_u32_def ref_dec_compact_def)
  show "dec_bounded_map scale_ref kmax vmax nmax bs =
      (if within_bounds kmax vmax nmax m then Some m else None)"
    if "btree_wf m" "enc_map scale_ref m = Some bs" for m bs kmax vmax nmax
    using ref_map_roundtrip [of m bs] that by (simp add: ref_dec_bounded_map_def)
  show "dec_map scale_ref bs = Some m" if "btree_wf m" "enc_map scale_ref m = Some bs" for m bs
    using ref_map_roundtrip [of m bs] that by simp
  show "enc_map scale_ref m =
      (if encodable m then Some (enc_compact scale_ref (length m) @ enc_entries scale_ref m) else None)"
    for m
    by (simp add: ref_map_format)
qed (simp_all add: length_ref_enc_compact ref_compact_roundtrip ref_bytes_roundtrip
    ref_enc_bytes_def ref_u32_roundtrip ref_enc_vec_u32_def ref_map_decoded
    ref_bounded_map_decoded ref_vec_u32_roundtrip [unfolded ref_enc_vec_u32_def append_assoc]
    ref_bytes_roundtrip [unfolded ref_enc_bytes_def append_assoc])

end
