(* ===== verification/Host_Functions.thy ===== *)
theory Host_Functions
  imports Scale_Reference
begin

text \<open>
  The module \<open>kontracts_host_function\<close> of \<open>kontracts-executor/src/lib.rs\<close>: the store a running
  kontract works on (\<open>KontractStore\<close>), the read and write quotas, the three storage operations and
  the copies between host and guest memory. Every function takes the wasmtime \<open>Caller\<close> as a
  record and returns it updated, beside an outcome that is a value, a \<open>Trap\<close> (its message) or a
  Rust panic. Arithmetic on the counters wraps, as in the release profile the node is built with.
\<close>

section \<open>State\<close>

record kontract_store =
  max_n_read :: u32
  max_n_write :: u32
  curr_n_read :: u32
  curr_n_write :: u32
  storage :: kv_storage

type_synonym trap = string

text \<open>What \<open>Caller::get_export\<close> finds: a linear memory, or a function, global or table.\<close>

datatype extern = Memory bytes | OtherExtern

record caller =
  store_data :: kontract_store
  exports :: "string \<rightharpoonup> extern"

section \<open>Operations\<close>

definition update_with_check :: "u32 \<Rightarrow> u32 \<Rightarrow> bool \<Rightarrow> (u32, trap) outcome" where
  "update_with_check val max_val r_or_w =
     (let x = val + 1 in
      if x \<le> max_val then Ok x
      else Err (if r_or_w then ''ExceededWrites'' else ''ExceededReads''))"

definition kontracts_set ::
  "(bytes \<Rightarrow> bytes) \<Rightarrow> bytes \<Rightarrow> bytes \<Rightarrow> caller \<Rightarrow> (unit, trap) outcome \<times> caller" where
  "kontracts_set blake2 key value c =
     (let d = store_data c in
      case update_with_check (curr_n_write d) (max_n_write d) True of
        Ok n \<Rightarrow>
          (Ok (), c\<lparr>store_data := d\<lparr>curr_n_write := n,
                     storage := btree_insert (blake2 key) value (storage d)\<rparr>\<rparr>)
      | Err t \<Rightarrow> (Err t, c)
      | Panic \<Rightarrow> (Panic, c))"

definition kontracts_get ::
  "(bytes \<Rightarrow> bytes) \<Rightarrow> bytes \<Rightarrow> caller \<Rightarrow> (bytes option, trap) outcome \<times> caller" where
  "kontracts_get blake2 key c =
     (let d = store_data c in
      case update_with_check (curr_n_read d) (max_n_read d) False of
        Ok n \<Rightarrow>
          (Ok (btree_get (storage d) (blake2 key)), c\<lparr>store_data := d\<lparr>curr_n_read := n\<rparr>\<rparr>)
      | Err t \<Rightarrow> (Err t, c)
      | Panic \<Rightarrow> (Panic, c))"

definition kontracts_remove ::
  "(bytes \<Rightarrow> bytes) \<Rightarrow> bytes \<Rightarrow> caller \<Rightarrow> (unit, trap) outcome \<times> caller" where
  "kontracts_remove blake2 key c =
     (let d = store_data c in
      case update_with_check (curr_n_write d) (max_n_write d) True of
        Ok n \<Rightarrow>
          (Ok (), c\<lparr>store_data := d\<lparr>curr_n_write := n,
                     storage := btree_remove (blake2 key) (storage d)\<rparr>\<rparr>)
      | Err t \<Rightarrow> (Err t, c)
      | Panic \<Rightarrow> (Panic, c))"

definition read_vec :: "caller \<Rightarrow> u32 \<Rightarrow> u32 \<Rightarrow> (bytes, trap) outcome" where
  "read_vec c ptr sz =
     (case exports c ''memory'' of
        Some (Memory mem) \<Rightarrow>
          (case Option.bind (get_from mem (unat ptr)) (\<lambda>arr. get_to arr (unat sz)) of
             Some w \<Rightarrow> Ok w
           | None \<Rightarrow> Err ''Impossible reading wasm memory'')
      | _ \<Rightarrow> Err ''Impossible reading wasm memory'')"

text \<open>
  \<open>write_vec\<close> takes the mutable slice \<open>[ptr ..= ptr + vec.len()]\<close>, which panics when its end lies
  beyond the memory, and copies the SCALE encoding of the vector into it, which panics when the
  encoding is not exactly one byte longer than the vector.
\<close>

definition write_vec ::
  "scale \<Rightarrow> bytes \<Rightarrow> u32 \<Rightarrow> u32 \<Rightarrow> caller \<Rightarrow> (unit, trap) outcome \<times> caller" where
  "write_vec C vec ptr sz c =
     (case exports c ''memory'' of
        Some (Memory mem) \<Rightarrow>
          if unat sz < length vec then (Err ''Impossible write data in wasm memory'', c)
          else if length mem < unat ptr + length vec + 1 then (Panic, c)
          else if length (enc_bytes C vec) \<noteq> length vec + 1 then (Panic, c)
          else (Ok (), c\<lparr>exports := (exports c)(''memory'' \<mapsto>
                          Memory (overwrite (unat ptr) (enc_bytes C vec) mem))\<rparr>)
      | _ \<Rightarrow> (Err ''Impossible write data in wasm memory'', c))"

section \<open>The three functions linked into the guest\<close>

text \<open>
  A call a guest can make, with the parameters the closures of \<open>func_wrap\<close> declare; wasmtime
  checks the signature when the module is linked.
\<close>

datatype host_call =
    CallSet u32 u32 u32 u32
  | CallGet u32 u32 u32 u32
  | CallRemove u32 u32

definition env_set ::
  "(bytes \<Rightarrow> bytes) \<Rightarrow> u32 \<Rightarrow> u32 \<Rightarrow> u32 \<Rightarrow> u32 \<Rightarrow> caller \<Rightarrow> (unit, trap) outcome \<times> caller" where
  "env_set blake2 key_ptr key_size value_ptr value_size =
     and_then (\<lambda>c. (read_vec c key_ptr key_size, c)) (\<lambda>key_vec.
     and_then (\<lambda>c. (read_vec c value_ptr value_size, c)) (\<lambda>value_vec.
     kontracts_set blake2 key_vec value_vec))"

definition env_get ::
  "(bytes \<Rightarrow> bytes) \<Rightarrow> scale \<Rightarrow> u32 \<Rightarrow> u32 \<Rightarrow> u32 \<Rightarrow> u32 \<Rightarrow> caller \<Rightarrow> (unit, trap) outcome \<times> caller" where
  "env_get blake2 C key_ptr key_size value_ptr value_max_size =
     and_then (\<lambda>c. (read_vec c key_ptr key_size, c)) (\<lambda>key_vec.
     and_then (kontracts_get blake2 key_vec) (\<lambda>value.
     write_vec C (case value of Some v \<Rightarrow> v | None \<Rightarrow> []) value_ptr value_max_size))"

definition env_remove ::
  "(bytes \<Rightarrow> bytes) \<Rightarrow> u32 \<Rightarrow> u32 \<Rightarrow> caller \<Rightarrow> (unit, trap) outcome \<times> caller" where
  "env_remove blake2 key_ptr key_size =
     and_then (\<lambda>c. (read_vec c key_ptr key_size, c)) (\<lambda>key_vec.
     kontracts_remove blake2 key_vec)"

fun host_dispatch ::
  "(bytes \<Rightarrow> bytes) \<Rightarrow> scale \<Rightarrow> host_call \<Rightarrow> caller \<Rightarrow> (unit, trap) outcome \<times> caller" where
  "host_dispatch blake2 C (CallSet kp ks vp vs) = env_set blake2 kp ks vp vs"
| "host_dispatch blake2 C (CallGet kp ks vp vs) = env_get blake2 C kp ks vp vs"
| "host_dispatch blake2 C (CallRemove kp ks) = env_remove blake2 kp ks"

fun is_read :: "host_call \<Rightarrow> bool" where
  "is_read (CallGet kp ks vp vs) = True"
| "is_read _ = False"

text \<open>The abstract write a call stands for, on the memory the guest hands over.\<close>

fun host_writes :: "(bytes \<Rightarrow> bytes) \<Rightarrow> host_call \<Rightarrow> caller \<Rightarrow> (bytes, bytes) kv_op list" where
  "host_writes blake2 (CallSet kp ks vp vs) c =
     (case (read_vec c kp ks, read_vec c vp vs) of
        (Ok k, Ok v) \<Rightarrow> [Put (blake2 k) v] | _ \<Rightarrow> [])"
| "host_writes blake2 (CallGet kp ks vp vs) c = []"
| "host_writes blake2 (CallRemove kp ks) c =
     (case read_vec c kp ks of Ok k \<Rightarrow> [Del (blake2 k)] | _ \<Rightarrow> [])"

section \<open>Quotas\<close>

lemma update_with_check_Ok [store_simps]:
  "update_with_check val max_val w = Ok n \<longleftrightarrow> n = val + 1 \<and> val + 1 \<le> max_val"
  by (auto simp: update_with_check_def Let_def)

lemma update_with_check_Err [store_simps]:
  "update_with_check val max_val w = Err t \<longleftrightarrow>
     max_val < val + 1 \<and> t = (if w then ''ExceededWrites'' else ''ExceededReads'')"
  by (auto simp: update_with_check_def Let_def)

lemma update_with_check_no_Panic [simp]: "update_with_check val max_val w \<noteq> Panic"
  by (simp add: update_with_check_def Let_def)

lemma update_with_check_neq_Panic [simp]: "update_with_check val max_val w = Panic \<longleftrightarrow> False"
  by simp

text \<open>Below the wrap-around point the check is the comparison it is meant to be.\<close>

lemma update_with_check_exact:
  assumes "unat val < 4294967295"
  shows "update_with_check val max_val w =
    (if unat val < unat max_val then Ok (val + 1)
     else Err (if w then ''ExceededWrites'' else ''ExceededReads''))"
proof -
  have "unat (val + 1) = unat val + 1"
    using assms by (simp add: unat_word_ariths)
  then have "val + 1 \<le> max_val \<longleftrightarrow> unat val < unat max_val"
    by (simp add: word_le_nat_alt Suc_le_eq)
  then show ?thesis by (simp add: update_with_check_def Let_def)
qed

section \<open>Memory\<close>

lemma read_vec_memory:
  assumes "exports c ''memory'' = Some (Memory mem)"
  shows "read_vec c p n =
    (if unat p + unat n \<le> length mem then Ok (window (unat p) (unat n) mem)
     else Err ''Impossible reading wasm memory'')"
  using assms by (simp add: read_vec_def get_from_to)

lemma read_vec_no_Panic [simp]: "read_vec c p n \<noteq> Panic"
  by (auto simp: read_vec_def split: option.splits extern.splits)

lemma write_vec_data: "write_vec C v p n c = (r, c') \<Longrightarrow> store_data c' = store_data c"
  by (auto simp: write_vec_def split: option.splits extern.splits if_splits)

lemma write_vec_exports:
  "write_vec C v p n c = (r, c') \<Longrightarrow> x \<noteq> ''memory'' \<Longrightarrow> exports c' x = exports c x"
  by (auto simp: write_vec_def split: option.splits extern.splits if_splits)

text \<open>What \<open>write_vec\<close> does with a value that fits the declared size, whatever codec is linked.\<close>

context scale_codec
begin

lemma write_vec_result:
  assumes "exports c ''memory'' = Some (Memory mem)" and "length v \<le> unat n"
  shows "write_vec C v p n c =
    (if length v < 64 \<and> unat p + length v + 1 \<le> length mem
     then (Ok (), c\<lparr>exports := (exports c)(''memory'' \<mapsto>
             Memory (overwrite (unat p) (enc_bytes C v) mem))\<rparr>)
     else (Panic, c))"
proof -
  have "length v < 4294967296"
    using assms(2) unat_u32_less [of n] by linarith
  then have "length (enc_bytes C v) = length v + 1 \<longleftrightarrow> length v < 64"
    using bytes_length_Suc_iff by simp
  with assms show ?thesis by (auto simp: write_vec_def)
qed

end

section \<open>The contract of the host functions\<close>

text \<open>
  What the loop that runs a guest relies on, whatever the three functions are: a call that returns
  normally changes the storage by its abstract writes and counts itself against its quota, a call
  that fails leaves the storage alone, and no call changes a limit.
\<close>

locale host_interface =
  fixes host :: "host_call \<Rightarrow> caller \<Rightarrow> (unit, trap) outcome \<times> caller"
    and writes :: "host_call \<Rightarrow> caller \<Rightarrow> (bytes, bytes) kv_op list"
  assumes keeps_limits: "host hc c = (r, c') \<Longrightarrow>
      max_n_read (store_data c') = max_n_read (store_data c) \<and>
      max_n_write (store_data c') = max_n_write (store_data c)"
    and ok_storage: "host hc c = (Ok (), c') \<Longrightarrow>
      storage (store_data c') = fold btree_apply (writes hc c) (storage (store_data c))"
    and fail_storage: "host hc c = (r, c') \<Longrightarrow> r \<noteq> Ok () \<Longrightarrow>
      storage (store_data c') = storage (store_data c)"
    and ok_reads: "host hc c = (Ok (), c') \<Longrightarrow>
      curr_n_read (store_data c') = curr_n_read (store_data c) + (if is_read hc then 1 else 0)"
    and ok_writes: "host hc c = (Ok (), c') \<Longrightarrow>
      curr_n_write (store_data c') = curr_n_write (store_data c) + (if is_read hc then 0 else 1)"
    and ok_read_quota: "host hc c = (Ok (), c') \<Longrightarrow> is_read hc \<Longrightarrow>
      curr_n_read (store_data c') \<le> max_n_read (store_data c)"
    and ok_write_quota: "host hc c = (Ok (), c') \<Longrightarrow> \<not> is_read hc \<Longrightarrow>
      curr_n_write (store_data c') \<le> max_n_write (store_data c)"
begin

end

lemma env_set_cases:
  "env_set blake2 kp ks vp vs c = (r, c') \<Longrightarrow>
   (\<exists>k v. read_vec c kp ks = Ok k \<and> read_vec c vp vs = Ok v \<and>
      kontracts_set blake2 k v c = (r, c')) \<or>
   (r \<noteq> Ok () \<and> c' = c)"
  by (cases "read_vec c kp ks"; cases "read_vec c vp vs") (auto simp: env_set_def and_then_def)

lemma env_remove_cases:
  "env_remove blake2 kp ks c = (r, c') \<Longrightarrow>
   (\<exists>k. read_vec c kp ks = Ok k \<and> kontracts_remove blake2 k c = (r, c')) \<or>
   (r \<noteq> Ok () \<and> c' = c)"
  by (cases "read_vec c kp ks") (auto simp: env_remove_def and_then_def)

lemma env_get_cases:
  "env_get blake2 C kp ks vp vs c = (r, c') \<Longrightarrow>
   (\<exists>k v c1. read_vec c kp ks = Ok k \<and> kontracts_get blake2 k c = (Ok v, c1) \<and>
      write_vec C (case v of Some v \<Rightarrow> v | None \<Rightarrow> []) vp vs c1 = (r, c')) \<or>
   (r \<noteq> Ok () \<and> c' = c)"
  by (cases "read_vec c kp ks")
     (auto simp: env_get_def and_then_def kontracts_get_def Let_def
       split: prod.splits outcome.splits)

lemma kontracts_set_result:
  "kontracts_set blake2 k v c = (r, c') \<Longrightarrow>
   (if curr_n_write (store_data c) + 1 \<le> max_n_write (store_data c)
    then r = Ok () \<and> c' = c\<lparr>store_data := (store_data c)
      \<lparr>curr_n_write := curr_n_write (store_data c) + 1,
       storage := btree_insert (blake2 k) v (storage (store_data c))\<rparr>\<rparr>
    else r = Err ''ExceededWrites'' \<and> c' = c)"
  by (auto simp: kontracts_set_def update_with_check_def Let_def)

lemma kontracts_remove_result:
  "kontracts_remove blake2 k c = (r, c') \<Longrightarrow>
   (if curr_n_write (store_data c) + 1 \<le> max_n_write (store_data c)
    then r = Ok () \<and> c' = c\<lparr>store_data := (store_data c)
      \<lparr>curr_n_write := curr_n_write (store_data c) + 1,
       storage := btree_remove (blake2 k) (storage (store_data c))\<rparr>\<rparr>
    else r = Err ''ExceededWrites'' \<and> c' = c)"
  by (auto simp: kontracts_remove_def update_with_check_def Let_def)

lemma kontracts_get_result:
  "kontracts_get blake2 k c = (r, c') \<Longrightarrow>
   (if curr_n_read (store_data c) + 1 \<le> max_n_read (store_data c)
    then r = Ok (btree_get (storage (store_data c)) (blake2 k)) \<and>
      c' = c\<lparr>store_data := (store_data c)\<lparr>curr_n_read := curr_n_read (store_data c) + 1\<rparr>\<rparr>
    else r = Err ''ExceededReads'' \<and> c' = c)"
  by (auto simp: kontracts_get_def update_with_check_def Let_def)

lemmas env_results = kontracts_set_result kontracts_get_result kontracts_remove_result
lemmas env_cases = env_set_cases env_get_cases env_remove_cases

interpretation kontracts: host_interface "host_dispatch blake2 C" "host_writes blake2"
  for blake2 C
proof
  fix hc c r c'
  assume "host_dispatch blake2 C hc c = (r, c')"
  then show "max_n_read (store_data c') = max_n_read (store_data c) \<and>
      max_n_write (store_data c') = max_n_write (store_data c)"
    by (cases hc) (auto dest!: env_cases env_results write_vec_data split: if_splits)
next
  fix hc c r c'
  assume "host_dispatch blake2 C hc c = (r, c')" and "r \<noteq> Ok ()"
  then show "storage (store_data c') = storage (store_data c)"
    by (cases hc) (auto dest!: env_cases env_results write_vec_data split: if_splits)
next
  fix hc c c'
  assume a: "host_dispatch blake2 C hc c = (Ok (), c')"
  show "storage (store_data c') = fold btree_apply (host_writes blake2 hc c) (storage (store_data c))"
    using a by (cases hc) (auto dest!: env_cases env_results write_vec_data split: if_splits)
  show "curr_n_read (store_data c') = curr_n_read (store_data c) + (if is_read hc then 1 else 0)"
    using a by (cases hc) (auto dest!: env_cases env_results write_vec_data split: if_splits)
  show "curr_n_write (store_data c') = curr_n_write (store_data c) + (if is_read hc then 0 else 1)"
    using a by (cases hc) (auto dest!: env_cases env_results write_vec_data split: if_splits)
  show "curr_n_read (store_data c') \<le> max_n_read (store_data c)" if "is_read hc"
    using a that by (cases hc) (auto dest!: env_cases env_results write_vec_data split: if_splits)
  show "curr_n_write (store_data c') \<le> max_n_write (store_data c)" if "\<not> is_read hc"
    using a that by (cases hc) (auto dest!: env_cases env_results write_vec_data split: if_splits)
qed

section \<open>Properties\<close>

text \<open>
  C23. Read your writes: after a \<open>set\<close> that returned, a \<open>get\<close> within its quota finds the new value
  under every key that hashes like the one written, finds under any other key what was there
  before, and leaves the storage as the \<open>set\<close> left it.
\<close>

theorem set_then_get:
  assumes "btree_wf (storage (store_data c))"
    and "kontracts_set blake2 k v c = (Ok (), c1)"
    and "kontracts_get blake2 k' c1 = (Ok x, c2)"
  shows "x = (if blake2 k' = blake2 k then Some v
              else btree_get (storage (store_data c)) (blake2 k')) \<and>
         storage (store_data c2) = storage (store_data c1)"
  using assms by (auto dest!: env_results split: if_splits)

definition sample_caller :: caller where
  "sample_caller = \<lparr>store_data = \<lparr>max_n_read = 1, max_n_write = 2, curr_n_read = 0,
     curr_n_write = 0, storage = [([7], [8])]\<rparr>,
     exports = [''memory'' \<mapsto> Memory [1, 2, 3, 4, 0, 0, 0, 0]]\<rparr>"

theorem set_then_get_witness:
  "snd (kontracts_set id [5] [6] sample_caller) =
     sample_caller\<lparr>store_data := (store_data sample_caller)
       \<lparr>curr_n_write := 1, storage := [([5], [6]), ([7], [8])]\<rparr>\<rparr> \<and>
   fst (kontracts_get id [7] (snd (kontracts_set id [5] [6] sample_caller))) = Ok (Some [8])"
proof -
  let ?c1 = "snd (kontracts_set id [5] [6] sample_caller)"
  have set: "kontracts_set id [5] [6] sample_caller = (Ok (), ?c1)"
    by (simp add: kontracts_set_def sample_caller_def update_with_check_def)
  obtain x c2 where get: "kontracts_get id [7] ?c1 = (Ok x, c2)"
    by (simp add: kontracts_get_def kontracts_set_def sample_caller_def update_with_check_def)
  have wf: "btree_wf (storage (store_data sample_caller))"
    by (simp add: sample_caller_def)
  from set_then_get [OF wf set get] have "x = Some [8]"
    by (simp add: sample_caller_def)
  with get show ?thesis
    by (simp add: kontracts_set_def sample_caller_def update_with_check_def)
qed

text \<open>
  C25. \<open>read_vec\<close> never panics and never reads outside the guest's memory: it returns bytes exactly
  when the guest exports a memory that holds the whole range, and then the bytes at the pointer;
  otherwise it traps.
\<close>

theorem read_vec_safe:
  "read_vec c p n \<noteq> Panic \<and>
   (read_vec c p n = Ok bs \<longleftrightarrow>
     (\<exists>mem. exports c ''memory'' = Some (Memory mem) \<and> unat p + unat n \<le> length mem \<and>
        length bs = unat n \<and> (\<forall>i < unat n. bs ! i = mem ! (unat p + i)))) \<and>
   ((\<exists>t. read_vec c p n = Err t) \<longleftrightarrow>
     \<not> (\<exists>mem. exports c ''memory'' = Some (Memory mem) \<and> unat p + unat n \<le> length mem))"
proof (cases "\<exists>mem. exports c ''memory'' = Some (Memory mem)")
  case True
  then obtain mem where mem: "exports c ''memory'' = Some (Memory mem)" by blast
  have "bs = window (unat p) (unat n) mem \<longleftrightarrow>
      length bs = unat n \<and> (\<forall>i < unat n. bs ! i = mem ! (unat p + i))"
    if "unat p + unat n \<le> length mem"
    using that by (auto simp: list_eq_iff_nth_eq window_def)
  with mem show ?thesis by (auto simp: read_vec_memory [OF mem])
next
  case False
  then show ?thesis by (auto simp: read_vec_def split: option.splits extern.splits)
qed

theorem read_vec_safe_witness:
  "read_vec sample_caller 1 2 = Ok [2, 3] \<and> (\<exists>t. read_vec sample_caller 7 2 = Err t)"
proof -
  have mem: "exports sample_caller ''memory'' = Some (Memory [1, 2, 3, 4, 0, 0, 0, 0])"
    by (simp add: sample_caller_def)
  have "\<forall>i < 2. [2, 3 :: u8] ! i = [1, 2, 3, 4, 0, 0, 0, 0] ! (1 + i)"
    by (simp add: less_Suc_eq numeral_2_eq_2)
  with read_vec_safe [of sample_caller 1 2 "[2, 3]"] read_vec_safe [of sample_caller 7 2] mem
  show ?thesis by auto
qed

text \<open>
  C21. What \<open>write_vec\<close> does, in every case: without a memory, or with a value longer than the declared
  size, it traps and changes nothing; a value that fits the declared size is written, encoded, exactly
  when it is shorter than 64 bytes and the memory has one byte more than the value at the pointer;
  every other value that fits the declared size panics the host.
\<close>

theorem write_vec_outcome:
  assumes "scale_codec C"
  shows "write_vec C v p n c =
    (case exports c ''memory'' of
       Some (Memory mem) \<Rightarrow>
         if unat n < length v then (Err ''Impossible write data in wasm memory'', c)
         else if length v < 64 \<and> unat p + length v + 1 \<le> length mem
         then (Ok (), c\<lparr>exports := (exports c)(''memory'' \<mapsto>
                 Memory (overwrite (unat p) (enc_bytes C v) mem))\<rparr>)
         else (Panic, c)
     | _ \<Rightarrow> (Err ''Impossible write data in wasm memory'', c))"
proof (cases "\<exists>mem. exports c ''memory'' = Some (Memory mem) \<and> length v \<le> unat n")
  case True
  then obtain mem where mem: "exports c ''memory'' = Some (Memory mem)" "length v \<le> unat n" by blast
  with scale_codec.write_vec_result [OF assms mem] show ?thesis by simp
qed (auto simp: write_vec_def split: option.split extern.split)

theorem write_vec_outcome_witness:
  "fst (write_vec scale_ref [9, 9] 1 2 sample_caller) = Ok () \<and>
   fst (write_vec scale_ref (replicate 64 9) 1 64 sample_caller) = Panic \<and>
   fst (write_vec scale_ref (replicate 101 9) 1 100 sample_caller) =
     Err ''Impossible write data in wasm memory''"
  unfolding write_vec_outcome [OF scale_ref.scale_codec_axioms] by (simp add: sample_caller_def)

text \<open>
  C22. \<open>write_vec\<close> writes past the buffer it was given: when a value fills the guest's buffer (its
  length is the declared maximum size) and the call returns, the byte after the buffer holds the
  last byte of the value.
\<close>

theorem write_vec_overruns_buffer:
  assumes "scale_codec C"
    and "exports c ''memory'' = Some (Memory mem)"
    and "length v = unat n" and "v \<noteq> []"
    and "write_vec C v p n c = (Ok (), c')"
  shows "\<exists>mem'. exports c' ''memory'' = Some (Memory mem') \<and>
    unat p + unat n < length mem' \<and> mem' ! (unat p + unat n) = last v"
proof -
  have len: "length v < 64" "unat p + length v + 1 \<le> length mem"
    and c': "c' = c\<lparr>exports := (exports c)(''memory'' \<mapsto>
      Memory (overwrite (unat p) (enc_bytes C v) mem))\<rparr>"
    using scale_codec.write_vec_result [OF assms(1,2), of v n p] assms(3,5) by (auto split: if_splits)
  have enc: "enc_bytes C v = enc_compact C (length v) @ v"
    using len scale_codec.bytes_format [OF assms(1)] by simp
  have enc_len: "length (enc_compact C (length v)) = 1"
    using len scale_codec.compact_length [OF assms(1), of "length v"]
    by (simp add: compact_len_def)
  have "overwrite (unat p) (enc_bytes C v) mem ! (unat p + length v) = v ! (length v - 1)"
    using len enc_len assms(4)
    by (simp add: overwrite_def enc nth_append min_def)
  with assms(3,4) len enc enc_len show ?thesis
    by (simp add: c' last_conv_nth)
qed

theorem write_vec_overruns_buffer_witness:
  "\<exists>mem'. exports (snd (write_vec scale_ref [9, 8] 1 2 sample_caller)) ''memory'' =
      Some (Memory mem') \<and> mem' ! 3 = 8"
proof -
  have mem: "exports sample_caller ''memory'' = Some (Memory [1, 2, 3, 4, 0, 0, 0, 0])"
    by (simp add: sample_caller_def)
  have "write_vec scale_ref [9, 8] 1 2 sample_caller =
      (Ok (), snd (write_vec scale_ref [9, 8] 1 2 sample_caller))"
    by (simp add: write_vec_def mem ref_enc_bytes_def length_ref_enc_compact compact_len_def)
  from write_vec_overruns_buffer [OF scale_ref.scale_codec_axioms mem _ _ this] show ?thesis
    by (auto simp: numeral_3_eq_3)
qed

text \<open>
  C20. The whole host call \<open>get\<close>: within its quota, with the key and the buffer inside the guest's
  memory and a stored value shorter than 64 bytes that fits the declared size, the call returns,
  decoding the guest's memory at the buffer gives the stored value (the empty vector for an absent
  key), every byte outside the written range is as before and the storage is unchanged.
\<close>

theorem env_get_delivers:
  assumes "scale_codec C"
    and "exports c ''memory'' = Some (Memory mem)"
    and "read_vec c kp ks = Ok key"
    and "curr_n_read (store_data c) + 1 \<le> max_n_read (store_data c)"
    and "v = (case btree_get (storage (store_data c)) (blake2 key) of Some v \<Rightarrow> v | None \<Rightarrow> [])"
    and "length v < 64" and "length v \<le> unat n" and "unat vp + length v + 1 \<le> length mem"
  shows "\<exists>c' mem'. env_get blake2 C kp ks vp n c = (Ok (), c') \<and>
    exports c' ''memory'' = Some (Memory mem') \<and> length mem' = length mem \<and>
    dec_bytes C (drop (unat vp) mem') = Some (v, drop (unat vp + length v + 1) mem) \<and>
    (\<forall>i < length mem. i < unat vp \<or> unat vp + length v + 1 \<le> i \<longrightarrow> mem' ! i = mem ! i) \<and>
    storage (store_data c') = storage (store_data c)"
proof -
  obtain c1 where get: "kontracts_get blake2 key c =
      (Ok (btree_get (storage (store_data c)) (blake2 key)), c1)"
    and c1: "exports c1 = exports c" "storage (store_data c1) = storage (store_data c)"
    using assms(4) by (simp add: kontracts_get_def update_with_check_def Let_def)
  let ?mem' = "overwrite (unat vp) (enc_bytes C v) mem"
  let ?c' = "c1\<lparr>exports := (exports c1)(''memory'' \<mapsto> Memory ?mem')\<rparr>"
  have w: "write_vec C v vp n c1 = (Ok (), ?c')"
    using scale_codec.write_vec_result [OF assms(1), of c1 mem v n vp] assms(2,6,7,8) c1 by simp
  have len: "length (enc_bytes C v) = length v + 1"
    using scale_codec.bytes_length_Suc_iff [OF assms(1), of v] assms(6) by simp
  have "env_get blake2 C kp ks vp n c = (Ok (), ?c')"
    using assms(3,5) w by (simp add: env_get_def and_then_def get)
  moreover have "dec_bytes C (drop (unat vp) ?mem') = Some (v, drop (unat vp + length v + 1) mem)"
    using assms(6,8) len scale_codec.bytes_roundtrip [OF assms(1), of v]
    by (simp add: overwrite_def)
  moreover have "\<forall>i < length mem. i < unat vp \<or> unat vp + length v + 1 \<le> i \<longrightarrow>
      ?mem' ! i = mem ! i"
    using assms(8) len by (auto intro!: overwrite_nth_outside)
  ultimately show ?thesis
    using assms(8) len c1 by simp
qed

theorem env_get_delivers_witness:
  "fst (env_get (\<lambda>k. [7]) scale_ref 0 2 4 3 sample_caller) = Ok () \<and>
   (\<exists>mem'. exports (snd (env_get (\<lambda>k. [7]) scale_ref 0 2 4 3 sample_caller)) ''memory'' =
      Some (Memory mem') \<and> dec_bytes scale_ref (drop 4 mem') = Some ([8], [0, 0]))"
proof -
  have mem: "exports sample_caller ''memory'' = Some (Memory [1, 2, 3, 4, 0, 0, 0, 0])"
    and key: "read_vec sample_caller 0 2 = Ok [1, 2]"
    by (simp_all add: sample_caller_def read_vec_def get_from_def get_to_def)
  have quota: "curr_n_read (store_data sample_caller) + 1 \<le> max_n_read (store_data sample_caller)"
    and stored: "[8] = (case btree_get (storage (store_data sample_caller)) ((\<lambda>k. [7]) [1, 2]) of
      Some v \<Rightarrow> v | None \<Rightarrow> [])"
    by (simp_all add: sample_caller_def)
  have "drop (unat (4 :: u32) + length [8 :: u8] + 1) [1, 2, 3, 4, 0, 0, 0, 0 :: u8] = [0, 0]"
    by simp
  with env_get_delivers [OF scale_ref.scale_codec_axioms mem key quota stored, of 3 4]
  show ?thesis by auto
qed

text \<open>
  C24. The whole host calls \<open>set\<close> and \<open>remove\<close>: they never panic; when \<open>set\<close> returns, the storage is
  the old one with the value bytes of the guest's memory under the hash of its key bytes, when
  \<open>remove\<close> returns that hash is absent, and when either traps nothing has changed.
\<close>

theorem env_set_and_remove:
  assumes "btree_wf (storage (store_data c))"
  shows "(env_set blake2 kp ks vp vs c = (r, c') \<longrightarrow>
      r \<noteq> Panic \<and> (r \<noteq> Ok () \<longrightarrow> c' = c) \<and>
      (r = Ok () \<longrightarrow> (\<exists>key value. read_vec c kp ks = Ok key \<and> read_vec c vp vs = Ok value \<and>
         btree_get (storage (store_data c')) =
           (btree_get (storage (store_data c)))(blake2 key \<mapsto> value)))) \<and>
    (env_remove blake2 kp ks c = (r, c') \<longrightarrow>
      r \<noteq> Panic \<and> (r \<noteq> Ok () \<longrightarrow> c' = c) \<and>
      (r = Ok () \<longrightarrow> (\<exists>key. read_vec c kp ks = Ok key \<and>
         btree_get (storage (store_data c')) =
           (btree_get (storage (store_data c)))(blake2 key := None))))"
    (is "(?set \<longrightarrow> ?after_set) \<and> (?remove \<longrightarrow> ?after_remove)")
proof
  show "?set \<longrightarrow> ?after_set"
    using assms
    by (cases "read_vec c kp ks"; cases "read_vec c vp vs")
       (auto simp: env_set_def and_then_def dest!: env_results split: if_splits)
  show "?remove \<longrightarrow> ?after_remove"
    using assms
    by (cases "read_vec c kp ks")
       (auto simp: env_remove_def and_then_def dest!: env_results split: if_splits)
qed

theorem env_set_and_remove_witness:
  "fst (env_set id 0 2 2 1 sample_caller) = Ok () \<and>
   btree_get (storage (store_data (snd (env_set id 0 2 2 1 sample_caller)))) [1, 2] = Some [3]"
proof -
  have wf: "btree_wf (storage (store_data sample_caller))"
    by (simp add: sample_caller_def)
  let ?run = "env_set id 0 2 2 1 sample_caller"
  have ok: "fst ?run = Ok ()"
    by (simp add: env_set_def and_then_def read_vec_def get_from_def get_to_def sample_caller_def
        kontracts_set_def update_with_check_def)
  have key: "read_vec sample_caller 0 2 = Ok [1, 2]" and val: "read_vec sample_caller 2 1 = Ok [3]"
    by (simp_all add: sample_caller_def read_vec_def get_from_def get_to_def)
  have "?run = (fst ?run, snd ?run)" by simp
  with env_set_and_remove [OF wf, of id 0 2 2 1 "fst ?run" "snd ?run"] ok key val
  show ?thesis by auto
qed

end
