(* ===== verification/Executor.thy ===== *)
theory Executor
  imports Host_Functions
begin

text \<open>
  \<open>KontractsExecutor::execute_code\<close> of \<open>kontracts-executor/src/lib.rs\<close>: build an engine, compile the
  code, put the decoded storage and the two quotas into a wasmtime store, link the three host
  functions, instantiate, call \<open>main\<close> and return the encoded storage, with every \<open>map_err\<close> of the
  source as a branch. wasmtime itself is the argument \<open>W\<close>: a guest is a state that runs until it
  returns, traps or calls a host function (\<open>resume\<close>), spending fuel. \<open>drive\<close> is the loop that runs
  a guest with the host functions in place; it is a \<open>partial_function\<close>, so that not returning is
  a value, and \<open>guest_trace\<close> is the same run as a step relation that records the host calls.
\<close>

section \<open>Errors\<close>

datatype execution_error =
    IncorrecBinary
  | ImpossibleCreateInstance
  | MainEntryPointNotDefined
  | WasmPanic
  | ImpossibleAddFuel
  | ImpossibleCreateEngine
  | ImpossibleCreateHostFunction
  | ImpossibleDecodingKontractStorage
  | UnexpectedBehavoiur
  | OutOfFuel
  | OutOfReads
  | OutOfWrites

definition trap_error :: "trap \<Rightarrow> execution_error" where
  "trap_error reason =
     (if reason = ''all fuel consumed by WebAssembly'' then OutOfFuel
      else if reason = ''ExceededReads'' then OutOfReads
      else if reason = ''ExceededWrites'' then OutOfWrites
      else WasmPanic)"

section \<open>The wasmtime interface\<close>

text \<open>Why a guest stops running: it returned, it trapped, or it calls a host function.\<close>

datatype 'g event = Returned 'g | Trapped trap | HostCall host_call 'g

text \<open>
  \<open>link_module\<close> resolves the imports of a compiled module and gives its exports, its first guest
  state and whether that state is a start function that instantiation has to run; \<open>enter_main\<close> is
  \<open>get_typed_func\<close> for \<open>main\<close> with no argument and no result.
\<close>

record ('m, 'g) wasmtime =
  engine_new :: bool
  module_new :: "bytes \<Rightarrow> 'm option"
  add_fuel :: "u64 \<Rightarrow> bool"
  func_wrap :: "string \<Rightarrow> string \<Rightarrow> bool"
  link_module :: "'m \<Rightarrow> ((string \<rightharpoonup> extern) \<times> 'g \<times> bool) option"
  enter_main :: "'g \<Rightarrow> 'g option"
  resume :: "'g \<Rightarrow> (string \<rightharpoonup> extern) \<Rightarrow> nat \<Rightarrow> 'g event \<times> (string \<rightharpoonup> extern) \<times> nat"

text \<open>A running guest: its state, the caller record of its store, the fuel left.\<close>

type_synonym 'g machine = "'g \<times> caller \<times> nat"
type_synonym host = "host_call \<Rightarrow> caller \<Rightarrow> (unit, trap) outcome \<times> caller"

partial_function (option) drive ::
  "('m, 'g) wasmtime \<Rightarrow> host \<Rightarrow> 'g \<Rightarrow> caller \<Rightarrow> nat \<Rightarrow> (('g, trap) outcome \<times> caller \<times> nat) option"
  where
  "drive W host g c fuel =
     (case resume W g (exports c) fuel of
        (Returned g', ex, fuel') \<Rightarrow> Some (Ok g', c\<lparr>exports := ex\<rparr>, fuel')
      | (Trapped reason, ex, fuel') \<Rightarrow> Some (Err reason, c\<lparr>exports := ex\<rparr>, fuel')
      | (HostCall hc g', ex, fuel') \<Rightarrow>
          (case host hc (c\<lparr>exports := ex\<rparr>) of
             (Ok _, c') \<Rightarrow> drive W host g' c' fuel'
           | (Err reason, c') \<Rightarrow> Some (Err reason, c', fuel')
           | (Panic, c') \<Rightarrow> Some (Panic, c', fuel')))"

declare drive.simps [code]

section \<open>execute_code\<close>

definition new_store :: "kv_storage \<Rightarrow> u32 \<Rightarrow> u32 \<Rightarrow> kontract_store" where
  "new_store st max_read max_write =
     \<lparr>max_n_read = max_read, max_n_write = max_write, curr_n_read = 0, curr_n_write = 0,
      storage = st\<rparr>"

definition call_main ::
  "('m, 'g) wasmtime \<Rightarrow> host \<Rightarrow> scale \<Rightarrow> 'g \<Rightarrow> caller \<Rightarrow> nat \<Rightarrow> (bytes, execution_error) outcome option"
  where
  "call_main W host C g c fuel =
     (case enter_main W g of
        None \<Rightarrow> Some (Err MainEntryPointNotDefined)
      | Some g' \<Rightarrow>
          (case drive W host g' c fuel of
             None \<Rightarrow> None
           | Some (Ok _, c', _) \<Rightarrow>
               (case enc_map C (storage (store_data c')) of
                  Some raw' \<Rightarrow> Some (Ok raw')
                | None \<Rightarrow> Some Panic)
           | Some (Err reason, _, _) \<Rightarrow> Some (Err (trap_error reason))
           | Some (Panic, _, _) \<Rightarrow> Some Panic))"

definition instantiate_and_call ::
  "('m, 'g) wasmtime \<Rightarrow> host \<Rightarrow> scale \<Rightarrow> 'm \<Rightarrow> kontract_store \<Rightarrow> nat \<Rightarrow>
   (bytes, execution_error) outcome option" where
  "instantiate_and_call W host C m d fuel =
     (case link_module W m of
        None \<Rightarrow> Some (Err ImpossibleCreateInstance)
      | Some (ex, g, starts) \<Rightarrow>
          let c = \<lparr>store_data = d, exports = ex\<rparr> in
          if starts then
            (case drive W host g c fuel of
               None \<Rightarrow> None
             | Some (Ok g', c', fuel') \<Rightarrow> call_main W host C g' c' fuel'
             | Some (Err _, _, _) \<Rightarrow> Some (Err ImpossibleCreateInstance)
             | Some (Panic, _, _) \<Rightarrow> Some Panic)
          else call_main W host C g c fuel)"

definition execute_code ::
  "('m, 'g) wasmtime \<Rightarrow> scale \<Rightarrow> (bytes \<Rightarrow> bytes) \<Rightarrow>
   bytes \<Rightarrow> bytes \<Rightarrow> u32 \<Rightarrow> u32 \<Rightarrow> u32 \<Rightarrow> (bytes, execution_error) outcome option" where
  "execute_code W C blake2 code raw fuel max_read max_write =
     (if \<not> engine_new W then Some (Err ImpossibleCreateEngine)
      else case module_new W code of
        None \<Rightarrow> Some (Err IncorrecBinary)
      | Some m \<Rightarrow>
          (case dec_map C raw of
             None \<Rightarrow> Some (Err ImpossibleDecodingKontractStorage)
           | Some st \<Rightarrow>
               if \<not> add_fuel W (ucast fuel) then Some (Err ImpossibleAddFuel)
               else if \<not> func_wrap W ''env'' ''set'' then
                 Some (Err ImpossibleDecodingKontractStorage)
               else if \<not> func_wrap W ''env'' ''get'' then
                 Some (Err ImpossibleDecodingKontractStorage)
               else if \<not> func_wrap W ''env'' ''remove'' then
                 Some (Err ImpossibleDecodingKontractStorage)
               else instantiate_and_call W (host_dispatch blake2 C) C m
                      (new_store st max_read max_write) (unat fuel)))"

section \<open>Runs as a step relation\<close>

text \<open>
  One step is a host call that returned; the trace records each call with the caller record the
  host function received. \<open>guest_stop\<close> says how a run ends in a state with no such step.
\<close>

inductive guest_trace ::
  "('m, 'g) wasmtime \<Rightarrow> host \<Rightarrow> 'g machine \<Rightarrow> (host_call \<times> caller) list \<Rightarrow> 'g machine \<Rightarrow> bool"
  for W host where
  trace_nil: "guest_trace W host s [] s"
| trace_call: "resume W g (exports c) fuel = (HostCall hc g', ex, fuel') \<Longrightarrow>
    host hc (c\<lparr>exports := ex\<rparr>) = (Ok (), c') \<Longrightarrow>
    guest_trace W host (g', c', fuel') tr s \<Longrightarrow>
    guest_trace W host (g, c, fuel) ((hc, c\<lparr>exports := ex\<rparr>) # tr) s"

inductive guest_stop ::
  "('m, 'g) wasmtime \<Rightarrow> host \<Rightarrow> 'g machine \<Rightarrow> ('g, trap) outcome \<times> caller \<times> nat \<Rightarrow> bool"
  for W host where
  stop_return: "resume W g (exports c) fuel = (Returned g', ex, fuel') \<Longrightarrow>
    guest_stop W host (g, c, fuel) (Ok g', c\<lparr>exports := ex\<rparr>, fuel')"
| stop_trap: "resume W g (exports c) fuel = (Trapped reason, ex, fuel') \<Longrightarrow>
    guest_stop W host (g, c, fuel) (Err reason, c\<lparr>exports := ex\<rparr>, fuel')"
| stop_host_trap: "resume W g (exports c) fuel = (HostCall hc g', ex, fuel') \<Longrightarrow>
    host hc (c\<lparr>exports := ex\<rparr>) = (Err reason, c') \<Longrightarrow>
    guest_stop W host (g, c, fuel) (Err reason, c', fuel')"
| stop_host_panic: "resume W g (exports c) fuel = (HostCall hc g', ex, fuel') \<Longrightarrow>
    host hc (c\<lparr>exports := ex\<rparr>) = (Panic, c') \<Longrightarrow>
    guest_stop W host (g, c, fuel) (Panic, c', fuel')"

inductive_cases trace_nilE: "guest_trace W host s [] t"
inductive_cases trace_callE: "guest_trace W host s (e # tr) t"
inductive_cases stop_okE: "guest_stop W host s (Ok g', c', fuel')"
inductive_simps guest_stop_simps: "guest_stop W host (g, c, fuel) r"

text \<open>\<open>drive\<close> computes exactly the runs of the relation.\<close>

lemma drive_unfold:
  "drive W host g c fuel = Some r \<longleftrightarrow>
     guest_stop W host (g, c, fuel) r \<or>
     (\<exists>hc g' ex fuel' c'. resume W g (exports c) fuel = (HostCall hc g', ex, fuel') \<and>
        host hc (c\<lparr>exports := ex\<rparr>) = (Ok (), c') \<and> drive W host g' c' fuel' = Some r)"
  by (subst drive.simps)
     (auto simp: guest_stop_simps split: event.splits prod.splits outcome.splits)

lemma drive_trace:
  assumes "drive W host g c fuel = Some r"
  shows "\<exists>tr s. guest_trace W host (g, c, fuel) tr s \<and> guest_stop W host s r"
proof (rule drive.raw_induct [where P = "\<lambda>W host g c fuel r.
    \<exists>tr s. guest_trace W host (g, c, fuel) tr s \<and> guest_stop W host s r", OF _ assms])
  fix f W host g c fuel r
  assume IH: "\<And>W host g c fuel r. f W host g c fuel = Some r \<Longrightarrow>
      \<exists>tr s. guest_trace W host (g, c, fuel) tr s \<and> guest_stop W host s r"
    and eq: "(case resume W g (exports c) fuel of
        (Returned g', ex, fuel') \<Rightarrow> Some (Ok g', c\<lparr>exports := ex\<rparr>, fuel')
      | (Trapped reason, ex, fuel') \<Rightarrow> Some (Err reason, c\<lparr>exports := ex\<rparr>, fuel')
      | (HostCall hc g', ex, fuel') \<Rightarrow>
          (case host hc (c\<lparr>exports := ex\<rparr>) of
             (Ok _, c') \<Rightarrow> f W host g' c' fuel'
           | (Err reason, c') \<Rightarrow> Some (Err reason, c', fuel')
           | (Panic, c') \<Rightarrow> Some (Panic, c', fuel'))) = Some r"
  show "\<exists>tr s. guest_trace W host (g, c, fuel) tr s \<and> guest_stop W host s r"
  proof (cases "\<exists>hc g' ex fuel' c'. resume W g (exports c) fuel = (HostCall hc g', ex, fuel') \<and>
        host hc (c\<lparr>exports := ex\<rparr>) = (Ok (), c')")
    case True
    with eq obtain hc g' ex fuel' c' where
      step: "resume W g (exports c) fuel = (HostCall hc g', ex, fuel')"
        "host hc (c\<lparr>exports := ex\<rparr>) = (Ok (), c')" and "f W host g' c' fuel' = Some r"
      by auto
    from IH [OF this(3)] step show ?thesis by (blast intro: trace_call)
  next
    case False
    then have "guest_stop W host (g, c, fuel) r"
      using eq by (auto simp: guest_stop_simps split: event.splits prod.splits outcome.splits)
    then show ?thesis by (blast intro: trace_nil)
  qed
qed

lemma trace_drive:
  assumes "guest_trace W host s tr t" and "guest_stop W host t r"
  shows "drive W host (fst s) (fst (snd s)) (snd (snd s)) = Some r"
  using assms
proof (induction rule: guest_trace.induct)
  case (trace_nil s)
  then show ?case by (cases s) (auto intro!: drive_unfold [THEN iffD2])
next
  case (trace_call g c fuel hc g' ex fuel' c' tr s)
  from trace_call.IH [OF trace_call.prems] have "drive W host g' c' fuel' = Some r" by simp
  with trace_call.hyps(1,2) have "drive W host g c fuel = Some r"
    by (intro drive_unfold [THEN iffD2] disjI2) blast
  then show ?case by simp
qed

section \<open>Fuel\<close>

text \<open>
  What wasmtime documents of fuel: running consumes it, and a call instruction consumes at least
  one unit. It bounds the number of host calls and makes every run end.
\<close>

locale metered_engine =
  fixes W :: "('m, 'g) wasmtime"
  assumes fuel_spent: "resume W g ex fuel = (ev, ex', fuel') \<Longrightarrow> fuel' \<le> fuel"
    and call_costs: "resume W g ex fuel = (HostCall hc g', ex', fuel') \<Longrightarrow> fuel' < fuel"
begin

lemma drive_returns: "\<exists>r. drive W host g c fuel = Some r"
proof (induction fuel arbitrary: g c rule: less_induct)
  case (less fuel)
  obtain ev ex fuel' where res: "resume W g (exports c) fuel = (ev, ex, fuel')"
    by (rule prod_cases3)
  show ?case
  proof (cases ev)
    case (HostCall hc g')
    obtain out c' where host: "host hc (c\<lparr>exports := ex\<rparr>) = (out, c')"
      by (rule prod.exhaust)
    show ?thesis
    proof (cases out)
      case (Ok u)
      have "fuel' < fuel" using res HostCall by (auto intro: call_costs)
      from less.IH [OF this] obtain r where "drive W host g' c' fuel' = Some r" by blast
      with res host HostCall Ok show ?thesis
        by (intro exI [of _ r], subst drive.simps) simp
    qed (use res host HostCall in \<open>subst drive.simps, simp\<close>)+
  qed (use res in \<open>subst drive.simps, simp\<close>)+
qed

lemma trace_fuel:
  "guest_trace W host s tr t \<Longrightarrow> length tr + snd (snd t) \<le> snd (snd s)"
  by (induction rule: guest_trace.induct) (auto dest: call_costs)

lemma stop_fuel: "guest_stop W host s (r, c', fuel') \<Longrightarrow> fuel' \<le> snd (snd s)"
  by (induction rule: guest_stop.cases) (auto dest: fuel_spent)

end

section \<open>What a trace does to the store\<close>

definition n_reads :: "(host_call \<times> caller) list \<Rightarrow> nat" where
  "n_reads tr = length (filter (\<lambda>e. is_read (fst e)) tr)"

definition n_writes :: "(host_call \<times> caller) list \<Rightarrow> nat" where
  "n_writes tr = length (filter (\<lambda>e. \<not> is_read (fst e)) tr)"

definition trace_writes ::
  "(host_call \<Rightarrow> caller \<Rightarrow> (bytes, bytes) kv_op list) \<Rightarrow> (host_call \<times> caller) list \<Rightarrow>
   (bytes, bytes) kv_op list" where
  "trace_writes writes tr = concat (map (\<lambda>e. writes (fst e) (snd e)) tr)"

lemma trace_counts [simp]:
  "n_reads [] = 0" "n_writes [] = 0" "trace_writes w [] = []"
  "n_reads (e # tr) = (if is_read (fst e) then 1 else 0) + n_reads tr"
  "n_writes (e # tr) = (if is_read (fst e) then 0 else 1) + n_writes tr"
  "trace_writes w (e # tr) = w (fst e) (snd e) @ trace_writes w tr"
  "n_reads (tr @ tr') = n_reads tr + n_reads tr'"
  "n_writes (tr @ tr') = n_writes tr + n_writes tr'"
  "trace_writes w (tr @ tr') = trace_writes w tr @ trace_writes w tr'"
  by (simp_all add: n_reads_def n_writes_def trace_writes_def)

lemma n_reads_writes: "n_reads tr + n_writes tr = length tr"
  by (induction tr) auto

abbreviation m_data :: "'g machine \<Rightarrow> kontract_store" where
  "m_data s \<equiv> store_data (fst (snd s))"

context host_interface
begin

lemma trace_storage:
  "guest_trace W host s tr t \<Longrightarrow>
   storage (m_data t) = fold btree_apply (trace_writes writes tr) (storage (m_data s))"
  by (induction rule: guest_trace.induct) (auto dest: ok_storage)

lemma trace_limits:
  "guest_trace W host s tr t \<Longrightarrow>
   max_n_read (m_data t) = max_n_read (m_data s) \<and> max_n_write (m_data t) = max_n_write (m_data s)"
  by (induction rule: guest_trace.induct) (auto dest: keeps_limits)

lemma trace_reads:
  "guest_trace W host s tr t \<Longrightarrow>
   curr_n_read (m_data t) = curr_n_read (m_data s) + word_of_nat (n_reads tr)"
  by (induction rule: guest_trace.induct) (auto dest: ok_reads)

lemma trace_write_count:
  "guest_trace W host s tr t \<Longrightarrow>
   curr_n_write (m_data t) = curr_n_write (m_data s) + word_of_nat (n_writes tr)"
  by (induction rule: guest_trace.induct) (auto dest: ok_writes)

lemma trace_read_quota:
  "guest_trace W host s tr t \<Longrightarrow>
   unat (curr_n_read (m_data s)) + n_reads tr < 4294967296 \<Longrightarrow>
   curr_n_read (m_data s) \<le> max_n_read (m_data s) \<Longrightarrow>
   unat (curr_n_read (m_data s)) + n_reads tr \<le> unat (max_n_read (m_data s))"
proof (induction rule: guest_trace.induct)
  case (trace_nil s)
  then show ?case by (simp add: word_le_nat_alt)
next
  case (trace_call g c fuel hc g' ex fuel' c' tr s)
  show ?case
  proof (cases "is_read hc")
    case True
    with ok_reads [OF trace_call.hyps(2)] ok_read_quota [OF trace_call.hyps(2)]
      keeps_limits [OF trace_call.hyps(2)]
    have "curr_n_read (store_data c') = curr_n_read (store_data c) + 1"
      and "curr_n_read (store_data c') \<le> max_n_read (store_data c')"
      by simp_all
    moreover from True trace_call.prems(1)
    have "unat (curr_n_read (store_data c) + 1) = unat (curr_n_read (store_data c)) + 1"
      by (simp add: unat_word_ariths)
    ultimately show ?thesis
      using trace_call True keeps_limits [OF trace_call.hyps(2)] by simp
  next
    case False
    with trace_call show ?thesis
      using keeps_limits [OF trace_call.hyps(2)] by (auto dest!: ok_reads)
  qed
qed

lemma trace_write_quota:
  "guest_trace W host s tr t \<Longrightarrow>
   unat (curr_n_write (m_data s)) + n_writes tr < 4294967296 \<Longrightarrow>
   curr_n_write (m_data s) \<le> max_n_write (m_data s) \<Longrightarrow>
   unat (curr_n_write (m_data s)) + n_writes tr \<le> unat (max_n_write (m_data s))"
proof (induction rule: guest_trace.induct)
  case (trace_nil s)
  then show ?case by (simp add: word_le_nat_alt)
next
  case (trace_call g c fuel hc g' ex fuel' c' tr s)
  show ?case
  proof (cases "is_read hc")
    case False
    with ok_writes [OF trace_call.hyps(2)] ok_write_quota [OF trace_call.hyps(2)]
      keeps_limits [OF trace_call.hyps(2)]
    have "curr_n_write (store_data c') = curr_n_write (store_data c) + 1"
      and "curr_n_write (store_data c') \<le> max_n_write (store_data c')"
      by simp_all
    moreover from False trace_call.prems(1)
    have "unat (curr_n_write (store_data c) + 1) = unat (curr_n_write (store_data c)) + 1"
      by (simp add: unat_word_ariths)
    ultimately show ?thesis
      using trace_call False keeps_limits [OF trace_call.hyps(2)] by simp
  next
    case True
    with trace_call show ?thesis
      using keeps_limits [OF trace_call.hyps(2)] by (auto dest!: ok_writes)
  qed
qed

end

section \<open>Completed executions\<close>

text \<open>
  A completed execution of module \<open>m\<close>: its start function, if it has one, and then \<open>main\<close> ran to
  their return; \<open>tr\<close> are all the host calls made, \<open>c'\<close> is the caller record at the end.
\<close>

inductive completed_run ::
  "('m, 'g) wasmtime \<Rightarrow> host \<Rightarrow> 'm \<Rightarrow> kontract_store \<Rightarrow> nat \<Rightarrow>
   (host_call \<times> caller) list \<Rightarrow> caller \<Rightarrow> bool" for W host m d fuel where
  run_main:
    "link_module W m = Some (ex, g, False) \<Longrightarrow> enter_main W g = Some g' \<Longrightarrow>
     guest_trace W host (g', \<lparr>store_data = d, exports = ex\<rparr>, fuel) tr s \<Longrightarrow>
     guest_stop W host s (Ok g'', c', fuel') \<Longrightarrow>
     completed_run W host m d fuel tr c'"
| run_start_main:
    "link_module W m = Some (ex, g, True) \<Longrightarrow>
     guest_trace W host (g, \<lparr>store_data = d, exports = ex\<rparr>, fuel) tr s \<Longrightarrow>
     guest_stop W host s (Ok g1, c1, fuel1) \<Longrightarrow> enter_main W g1 = Some g' \<Longrightarrow>
     guest_trace W host (g', c1, fuel1) tr' s' \<Longrightarrow>
     guest_stop W host s' (Ok g'', c', fuel') \<Longrightarrow>
     completed_run W host m d fuel (tr @ tr') c'"

lemma drive_Ok_iff:
  "drive W host g c fuel = Some (Ok g', c', fuel') \<longleftrightarrow>
   (\<exists>tr s. guest_trace W host (g, c, fuel) tr s \<and> guest_stop W host s (Ok g', c', fuel'))"
  using drive_trace [of W host g c fuel] trace_drive [of W host "(g, c, fuel)"] by fastforce

text \<open>
  The machines an execution passes through: those of its start function, and, marked \<open>True\<close>, those of
  \<open>main\<close>. The trace lists all host calls made so far.
\<close>

inductive module_trace ::
  "('m, 'g) wasmtime \<Rightarrow> host \<Rightarrow> 'm \<Rightarrow> kontract_store \<Rightarrow> nat \<Rightarrow>
   bool \<Rightarrow> (host_call \<times> caller) list \<Rightarrow> 'g machine \<Rightarrow> bool" for W host m d fuel where
  in_start:
    "link_module W m = Some (ex, g, True) \<Longrightarrow>
     guest_trace W host (g, \<lparr>store_data = d, exports = ex\<rparr>, fuel) tr s \<Longrightarrow>
     module_trace W host m d fuel False tr s"
| in_main:
    "link_module W m = Some (ex, g, False) \<Longrightarrow> enter_main W g = Some g' \<Longrightarrow>
     guest_trace W host (g', \<lparr>store_data = d, exports = ex\<rparr>, fuel) tr s \<Longrightarrow>
     module_trace W host m d fuel True tr s"
| in_main_after_start:
    "link_module W m = Some (ex, g, True) \<Longrightarrow>
     guest_trace W host (g, \<lparr>store_data = d, exports = ex\<rparr>, fuel) tr s \<Longrightarrow>
     guest_stop W host s (Ok g1, c1, fuel1) \<Longrightarrow> enter_main W g1 = Some g' \<Longrightarrow>
     guest_trace W host (g', c1, fuel1) tr' s' \<Longrightarrow>
     module_trace W host m d fuel True (tr @ tr') s'"

lemma completed_module_trace:
  "completed_run W host m d fuel tr c' \<longleftrightarrow>
   (\<exists>s g' fuel'. module_trace W host m d fuel True tr s \<and> guest_stop W host s (Ok g', c', fuel'))"
proof
  assume "completed_run W host m d fuel tr c'"
  then show "\<exists>s g' fuel'. module_trace W host m d fuel True tr s \<and> guest_stop W host s (Ok g', c', fuel')"
    by cases (blast intro: in_main in_main_after_start)+
next
  assume "\<exists>s g' fuel'. module_trace W host m d fuel True tr s \<and> guest_stop W host s (Ok g', c', fuel')"
  then obtain s g' fuel' where "module_trace W host m d fuel True tr s"
    and "guest_stop W host s (Ok g', c', fuel')" by blast
  then show "completed_run W host m d fuel tr c'"
    by (cases rule: module_trace.cases) (blast intro: run_main run_start_main)+
qed

lemma completed_runI:
  assumes "module_trace W host m d fuel main tr s" and "guest_stop W host s (Ok g', c', fuel')" and main
  shows "completed_run W host m d fuel tr c'"
proof -
  have "module_trace W host m d fuel True tr s" using assms(1,3) by simp
  with assms(2) show ?thesis unfolding completed_module_trace by blast
qed

text \<open>What the end of a run makes of the execution, and that every result comes from such an end.\<close>

fun run_result ::
  "scale \<Rightarrow> bool \<Rightarrow> ('g, trap) outcome \<times> caller \<times> nat \<Rightarrow> (bytes, execution_error) outcome" where
  "run_result C main (Ok g, c, f) =
     (case enc_map C (storage (store_data c)) of Some raw \<Rightarrow> Ok raw | None \<Rightarrow> Panic)"
| "run_result C main (Err reason, c, f) =
     Err (if main then trap_error reason else ImpossibleCreateInstance)"
| "run_result C main (Panic, c, f) = Panic"

lemma call_main_drive:
  "call_main W host C g c fuel =
   (case enter_main W g of
      None \<Rightarrow> Some (Err MainEntryPointNotDefined)
    | Some g' \<Rightarrow> map_option (run_result C True) (drive W host g' c fuel))"
  by (auto simp: call_main_def split: option.split outcome.split prod.split)

lemma module_trace_result:
  assumes "module_trace W host m d fuel main tr s" and "guest_stop W host s r"
    and "\<forall>g. fst r = Ok g \<longrightarrow> main"
  shows "instantiate_and_call W host C m d fuel = Some (run_result C main r)"
  using assms(1)
proof (cases rule: module_trace.cases)
  case (in_start ex g)
  from trace_drive [OF in_start(3) assms(2)] in_start(1,2) assms(3) show ?thesis
    by (cases r; cases "fst r") (auto simp: instantiate_and_call_def)
next
  case (in_main ex g g')
  from trace_drive [OF in_main(4) assms(2)] in_main(1-3) show ?thesis
    by (simp add: instantiate_and_call_def call_main_drive)
next
  case (in_main_after_start ex g tr1 s1 g1 c1 fuel1 g' tr2)
  from trace_drive [OF in_main_after_start(4,5)] trace_drive [OF in_main_after_start(7) assms(2)]
    in_main_after_start(1-3,6)
  show ?thesis by (simp add: instantiate_and_call_def call_main_drive)
qed

definition main_missing ::
  "('m, 'g) wasmtime \<Rightarrow> host \<Rightarrow> 'm \<Rightarrow> kontract_store \<Rightarrow> nat \<Rightarrow> bool" where
  "main_missing W host m d fuel \<longleftrightarrow>
     (\<exists>ex g. link_module W m = Some (ex, g, False) \<and> enter_main W g = None) \<or>
     (\<exists>tr s g c f. module_trace W host m d fuel False tr s \<and> guest_stop W host s (Ok g, c, f) \<and>
        enter_main W g = None)"

lemma instantiate_and_call_cases:
  assumes "instantiate_and_call W host C m d fuel = Some r"
  shows "(link_module W m = None \<and> r = Err ImpossibleCreateInstance) \<or>
    (main_missing W host m d fuel \<and> r = Err MainEntryPointNotDefined) \<or>
    (\<exists>main tr s e. module_trace W host m d fuel main tr s \<and> guest_stop W host s e \<and>
       (\<forall>g. fst e = Ok g \<longrightarrow> main) \<and> r = run_result C main e)"
proof (cases "link_module W m")
  case None
  with assms show ?thesis by (simp add: instantiate_and_call_def)
next
  case (Some l)
  then obtain ex g starts where link: "link_module W m = Some (ex, g, starts)"
    by (cases l) auto
  let ?c = "\<lparr>store_data = d, exports = ex\<rparr>"
  show ?thesis
  proof (cases starts)
    case False
    with assms link have "call_main W host C g ?c fuel = Some r"
      by (simp add: instantiate_and_call_def)
    with False link show ?thesis
      by (fastforce simp: call_main_drive main_missing_def split: option.splits
          dest!: drive_trace intro: in_main)
  next
    case True
    with assms link obtain e where start: "drive W host g ?c fuel = Some e"
      by (auto simp: instantiate_and_call_def split: option.splits)
    from drive_trace [OF this] obtain tr s where s: "guest_trace W host (g, ?c, fuel) tr s"
      "guest_stop W host s e" by blast
    have t: "module_trace W host m d fuel False tr s"
      using link True s(1) by (auto intro: in_start)
    show ?thesis
    proof (cases "\<exists>g1. fst e = Ok g1")
      case False
      from module_trace_result [OF t s(2)] False assms have "r = run_result C False e" by simp
      with t s(2) False show ?thesis by blast
    next
      case ok: True
      then obtain g1 c1 f1 where e: "e = (Ok g1, c1, f1)" by (cases e) auto
      with assms link True start have main: "call_main W host C g1 c1 f1 = Some r"
        by (simp add: instantiate_and_call_def)
      show ?thesis
      proof (cases "enter_main W g1")
        case None
        with t s(2) e have "main_missing W host m d fuel"
          unfolding main_missing_def by blast
        with None main show ?thesis by (simp add: call_main_drive)
      next
        case (Some g')
        with main obtain e' where e': "drive W host g' c1 f1 = Some e'" "r = run_result C True e'"
          by (auto simp: call_main_drive)
        from drive_trace [OF e'(1)] obtain tr' s' where
          s': "guest_trace W host (g', c1, f1) tr' s'" "guest_stop W host s' e'" by blast
        have "link_module W m = Some (ex, g, True)" using link True by simp
        from in_main_after_start [OF this s [unfolded e] Some s'(1)] s'(2) e'(2) show ?thesis by blast
      qed
    qed
  qed
qed

lemma run_result_Err:
  "run_result C main e = Err err \<Longrightarrow>
   \<exists>reason c f. e = (Err reason, c, f) \<and>
     err = (if main then trap_error reason else ImpossibleCreateInstance)"
  by (cases e; cases "fst e") (auto split: option.splits)

lemma run_result_Ok:
  "run_result C main e = Ok raw \<Longrightarrow>
   \<exists>g c f. e = (Ok g, c, f) \<and> enc_map C (storage (store_data c)) = Some raw"
  by (cases e; cases "fst e") (auto split: option.splits)

lemma run_result_Panic:
  "run_result C main e = Panic \<Longrightarrow>
   \<exists>c f. e = (Panic, c, f) \<or> (\<exists>g. e = (Ok g, c, f) \<and> enc_map C (storage (store_data c)) = None)"
  by (cases e; cases "fst e") (auto split: option.splits)

text \<open>
  Everything \<open>execute_code\<close> needs before it can instantiate a module; the same result in each case.
\<close>

definition host_ready :: "('m, 'g) wasmtime \<Rightarrow> u32 \<Rightarrow> bool" where
  "host_ready W fuel \<longleftrightarrow> engine_new W \<and> add_fuel W (ucast fuel) \<and> func_wrap W ''env'' ''set'' \<and>
     func_wrap W ''env'' ''get'' \<and> func_wrap W ''env'' ''remove''"

lemma execute_code_instantiate:
  "host_ready W fuel \<Longrightarrow> module_new W code = Some m \<Longrightarrow> dec_map C raw = Some st \<Longrightarrow>
   execute_code W C blake2 code raw fuel mr mw =
     instantiate_and_call W (host_dispatch blake2 C) C m (new_store st mr mw) (unat fuel)"
  by (simp add: execute_code_def host_ready_def)

lemma execute_code_cases:
  assumes "execute_code W C blake2 code raw fuel mr mw = Some r"
  obtains (not_ready) "\<not> (host_ready W fuel \<and> module_new W code \<noteq> None \<and> dec_map C raw \<noteq> None)"
      "r = Err (if \<not> engine_new W then ImpossibleCreateEngine
        else if module_new W code = None then IncorrecBinary
        else if dec_map C raw \<noteq> None \<and> \<not> add_fuel W (ucast fuel) then ImpossibleAddFuel
        else ImpossibleDecodingKontractStorage)"
  | (run) m st where "host_ready W fuel" "module_new W code = Some m" "dec_map C raw = Some st"
      "instantiate_and_call W (host_dispatch blake2 C) C m (new_store st mr mw) (unat fuel) = Some r"
proof (cases "host_ready W fuel \<and> module_new W code \<noteq> None \<and> dec_map C raw \<noteq> None")
  case True
  then obtain m st where "module_new W code = Some m" "dec_map C raw = Some st" by blast
  with True run assms show thesis by (auto simp: execute_code_instantiate)
next
  case False
  with assms not_ready show thesis
    by (auto simp: execute_code_def host_ready_def split: option.splits if_splits)
qed

lemma execute_code_Ok:
  assumes "execute_code W C blake2 code raw fuel mr mw = Some (Ok raw')"
  shows "\<exists>m st tr c'. module_new W code = Some m \<and> dec_map C raw = Some st \<and>
    completed_run W (host_dispatch blake2 C) m (new_store st mr mw) (unat fuel) tr c' \<and>
    enc_map C (storage (store_data c')) = Some raw'"
  using assms
proof (cases rule: execute_code_cases)
  case (run m st)
  from instantiate_and_call_cases [OF run(4)] obtain main tr s e where
    trace: "module_trace W (host_dispatch blake2 C) m (new_store st mr mw) (unat fuel) main tr s"
      "guest_stop W (host_dispatch blake2 C) s e" "\<forall>g. fst e = Ok g \<longrightarrow> main"
    and res: "Ok raw' = run_result C main e"
    by (elim disjE conjE exE) simp_all
  from run_result_Ok [OF res [symmetric]] obtain g c' f where
    "e = (Ok g, c', f)" "enc_map C (storage (store_data c')) = Some raw'" by blast
  with trace have "completed_run W (host_dispatch blake2 C) m (new_store st mr mw) (unat fuel) tr c'"
    by (auto intro: completed_runI)
  with run \<open>enc_map C (storage (store_data c')) = Some raw'\<close> show ?thesis by blast
qed simp

text \<open>A guest that makes a fixed list of host calls on a fixed memory, one unit of fuel each.\<close>

fun script_resume ::
  "host_call list \<Rightarrow> (string \<rightharpoonup> extern) \<Rightarrow> nat \<Rightarrow> host_call list event \<times> (string \<rightharpoonup> extern) \<times> nat"
  where
  "script_resume [] ex fuel = (Returned [], ex, fuel)"
| "script_resume (hc # g) ex 0 = (Trapped ''all fuel consumed by WebAssembly'', ex, 0)"
| "script_resume (hc # g) ex (Suc fuel) = (HostCall hc g, ex, fuel)"

definition script_engine :: "bytes \<Rightarrow> host_call list \<Rightarrow> (unit, host_call list) wasmtime" where
  "script_engine mem calls =
     \<lparr>engine_new = True, module_new = (\<lambda>_. Some ()), add_fuel = (\<lambda>_. True),
      func_wrap = (\<lambda>_ _. True),
      link_module = (\<lambda>_. Some ([''memory'' \<mapsto> Memory mem], calls, False)),
      enter_main = Some, resume = script_resume\<rparr>"

lemma script_resume_fuel: "script_resume g ex fuel = (ev, ex', fuel') \<Longrightarrow> fuel' \<le> fuel"
  and script_resume_call: "script_resume g ex fuel = (HostCall hc g', ex', fuel') \<Longrightarrow> fuel' < fuel"
  by (induction g ex fuel rule: script_resume.induct) auto

interpretation script: metered_engine "script_engine mem calls" for mem calls
  by unfold_locales
    (auto simp: script_engine_def dest: script_resume_fuel script_resume_call)

lemma stop_Ok_data: "guest_stop W host s (Ok g', c', fuel') \<Longrightarrow> store_data c' = m_data s"
  by (auto elim: guest_stop.cases)

context host_interface
begin

lemma run_storage:
  "completed_run W host m d fuel tr c' \<Longrightarrow>
   storage (store_data c') = fold btree_apply (trace_writes writes tr) (storage d)"
proof (induction rule: completed_run.induct)
  case (run_main ex g g' tr s g'' c' fuel')
  from trace_storage [OF run_main(3)] stop_Ok_data [OF run_main(4)] show ?case by simp
next
  case (run_start_main ex g tr s g1 c1 fuel1 g' tr' s' g'' c' fuel')
  from trace_storage [OF run_start_main(2)] stop_Ok_data [OF run_start_main(3)]
    trace_storage [OF run_start_main(5)] stop_Ok_data [OF run_start_main(6)]
  show ?case by simp
qed

end

section \<open>Metered runs over the contract of the host functions\<close>

locale engine_run = metered_engine W + host_interface host writes
  for W :: "('m, 'g) wasmtime" and host writes
begin

lemma run_length: "completed_run W host m d fuel tr c' \<Longrightarrow> length tr \<le> fuel"
proof (induction rule: completed_run.induct)
  case (run_main ex g g' tr s g'' c' fuel')
  from trace_fuel [OF run_main(3)] show ?case by simp
next
  case (run_start_main ex g tr s g1 c1 fuel1 g' tr' s' g'' c' fuel')
  from trace_fuel [OF run_start_main(2)] stop_fuel [OF run_start_main(3)]
    trace_fuel [OF run_start_main(5)]
  show ?case by simp
qed

lemma run_reads:
  assumes "completed_run W host m d fuel tr c'" and "fuel < 4294967296"
    and "curr_n_read d = 0"
  shows "n_reads tr \<le> unat (max_n_read d) \<and> unat (curr_n_read (store_data c')) = n_reads tr"
  using assms(1)
proof (cases rule: completed_run.cases)
  case (run_main ex g g' s g'' fuel')
  have "n_reads tr < 4294967296"
    using run_length [OF assms(1)] n_reads_writes [of tr] assms(2) by linarith
  with trace_read_quota [OF run_main(3)] trace_reads [OF run_main(3)]
    stop_Ok_data [OF run_main(4)] assms(3)
  show ?thesis by (simp add: unat_u32_of_nat)
next
  case (run_start_main ex g tr1 s g1 c1 fuel1 g' tr2 s' g'' fuel')
  have small: "n_reads tr1 + n_reads tr2 < 4294967296"
    using run_length [OF assms(1)] n_reads_writes [of tr] assms(2) run_start_main(1) by simp
  have c1: "curr_n_read (store_data c1) = word_of_nat (n_reads tr1)"
    "max_n_read (store_data c1) = max_n_read d"
    using trace_reads [OF run_start_main(3)] stop_Ok_data [OF run_start_main(4)]
      trace_limits [OF run_start_main(3)] assms(3) by simp_all
  have first: "n_reads tr1 \<le> unat (max_n_read d)"
    using trace_read_quota [OF run_start_main(3)] small assms(3) by simp
  then have "curr_n_read (store_data c1) \<le> max_n_read (store_data c1)"
    using c1 small by (simp add: word_le_nat_alt unat_u32_of_nat)
  with trace_read_quota [OF run_start_main(6)] c1 small
  have "n_reads tr1 + n_reads tr2 \<le> unat (max_n_read d)"
    by (simp add: unat_u32_of_nat)
  moreover have "curr_n_read (store_data c') = word_of_nat (n_reads tr1 + n_reads tr2)"
    using trace_reads [OF run_start_main(6)] stop_Ok_data [OF run_start_main(7)] c1 by simp
  ultimately show ?thesis
    using small run_start_main(1) by (simp only: trace_counts unat_u32_of_nat)
qed

lemma run_writes:
  assumes "completed_run W host m d fuel tr c'" and "fuel < 4294967296"
    and "curr_n_write d = 0"
  shows "n_writes tr \<le> unat (max_n_write d) \<and> unat (curr_n_write (store_data c')) = n_writes tr"
  using assms(1)
proof (cases rule: completed_run.cases)
  case (run_main ex g g' s g'' fuel')
  have "n_writes tr < 4294967296"
    using run_length [OF assms(1)] n_reads_writes [of tr] assms(2) by linarith
  with trace_write_quota [OF run_main(3)] trace_write_count [OF run_main(3)]
    stop_Ok_data [OF run_main(4)] assms(3)
  show ?thesis by (simp add: unat_u32_of_nat)
next
  case (run_start_main ex g tr1 s g1 c1 fuel1 g' tr2 s' g'' fuel')
  have small: "n_writes tr1 + n_writes tr2 < 4294967296"
    using run_length [OF assms(1)] n_reads_writes [of tr] assms(2) run_start_main(1) by simp
  have c1: "curr_n_write (store_data c1) = word_of_nat (n_writes tr1)"
    "max_n_write (store_data c1) = max_n_write d"
    using trace_write_count [OF run_start_main(3)] stop_Ok_data [OF run_start_main(4)]
      trace_limits [OF run_start_main(3)] assms(3) by simp_all
  have first: "n_writes tr1 \<le> unat (max_n_write d)"
    using trace_write_quota [OF run_start_main(3)] small assms(3) by simp
  then have "curr_n_write (store_data c1) \<le> max_n_write (store_data c1)"
    using c1 small by (simp add: word_le_nat_alt unat_u32_of_nat)
  with trace_write_quota [OF run_start_main(6)] c1 small
  have "n_writes tr1 + n_writes tr2 \<le> unat (max_n_write d)"
    by (simp add: unat_u32_of_nat)
  moreover have "curr_n_write (store_data c') = word_of_nat (n_writes tr1 + n_writes tr2)"
    using trace_write_count [OF run_start_main(6)] stop_Ok_data [OF run_start_main(7)] c1 by simp
  ultimately show ?thesis
    using small run_start_main(1) by (simp only: trace_counts unat_u32_of_nat)
qed

end

interpretation script_run: engine_run "script_engine mem calls" "host_dispatch blake2 C"
    "host_writes blake2" for mem calls blake2 C
  by unfold_locales

lemma kontracts_run: "metered_engine W \<Longrightarrow> engine_run W (host_dispatch blake2 C) (host_writes blake2)"
  by (intro engine_run.intro kontracts.host_interface_axioms)

lemma new_store_sel [simp]:
  "max_n_read (new_store st mr mw) = mr" "max_n_write (new_store st mr mw) = mw"
  "curr_n_read (new_store st mr mw) = 0" "curr_n_write (new_store st mr mw) = 0"
  "storage (new_store st mr mw) = st"
  by (simp_all add: new_store_def)

text \<open>What every caller of \<open>execute_code\<close> may rely on: a result is an encoded, well-formed storage.\<close>

lemma execute_code_encoded:
  assumes "scale_codec C" and "execute_code W C blake2 code raw fuel mr mw = Some (Ok raw')"
  shows "\<exists>m. btree_wf m \<and> enc_map C m = Some raw'"
proof -
  from execute_code_Ok [OF assms(2)] obtain m st tr c' where
    "dec_map C raw = Some st" and raw': "enc_map C (storage (store_data c')) = Some raw'"
    and run: "completed_run W (host_dispatch blake2 C) m (new_store st mr mw) (unat fuel) tr c'"
    by blast
  then have "btree_wf st" using scale_codec.map_decoded [OF assms(1)] by blast
  then have "btree_wf (storage (store_data c'))"
    using kontracts.run_storage [OF run] btree.wf_replay by simp
  with raw' show ?thesis by blast
qed

section \<open>Quotas without fuel\<close>

text \<open>
  Quotas below \<open>2^32 - 1\<close> bound the host calls of a run by themselves: the counters cannot wrap, so
  every call that returns uses up one of a finite number of reads and writes, whatever the engine
  makes of fuel.
\<close>

definition in_quota :: "kontract_store \<Rightarrow> bool" where
  "in_quota d \<longleftrightarrow> curr_n_read d \<le> max_n_read d \<and> curr_n_write d \<le> max_n_write d \<and>
     max_n_read d \<noteq> - 1 \<and> max_n_write d \<noteq> - 1"

definition calls_left :: "kontract_store \<Rightarrow> nat" where
  "calls_left d = (unat (max_n_read d) - unat (curr_n_read d)) + (unat (max_n_write d) - unat (curr_n_write d))"

lemma unat_Suc_below: "x \<le> m \<Longrightarrow> m \<noteq> - 1 \<Longrightarrow> unat (x + 1 :: u32) = unat x + 1"
proof -
  assume "x \<le> m" "m \<noteq> - 1"
  then have "x + 1 \<noteq> 0"
    by (metis add.commute add_eq_0_iff word_order.extremum_unique)
  then show ?thesis using unatSuc [of x] by (simp add: add.commute)
qed

context host_interface
begin

lemma call_in_quota:
  assumes "host hc c = (Ok (), c')" and "in_quota (store_data c)"
  shows "in_quota (store_data c')"
    "unat (curr_n_read (store_data c')) = unat (curr_n_read (store_data c)) + (if is_read hc then 1 else 0)"
    "unat (curr_n_write (store_data c')) = unat (curr_n_write (store_data c)) + (if is_read hc then 0 else 1)"
  using assms keeps_limits [OF assms(1)] ok_reads [OF assms(1)] ok_writes [OF assms(1)]
    ok_read_quota [OF assms(1)] ok_write_quota [OF assms(1)]
  by (auto simp: in_quota_def unat_Suc_below)

lemma call_uses_quota:
  assumes "host hc c = (Ok (), c')" and "in_quota (store_data c)"
  shows "calls_left (store_data c') < calls_left (store_data c)"
  using call_in_quota [OF assms] keeps_limits [OF assms(1)]
  by (auto simp: in_quota_def calls_left_def word_le_nat_alt split: if_splits)

lemma drive_ends:
  "in_quota (store_data c) \<Longrightarrow> \<exists>r. drive W host g c fuel = Some r"
proof (induction "calls_left (store_data c)" arbitrary: g c fuel rule: less_induct)
  case less
  obtain ev ex fuel' where res: "resume W g (exports c) fuel = (ev, ex, fuel')"
    by (rule prod_cases3)
  show ?case
  proof (cases ev)
    case (HostCall hc g')
    let ?c = "c\<lparr>exports := ex\<rparr>"
    obtain out c' where host: "host hc ?c = (out, c')" by (rule prod.exhaust)
    show ?thesis
    proof (cases out)
      case (Ok u)
      with host have ok: "host hc ?c = (Ok (), c')" by simp
      have quota: "in_quota (store_data ?c)" using less(2) by simp
      have "calls_left (store_data c') < calls_left (store_data c)"
        using call_uses_quota [OF ok quota] by simp
      from less(1) [OF this call_in_quota(1) [OF ok quota]]
      obtain r where "drive W host g' c' fuel' = Some r" by blast
      with res host HostCall Ok show ?thesis
        by (intro exI [of _ r], subst drive.simps) simp
    qed (use res host HostCall in \<open>subst drive.simps, simp\<close>)+
  qed (use res in \<open>subst drive.simps, simp\<close>)+
qed

lemma trace_in_quota:
  "guest_trace W host s tr t \<Longrightarrow> in_quota (m_data s) \<Longrightarrow>
   in_quota (m_data t) \<and>
   unat (curr_n_read (m_data t)) = unat (curr_n_read (m_data s)) + n_reads tr \<and>
   unat (curr_n_write (m_data t)) = unat (curr_n_write (m_data s)) + n_writes tr"
proof (induction rule: guest_trace.induct)
  case (trace_call g c fuel hc g' ex fuel' c' tr s)
  from trace_call call_in_quota [OF trace_call.hyps(2)] show ?case by simp
qed simp

lemma module_in_quota:
  assumes "module_trace W host m d fuel main tr s" and "in_quota d"
    and "curr_n_read d = 0" and "curr_n_write d = 0"
  shows "in_quota (m_data s) \<and> unat (curr_n_read (m_data s)) = n_reads tr \<and>
    unat (curr_n_write (m_data s)) = n_writes tr"
  using assms(1)
proof (cases rule: module_trace.cases)
  case (in_main_after_start ex g tr1 s1 g1 c1 fuel1 g' tr2)
  from trace_in_quota [OF in_main_after_start(4)] trace_in_quota [OF in_main_after_start(7)]
    stop_Ok_data [OF in_main_after_start(5)] assms(2-4) in_main_after_start(2)
  show ?thesis by simp
qed (use assms(2-4) trace_in_quota in fastforce)+

lemma call_main_ends:
  "in_quota (store_data c) \<Longrightarrow> \<exists>r. call_main W host C g c fuel = Some r"
  using drive_ends [of c W] by (auto simp: call_main_drive split: option.split)

lemma instantiate_and_call_ends:
  assumes "in_quota d"
  shows "\<exists>r. instantiate_and_call W host C m d fuel = Some r"
proof (cases "link_module W m")
  case (Some l)
  then obtain ex g starts where link: "link_module W m = Some (ex, g, starts)" by (cases l) auto
  let ?c = "\<lparr>store_data = d, exports = ex\<rparr>"
  have c: "in_quota (store_data ?c)" using assms by simp
  show ?thesis
  proof (cases starts)
    case True
    from drive_ends [OF c, of W g fuel] obtain e where e: "drive W host g ?c fuel = Some e" by blast
    from drive_trace [OF this] obtain tr s where s: "guest_trace W host (g, ?c, fuel) tr s"
      "guest_stop W host s e" by blast
    show ?thesis
    proof (cases "\<exists>g1 c1 f1. e = (Ok g1, c1, f1)")
      case ok: True
      then obtain g1 c1 f1 where e1: "e = (Ok g1, c1, f1)" by blast
      have "in_quota (store_data c1)"
        using trace_in_quota [OF s(1)] stop_Ok_data [OF s(2) [unfolded e1]] assms by simp
      from call_main_ends [OF this] True link e e1 show ?thesis by (simp add: instantiate_and_call_def)
    next
      case False
      with True link e show ?thesis
        by (cases e; cases "fst e") (auto simp: instantiate_and_call_def)
    qed
  qed (use call_main_ends [OF c] link in \<open>simp add: instantiate_and_call_def\<close>)
qed (simp add: instantiate_and_call_def)

end

text \<open>With metered fuel every stage of \<open>execute_code\<close> returns.\<close>

context metered_engine
begin

lemma drive_not_None [simp]: "drive W host g c f \<noteq> None"
  using drive_returns by blast

lemma call_main_returns: "\<exists>r. call_main W host C g c f = Some r"
  by (simp add: call_main_def split: option.split outcome.split prod.split)

lemma execution_returns: "\<exists>r. execute_code W C blake2 code raw fuel mr mw = Some r"
proof -
  have "\<exists>r. instantiate_and_call W host C m d f = Some r" for host m d f
    by (simp add: instantiate_and_call_def call_main_returns Let_def
        split: option.split outcome.split prod.split)
  then show ?thesis by (simp add: execute_code_def split: option.split)
qed

end

section \<open>Properties\<close>

text \<open>
  C17. The quotas end every execution, also of an engine that does not meter fuel: when fewer than
  \<open>2^32 - 1\<close> reads and writes are declared, \<open>execute_code\<close> returns for every code that returns, traps or calls
  a host function again and again, because at any point of the run, start function included, at most
  the declared reads and writes were made, and each one is counted.
\<close>

theorem quotas_end_execution:
  assumes "mr \<noteq> - 1" and "mw \<noteq> - 1"
  shows "(\<exists>r. execute_code W C blake2 code raw fuel mr mw = Some r) \<and>
    (\<forall>m st main tr s.
       module_trace W (host_dispatch blake2 C) m (new_store st mr mw) (unat fuel) main tr s \<longrightarrow>
       unat (curr_n_read (m_data s)) = n_reads tr \<and> unat (curr_n_write (m_data s)) = n_writes tr \<and>
       n_reads tr \<le> unat mr \<and> n_writes tr \<le> unat mw)"
proof -
  have quota: "in_quota (new_store st mr mw)" for st
    using assms by (simp add: in_quota_def)
  have "\<exists>r. instantiate_and_call W (host_dispatch blake2 C) C m (new_store st mr mw) (unat fuel) = Some r"
    for m st
    using quota by (rule kontracts.instantiate_and_call_ends)
  then have "\<exists>r. execute_code W C blake2 code raw fuel mr mw = Some r"
    by (simp add: execute_code_def split: option.split)
  moreover have "unat (curr_n_read (m_data s)) = n_reads tr \<and> unat (curr_n_write (m_data s)) = n_writes tr \<and>
      n_reads tr \<le> unat mr \<and> n_writes tr \<le> unat mw"
    if "module_trace W (host_dispatch blake2 C) m (new_store st mr mw) (unat fuel) main tr s" for m st main tr s
  proof -
    have "max_n_read (m_data s) = mr" "max_n_write (m_data s) = mw"
      using that
      by (cases rule: module_trace.cases; (auto dest!: kontracts.trace_limits stop_Ok_data)+)+
    with kontracts.module_in_quota [OF that quota] show ?thesis
      by (auto simp: in_quota_def word_le_nat_alt)
  qed
  ultimately show ?thesis by blast
qed

text \<open>A guest that reads for ever on an engine that takes no fuel for it.\<close>

definition reading_engine :: "(unit, unit) wasmtime" where
  "reading_engine =
     \<lparr>engine_new = True, module_new = (\<lambda>_. Some ()), add_fuel = (\<lambda>_. True), func_wrap = (\<lambda>_ _. True),
      link_module = (\<lambda>_. Some ([''memory'' \<mapsto> Memory [0, 0, 0, 0]], (), False)), enter_main = Some,
      resume = (\<lambda>g ex fuel. (HostCall (CallGet 0 1 1 1) (), ex, fuel))\<rparr>"

theorem quotas_end_execution_witness:
  "\<exists>r. execute_code reading_engine scale_ref id [7] [0] 5 1000 0 = Some r"
  using quotas_end_execution [of 1000 0 reading_engine scale_ref id "[7]" "[0]" 5] by simp

text \<open>
  C5. The limits the caller sets are respected: a successful execution is a completed run of the
  compiled module whose host calls number at most the fuel, whose \<open>get\<close> calls number at most the
  declared reads and whose \<open>set\<close> and \<open>remove\<close> calls number at most the declared writes; the store's
  counters hold exactly these numbers, so neither counter ever wraps around.
\<close>

theorem execute_code_limits:
  assumes "metered_engine W"
    and "execute_code W C blake2 code raw fuel mr mw = Some (Ok raw')"
  shows "\<exists>m st tr c'. module_new W code = Some m \<and> dec_map C raw = Some st \<and>
    completed_run W (host_dispatch blake2 C) m (new_store st mr mw) (unat fuel) tr c' \<and>
    enc_map C (storage (store_data c')) = Some raw' \<and>
    length tr \<le> unat fuel \<and> n_reads tr \<le> unat mr \<and> n_writes tr \<le> unat mw \<and>
    unat (curr_n_read (store_data c')) = n_reads tr \<and>
    unat (curr_n_write (store_data c')) = n_writes tr"
proof -
  note run = kontracts_run [OF assms(1), of blake2 C]
  from execute_code_Ok [OF assms(2)] obtain m st tr c' where
    exec: "module_new W code = Some m" "dec_map C raw = Some st"
      "enc_map C (storage (store_data c')) = Some raw'"
    and c: "completed_run W (host_dispatch blake2 C) m (new_store st mr mw) (unat fuel) tr c'"
    by blast
  have "unat fuel < 4294967296" by (rule unat_u32_less)
  with engine_run.run_reads [OF run c] engine_run.run_writes [OF run c]
    engine_run.run_length [OF run c] exec c
  show ?thesis by (intro exI [of _ m] exI [of _ st] exI [of _ tr] exI [of _ c']) simp
qed

theorem execute_code_limits_witness:
  "\<exists>m st tr c'. dec_map scale_ref [0] = Some st \<and>
     completed_run (script_engine [5, 6] [CallSet 0 1 1 1]) (host_dispatch id scale_ref) m
       (new_store st 0 1) (unat (5 :: u32)) tr c' \<and> n_reads tr = 0 \<and> n_writes tr \<le> 1"
proof -
  have "execute_code (script_engine [5, 6] [CallSet 0 1 1 1]) scale_ref id [] [0] 5 0 1 =
      Some (Ok [4, 4, 5, 4, 6])"
    by code_simp
  from execute_code_limits [OF script.metered_engine_axioms this] obtain m st tr c' where
    run: "dec_map scale_ref [0] = Some st"
      "completed_run (script_engine [5, 6] [CallSet 0 1 1 1]) (host_dispatch id scale_ref) m
        (new_store st 0 1) (unat (5 :: u32)) tr c'"
    and "n_reads tr \<le> unat (0 :: u32)" "n_writes tr \<le> unat (1 :: u32)"
    by blast
  then have "n_reads tr = 0 \<and> n_writes tr \<le> 1" by simp
  with run show ?thesis by blast
qed

text \<open>
  C4. What a successful execution leaves: the returned bytes are the encoding of a well-formed map
  in which every key reads as it does after the \<open>set\<close> and \<open>remove\<close> calls of the run, in their order,
  are applied to the decoded storage; keys whose hash no such call names keep their value.
\<close>

theorem execute_code_storage:
  assumes "metered_engine W" and "scale_codec C"
    and "execute_code W C blake2 code raw fuel mr mw = Some (Ok raw')"
  shows "\<exists>m st st' tr c'. module_new W code = Some m \<and> dec_map C raw = Some st \<and>
    completed_run W (host_dispatch blake2 C) m (new_store st mr mw) (unat fuel) tr c' \<and>
    enc_map C st' = Some raw' \<and> btree_wf st' \<and>
    btree_get st' = fold map_apply (trace_writes (host_writes blake2) tr) (btree_get st) \<and>
    (\<forall>k. k \<notin> op_key ` set (trace_writes (host_writes blake2) tr) \<longrightarrow> btree_get st' k = btree_get st k)"
proof -
  from execute_code_Ok [OF assms(3)] obtain m st tr c' where
    exec: "module_new W code = Some m" "dec_map C raw = Some st"
      "enc_map C (storage (store_data c')) = Some raw'"
    and c: "completed_run W (host_dispatch blake2 C) m (new_store st mr mw) (unat fuel) tr c'"
    by blast
  let ?ops = "trace_writes (host_writes blake2) tr"
  have st': "storage (store_data c') = fold btree_apply ?ops st"
    using kontracts.run_storage [OF c] by simp
  have "btree_wf st"
    using scale_codec.map_decoded [OF assms(2) exec(2)] by simp
  with st' exec c btree.wf_replay [of st ?ops] btree.get_replay [of st ?ops]
    btree.untouched_key [of st _ ?ops]
  show ?thesis
    by (intro exI [of _ m] exI [of _ st] exI [of _ "fold btree_apply ?ops st"] exI [of _ tr]
        exI [of _ c']) simp
qed

theorem execute_code_storage_witness:
  "\<exists>st st'. dec_map scale_ref [0] = Some st \<and> enc_map scale_ref st' = Some [4, 4, 5, 4, 6] \<and> btree_wf st'"
proof -
  have "execute_code (script_engine [5, 6] [CallSet 0 1 1 1]) scale_ref id [] [0] 5 0 1 =
      Some (Ok [4, 4, 5, 4, 6])"
    by code_simp
  from execute_code_storage [OF script.metered_engine_axioms scale_ref.scale_codec_axioms this]
  show ?thesis by blast
qed

subsection \<open>Failures\<close>

lemma trap_error_range:
  "trap_error reason \<in> {OutOfFuel, OutOfReads, OutOfWrites, WasmPanic}"
  by (simp add: trap_error_def)

lemma trap_error_neq [simp]:
  "trap_error reason \<noteq> ImpossibleCreateInstance" "trap_error reason \<noteq> MainEntryPointNotDefined"
  by (simp_all add: trap_error_def)

text \<open>The traps at which a run stops, and the three ways in which instantiating and calling can fail.\<close>

definition traps_in ::
  "('m, 'g) wasmtime \<Rightarrow> host \<Rightarrow> 'm \<Rightarrow> kontract_store \<Rightarrow> nat \<Rightarrow> bool \<Rightarrow> trap \<Rightarrow> bool" where
  "traps_in W host m d fuel main reason \<longleftrightarrow>
     (\<exists>tr s c f. module_trace W host m d fuel main tr s \<and> guest_stop W host s (Err reason, c, f))"

lemma traps_in_result:
  "traps_in W host m d fuel main reason \<Longrightarrow> instantiate_and_call W host C m d fuel =
     Some (Err (if main then trap_error reason else ImpossibleCreateInstance))"
  unfolding traps_in_def using module_trace_result [of W host m d fuel main] by fastforce

lemma main_missing_result:
  assumes "main_missing W host m d fuel"
  shows "instantiate_and_call W host C m d fuel = Some (Err MainEntryPointNotDefined)"
  using assms unfolding main_missing_def
proof (elim disjE exE conjE)
  fix tr s g c f
  assume "module_trace W host m d fuel False tr s"
    and stop: "guest_stop W host s (Ok g, c, f)" and none: "enter_main W g = None"
  from this(1) show ?thesis
  proof (cases rule: module_trace.cases)
    case (in_start ex g0)
    from trace_drive [OF in_start(2) stop] in_start(1) none show ?thesis
      by (simp add: instantiate_and_call_def call_main_drive)
  qed simp_all
qed (simp add: instantiate_and_call_def call_main_drive)

lemma instantiate_and_call_Err:
  assumes "instantiate_and_call W host C m d fuel = Some (Err e)"
  shows "(e = ImpossibleCreateInstance \<and>
      (link_module W m = None \<or> (\<exists>reason. traps_in W host m d fuel False reason))) \<or>
    (e = MainEntryPointNotDefined \<and> main_missing W host m d fuel) \<or>
    (\<exists>reason. traps_in W host m d fuel True reason \<and> e = trap_error reason)"
  using instantiate_and_call_cases [OF assms]
proof (elim disjE exE conjE)
  fix main tr s ev
  assume trace: "module_trace W host m d fuel main tr s" "guest_stop W host s ev"
    and "Err e = run_result C main ev"
  from run_result_Err [OF this(3) [symmetric]] obtain reason c f where
    "ev = (Err reason, c, f)" "e = (if main then trap_error reason else ImpossibleCreateInstance)"
    by blast
  moreover from this trace have "traps_in W host m d fuel main reason"
    unfolding traps_in_def by blast
  ultimately show ?thesis by (cases main) auto
qed simp_all

text \<open>
  C19. Which error a failed execution reports, exactly: never \<open>UnexpectedBehavoiur\<close> and never
  \<open>ImpossibleCreateHostFunction\<close> (a host function that cannot be linked is reported as a storage that
  cannot be decoded); before instantiation, the error of the first step that fails; then
  \<open>ImpossibleCreateInstance\<close> for a module that cannot be linked or whose start function traps,
  \<open>MainEntryPointNotDefined\<close> for one without \<open>main\<close>; and out of fuel, reads or writes, or a wasm
  panic, for the trap at which \<open>main\<close>, run on the caller's storage, quotas and fuel, stops.
\<close>

theorem execute_code_errors:
  assumes "execute_code W C blake2 code raw fuel mr mw = Some (Err e)"
  shows "e \<noteq> UnexpectedBehavoiur \<and> e \<noteq> ImpossibleCreateHostFunction \<and>
    (e = ImpossibleCreateEngine \<longleftrightarrow> \<not> engine_new W) \<and>
    (e = IncorrecBinary \<longleftrightarrow> engine_new W \<and> module_new W code = None) \<and>
    (e = ImpossibleAddFuel \<longleftrightarrow> engine_new W \<and> module_new W code \<noteq> None \<and> dec_map C raw \<noteq> None \<and>
      \<not> add_fuel W (ucast fuel)) \<and>
    (e = ImpossibleDecodingKontractStorage \<longleftrightarrow> engine_new W \<and> module_new W code \<noteq> None \<and>
      (dec_map C raw = None \<or> add_fuel W (ucast fuel) \<and> \<not> host_ready W fuel)) \<and>
    (host_ready W fuel \<longrightarrow> (\<forall>m st. module_new W code = Some m \<longrightarrow> dec_map C raw = Some st \<longrightarrow>
      (e = ImpossibleCreateInstance \<longleftrightarrow> link_module W m = None \<or>
         (\<exists>reason. traps_in W (host_dispatch blake2 C) m (new_store st mr mw) (unat fuel) False reason)) \<and>
      (e = MainEntryPointNotDefined \<longleftrightarrow>
         main_missing W (host_dispatch blake2 C) m (new_store st mr mw) (unat fuel)) \<and>
      (e \<in> {OutOfFuel, OutOfReads, OutOfWrites, WasmPanic} \<longleftrightarrow>
         (\<exists>reason. traps_in W (host_dispatch blake2 C) m (new_store st mr mw) (unat fuel) True reason)) \<and>
      (\<forall>reason. traps_in W (host_dispatch blake2 C) m (new_store st mr mw) (unat fuel) True reason \<longrightarrow>
         e = trap_error reason)))"
  using assms
proof (cases rule: execute_code_cases)
  case not_ready
  then show ?thesis by (auto simp: host_ready_def split: if_splits)
next
  case (run m st)
  let ?traps = "traps_in W (host_dispatch blake2 C) m (new_store st mr mw) (unat fuel)"
  have unlinked: "e = ImpossibleCreateInstance" if "link_module W m = None"
    using run(4) that by (simp add: instantiate_and_call_def)
  have trapped: "e = (if main then trap_error reason else ImpossibleCreateInstance)"
    if "?traps main reason" for main reason
    using run(4) traps_in_result [OF that] by simp
  have missing: "e = MainEntryPointNotDefined"
    if "main_missing W (host_dispatch blake2 C) m (new_store st mr mw) (unat fuel)"
    using run(4) main_missing_result [OF that] by simp
  have range: "e \<in> {OutOfFuel, OutOfReads, OutOfWrites, WasmPanic}" if "?traps True reason" for reason
    using trapped [OF that] trap_error_range [of reason] by simp
  have "engine_new W" "add_fuel W (ucast fuel)"
    using run(1) by (simp_all add: host_ready_def)
  then have early: "e \<notin> {ImpossibleCreateEngine, IncorrecBinary, ImpossibleAddFuel,
      ImpossibleDecodingKontractStorage, UnexpectedBehavoiur, ImpossibleCreateHostFunction}"
    using instantiate_and_call_Err [OF run(4)] range trapped [of True] by auto
  have "e = ImpossibleCreateInstance \<longleftrightarrow> link_module W m = None \<or> (\<exists>reason. ?traps False reason)"
    using instantiate_and_call_Err [OF run(4)] unlinked trapped [of False] range by auto
  moreover have "e = MainEntryPointNotDefined \<longleftrightarrow>
      main_missing W (host_dispatch blake2 C) m (new_store st mr mw) (unat fuel)"
    using instantiate_and_call_Err [OF run(4)] missing range by auto
  moreover have "e \<in> {OutOfFuel, OutOfReads, OutOfWrites, WasmPanic} \<longleftrightarrow> (\<exists>reason. ?traps True reason)"
    using instantiate_and_call_Err [OF run(4)] range by auto
  moreover have "\<forall>reason. ?traps True reason \<longrightarrow> e = trap_error reason"
    using trapped [of True] by simp
  ultimately show ?thesis
    using early run(1-3) \<open>engine_new W\<close> \<open>add_fuel W (ucast fuel)\<close> by simp
qed

theorem execute_code_errors_witness:
  "execute_code (script_engine [5, 6] [CallGet 0 1 1 1]) scale_ref id [] [0] 7 0 1 =
     Some (Err OutOfReads) \<and>
   (\<exists>reason. traps_in (script_engine [5, 6] [CallGet 0 1 1 1]) (host_dispatch id scale_ref) ()
      (new_store [] 0 1) (unat (7 :: u32)) True reason)"
proof -
  let ?W = "script_engine [5, 6] [CallGet 0 1 1 1]"
  have run: "execute_code ?W scale_ref id [] [0] 7 0 1 = Some (Err OutOfReads)"
    and dec: "dec_map scale_ref [0] = Some []"
    by code_simp+
  have "host_ready ?W 7" "module_new ?W [] = Some ()"
    by (simp_all add: host_ready_def script_engine_def)
  with execute_code_errors [OF run] run dec show ?thesis by blast
qed

text \<open>
  The machine in which \<open>main\<close> starts when everything before it succeeds and the module has no start
  function, and what \<open>execute_code\<close> makes of the run from there.
\<close>

definition enters_main ::
  "('m, 'g) wasmtime \<Rightarrow> scale \<Rightarrow> bytes \<Rightarrow> bytes \<Rightarrow> u32 \<Rightarrow> u32 \<Rightarrow> u32 \<Rightarrow> 'g \<Rightarrow>
   (string \<rightharpoonup> extern) \<Rightarrow> kv_storage \<Rightarrow> bool" where
  "enters_main W C code raw fuel mr mw g ex st \<longleftrightarrow>
     engine_new W \<and> add_fuel W (ucast fuel) \<and> func_wrap W ''env'' ''set'' \<and>
     func_wrap W ''env'' ''get'' \<and> func_wrap W ''env'' ''remove'' \<and> dec_map C raw = Some st \<and>
     (case module_new W code of
        None \<Rightarrow> False
      | Some m \<Rightarrow>
          (case link_module W m of
             Some (ex', g0, False) \<Rightarrow> ex' = ex \<and> enter_main W g0 = Some g
           | _ \<Rightarrow> False))"

lemma execute_code_main:
  assumes "enters_main W C code raw fuel mr mw g ex st"
  shows "execute_code W C blake2 code raw fuel mr mw =
    (case drive W (host_dispatch blake2 C) g
        \<lparr>store_data = new_store st mr mw, exports = ex\<rparr> (unat fuel) of
       None \<Rightarrow> None
     | Some (Ok _, c', _) \<Rightarrow>
         (case enc_map C (storage (store_data c')) of Some raw' \<Rightarrow> Some (Ok raw') | None \<Rightarrow> Some Panic)
     | Some (Err reason, _, _) \<Rightarrow> Some (Err (trap_error reason))
     | Some (Panic, _, _) \<Rightarrow> Some Panic)"
  using assms
  by (auto simp: enters_main_def execute_code_def instantiate_and_call_def call_main_def
      split: option.splits bool.splits)

fun args_readable :: "host_call \<Rightarrow> caller \<Rightarrow> bool" where
  "args_readable (CallSet kp ks vp vs) c = (is_ok (read_vec c kp ks) \<and> is_ok (read_vec c vp vs))"
| "args_readable (CallGet kp ks vp vs) c = is_ok (read_vec c kp ks)"
| "args_readable (CallRemove kp ks) c = is_ok (read_vec c kp ks)"

lemma is_ok_iff: "is_ok r \<longleftrightarrow> (\<exists>a. r = Ok a)"
  by (cases r) auto

lemma host_dispatch_read_refused:
  assumes "args_readable hc c" and "is_read hc"
    and "max_n_read (store_data c) < curr_n_read (store_data c) + 1"
  shows "host_dispatch blake2 C hc c = (Err ''ExceededReads'', c)"
  using assms
  by (cases hc) (auto simp: is_ok_iff env_get_def and_then_def kontracts_get_def
      update_with_check_def Let_def)

lemma host_dispatch_write_refused:
  assumes "args_readable hc c" and "\<not> is_read hc"
    and "max_n_write (store_data c) < curr_n_write (store_data c) + 1"
  shows "host_dispatch blake2 C hc c = (Err ''ExceededWrites'', c)"
  using assms
  by (cases hc) (auto simp: is_ok_iff env_set_def env_remove_def and_then_def kontracts_set_def
      kontracts_remove_def update_with_check_def Let_def)

lemma drive_refused:
  assumes "guest_trace W host (g, c, fuel) tr (g1, c1, f1)"
    and "resume W g1 (exports c1) f1 = (HostCall hc g2, ex, f2)"
    and "host hc (c1\<lparr>exports := ex\<rparr>) = (Err reason, c2)"
  shows "drive W host g c fuel = Some (Err reason, c2, f2)"
proof -
  have "guest_stop W host (g1, c1, f1) (Err reason, c2, f2)"
    using assms(2,3) by (rule stop_host_trap)
  from trace_drive [OF assms(1) this] show ?thesis by simp
qed

text \<open>
  C18. The quotas are enforced: when \<open>main\<close> has made exactly as many \<open>get\<close> calls as the caller
  declared reads, its next \<open>get\<close> with a readable key ends the execution with \<open>OutOfReads\<close>; likewise
  the next \<open>set\<close> or \<open>remove\<close> after the declared number of writes ends it with \<open>OutOfWrites\<close>.
\<close>

theorem quotas_enforced:
  assumes "metered_engine W"
    and "enters_main W C code raw fuel mr mw g ex st"
    and "guest_trace W (host_dispatch blake2 C)
      (g, \<lparr>store_data = new_store st mr mw, exports = ex\<rparr>, unat fuel) tr (g1, c1, f1)"
    and "resume W g1 (exports c1) f1 = (HostCall hc g2, ex2, f2)"
    and "args_readable hc (c1\<lparr>exports := ex2\<rparr>)"
    and "if is_read hc then n_reads tr = unat mr else n_writes tr = unat mw"
  shows "execute_code W C blake2 code raw fuel mr mw =
    Some (Err (if is_read hc then OutOfReads else OutOfWrites))"
proof -
  let ?c = "c1\<lparr>exports := ex2\<rparr>"
  have "length tr + f1 \<le> unat fuel" and "f2 < f1"
    using metered_engine.trace_fuel [OF assms(1,3)] metered_engine.call_costs [OF assms(1,4)]
    by simp_all
  then have "length tr + 1 < 4294967296"
    using unat_u32_less [of fuel] by linarith
  then have small: "n_reads tr + 1 < 4294967296" "n_writes tr + 1 < 4294967296"
    using n_reads_writes [of tr] by simp_all
  have counts: "curr_n_read (store_data c1) = word_of_nat (n_reads tr)"
    "curr_n_write (store_data c1) = word_of_nat (n_writes tr)"
    and limits: "max_n_read (store_data c1) = mr" "max_n_write (store_data c1) = mw"
    using kontracts.trace_reads [OF assms(3)] kontracts.trace_write_count [OF assms(3)]
      kontracts.trace_limits [OF assms(3)] by simp_all
  have over: "w < word_of_nat n + 1" if "n = unat w" and "n + 1 < 4294967296" for w :: u32 and n
  proof -
    have "unat (w + 1) = unat w + 1" using that by (simp add: unat_word_ariths)
    with that show ?thesis by (simp add: word_less_nat_alt)
  qed
  have "host_dispatch blake2 C hc ?c =
      (Err (if is_read hc then ''ExceededReads'' else ''ExceededWrites''), ?c)"
    using host_dispatch_read_refused [OF assms(5)] host_dispatch_write_refused [OF assms(5)]
      assms(6) over small counts limits by (cases "is_read hc") auto
  from drive_refused [OF assms(3,4) this] show ?thesis
    by (simp add: execute_code_main [OF assms(2)] trap_error_def)
qed

theorem quotas_enforced_witness:
  "execute_code (script_engine [5, 6] [CallRemove 0 1]) scale_ref id [] [0] 7 0 0 =
     Some (Err OutOfWrites)"
proof -
  let ?W = "script_engine [5, 6] [CallRemove 0 1]"
  let ?ex = "[''memory'' \<mapsto> Memory [5, 6 :: u8]]"
  let ?c = "\<lparr>store_data = new_store [] 0 0, exports = ?ex\<rparr>"
  have enter: "enters_main ?W scale_ref [] [0] 7 0 0 [CallRemove 0 1] ?ex []"
  proof -
    have "ref_dec_map [0] = Some []" by code_simp
    then show ?thesis by (simp add: enters_main_def script_engine_def)
  qed
  have trace: "guest_trace ?W (host_dispatch id scale_ref)
      ([CallRemove 0 1], ?c, unat (7 :: u32)) [] ([CallRemove 0 1], ?c, 7)"
    by (simp add: trace_nil)
  have call: "resume ?W [CallRemove 0 1] (exports ?c) 7 = (HostCall (CallRemove 0 1) [], ?ex, 6)"
    by (simp add: script_engine_def eval_nat_numeral)
  have args: "args_readable (CallRemove 0 1) (?c\<lparr>exports := ?ex\<rparr>)"
    by (simp add: read_vec_def get_from_def get_to_def)
  from quotas_enforced [OF script.metered_engine_axioms enter trace call args] show ?thesis
    by simp
qed

text \<open>
  A \<open>get\<close> that cannot be served: the key is readable and the quota holds, the value fits the size the
  guest declared, but its encoding is not one byte longer or does not fit into the memory.
\<close>

definition get_overflows ::
  "(bytes \<Rightarrow> bytes) \<Rightarrow> caller \<Rightarrow> u32 \<Rightarrow> u32 \<Rightarrow> u32 \<Rightarrow> u32 \<Rightarrow> bool" where
  "get_overflows blake2 c kp ks vp n \<longleftrightarrow>
     curr_n_read (store_data c) + 1 \<le> max_n_read (store_data c) \<and>
     (case (read_vec c kp ks, exports c ''memory'') of
        (Ok key, Some (Memory mem)) \<Rightarrow>
          let v = (case btree_get (storage (store_data c)) (blake2 key) of Some v \<Rightarrow> v | None \<Rightarrow> []) in
          length v \<le> unat n \<and> (64 \<le> length v \<or> length mem < unat vp + length v + 1)
      | _ \<Rightarrow> False)"

lemma env_get_panics:
  assumes "scale_codec C"
  shows "fst (env_get blake2 C kp ks vp n c) = Panic \<longleftrightarrow> get_overflows blake2 c kp ks vp n"
proof (cases "read_vec c kp ks")
  case (Ok key)
  obtain x c1 where get: "kontracts_get blake2 key c = (x, c1)" by (rule prod.exhaust)
  let ?v = "case btree_get (storage (store_data c)) (blake2 key) of Some v \<Rightarrow> v | None \<Rightarrow> []"
  show ?thesis
  proof (cases "curr_n_read (store_data c) + 1 \<le> max_n_read (store_data c)")
    case True
    with kontracts_get_result [OF get] have x: "x = Ok (btree_get (storage (store_data c)) (blake2 key))"
      and c1: "exports c1 = exports c" by simp_all
    have eq: "fst (env_get blake2 C kp ks vp n c) = fst (write_vec C ?v vp n c1)"
      using Ok get x by (simp add: env_get_def and_then_def)
    have "fst (write_vec C ?v vp n c1) = Panic \<longleftrightarrow> (\<exists>mem. exports c ''memory'' = Some (Memory mem) \<and>
        length ?v \<le> unat n \<and> (64 \<le> length ?v \<or> length mem < unat vp + length ?v + 1))"
    proof (cases "\<exists>mem. exports c ''memory'' = Some (Memory mem) \<and> length ?v \<le> unat n")
      case True
      then obtain mem where mem: "exports c1 ''memory'' = Some (Memory mem)" "length ?v \<le> unat n"
        using c1 by auto
      from scale_codec.write_vec_result [OF assms this, of vp] mem c1 show ?thesis by auto
    qed (auto simp: write_vec_def c1 split: option.split extern.split)
    with Ok True eq show ?thesis
      by (auto simp: get_overflows_def Let_def split: option.split extern.split)
  next
    case False
    with kontracts_get_result [OF get] Ok get show ?thesis
      by (simp add: env_get_def and_then_def get_overflows_def)
  qed
qed (auto simp: env_get_def and_then_def get_overflows_def)

lemma host_panics:
  assumes "scale_codec C"
  shows "(\<exists>c'. host_dispatch blake2 C hc c = (Panic, c')) \<longleftrightarrow>
    (\<exists>kp ks vp n. hc = CallGet kp ks vp n \<and> get_overflows blake2 c kp ks vp n)"
proof (cases hc)
  case (CallGet kp ks vp n)
  with env_get_panics [OF assms, of blake2 kp ks vp n c] show ?thesis
    by (metis fst_conv host_call.inject(2) host_dispatch.simps(2) prod.exhaust_sel)
qed (auto simp: env_set_def env_remove_def and_then_eq_Panic dest!: env_results split: if_splits)

text \<open>A run that reaches such a \<open>get\<close>.\<close>

definition reaches_overflow ::
  "('m, 'g) wasmtime \<Rightarrow> scale \<Rightarrow> (bytes \<Rightarrow> bytes) \<Rightarrow> 'm \<Rightarrow> kontract_store \<Rightarrow> nat \<Rightarrow> bool" where
  "reaches_overflow W C blake2 m d fuel \<longleftrightarrow>
     (\<exists>main tr g c f kp ks vp n g' ex f'.
        module_trace W (host_dispatch blake2 C) m d fuel main tr (g, c, f) \<and>
        resume W g (exports c) f = (HostCall (CallGet kp ks vp n) g', ex, f') \<and>
        get_overflows blake2 (c\<lparr>exports := ex\<rparr>) kp ks vp n)"

lemma stop_panics:
  assumes "scale_codec C"
  shows "(\<exists>c' f'. guest_stop W (host_dispatch blake2 C) (g, c, f) (Panic, c', f')) \<longleftrightarrow>
    (\<exists>kp ks vp n g' ex f'. resume W g (exports c) f = (HostCall (CallGet kp ks vp n) g', ex, f') \<and>
       get_overflows blake2 (c\<lparr>exports := ex\<rparr>) kp ks vp n)"
proof -
  have "(\<exists>c' f'. guest_stop W (host_dispatch blake2 C) (g, c, f) (Panic, c', f')) \<longleftrightarrow>
    (\<exists>hc g' ex f'. resume W g (exports c) f = (HostCall hc g', ex, f') \<and>
       (\<exists>c'. host_dispatch blake2 C hc (c\<lparr>exports := ex\<rparr>) = (Panic, c')))"
    by (simp add: guest_stop_simps) blast
  then show ?thesis unfolding host_panics [OF assms] by blast
qed

lemma reaches_overflow_trace:
  assumes "scale_codec C"
  shows "reaches_overflow W C blake2 m d fuel \<longleftrightarrow>
    (\<exists>main tr s c' f'. module_trace W (host_dispatch blake2 C) m d fuel main tr s \<and>
       guest_stop W (host_dispatch blake2 C) s (Panic, c', f'))"
proof -
  have "(\<exists>main tr s c' f'. module_trace W (host_dispatch blake2 C) m d fuel main tr s \<and>
      guest_stop W (host_dispatch blake2 C) s (Panic, c', f')) \<longleftrightarrow>
    (\<exists>main tr g c f. module_trace W (host_dispatch blake2 C) m d fuel main tr (g, c, f) \<and>
      (\<exists>c' f'. guest_stop W (host_dispatch blake2 C) (g, c, f) (Panic, c', f')))"
    by (simp only: split_paired_Ex) blast
  then show ?thesis unfolding stop_panics [OF assms] reaches_overflow_def by blast
qed

text \<open>
  What takes the host down, exactly: an execution panics if and only if, run on the caller's storage,
  quotas and fuel, the module reaches a \<open>get\<close> that cannot be served, or a completed run leaves a
  storage that no 32-bit length prefix can describe.
\<close>

lemma execute_code_panics:
  assumes "scale_codec C"
  shows "execute_code W C blake2 code raw fuel mr mw = Some Panic \<longleftrightarrow>
    host_ready W fuel \<and>
    (\<exists>m st. module_new W code = Some m \<and> dec_map C raw = Some st \<and>
       (reaches_overflow W C blake2 m (new_store st mr mw) (unat fuel) \<or>
        (\<exists>tr c'. completed_run W (host_dispatch blake2 C) m (new_store st mr mw) (unat fuel) tr c' \<and>
           \<not> encodable (storage (store_data c')))))"
    (is "?panics \<longleftrightarrow> ?causes")
proof
  note enc = scale_codec.map_format [OF assms]
  {
    assume ?panics
    then show ?causes
    proof (cases rule: execute_code_cases)
      case (run m st)
      from instantiate_and_call_cases [OF run(4)] obtain main tr s e where
        t: "module_trace W (host_dispatch blake2 C) m (new_store st mr mw) (unat fuel) main tr s"
          "guest_stop W (host_dispatch blake2 C) s e" "\<forall>g. fst e = Ok g \<longrightarrow> main"
        and res: "Panic = run_result C main e"
        by (elim disjE conjE exE) simp_all
      from run_result_Panic [OF res [symmetric]] obtain c f where
        "e = (Panic, c, f) \<or> (\<exists>g. e = (Ok g, c, f) \<and> enc_map C (storage (store_data c)) = None)"
        by blast
      then show ?thesis
      proof (elim disjE exE conjE)
        assume "e = (Panic, c, f)"
        with t have "reaches_overflow W C blake2 m (new_store st mr mw) (unat fuel)"
          unfolding reaches_overflow_trace [OF assms] by blast
        with run show ?thesis by blast
      next
        fix g
        assume e: "e = (Ok g, c, f)" and none: "enc_map C (storage (store_data c)) = None"
        with t have "completed_run W (host_dispatch blake2 C) m (new_store st mr mw) (unat fuel) tr c"
          by (auto intro: completed_runI)
        moreover have "\<not> encodable (storage (store_data c))"
          using none enc by (metis option.distinct(1))
        ultimately show ?thesis using run by blast
      qed
    qed simp
  next
    assume ?causes
    then obtain m st where ready: "host_ready W fuel" "module_new W code = Some m" "dec_map C raw = Some st"
      and cause: "reaches_overflow W C blake2 m (new_store st mr mw) (unat fuel) \<or>
        (\<exists>tr c'. completed_run W (host_dispatch blake2 C) m (new_store st mr mw) (unat fuel) tr c' \<and>
           \<not> encodable (storage (store_data c')))"
      by blast
    from cause have
      "instantiate_and_call W (host_dispatch blake2 C) C m (new_store st mr mw) (unat fuel) = Some Panic"
    proof (elim disjE exE conjE)
      assume "reaches_overflow W C blake2 m (new_store st mr mw) (unat fuel)"
      then obtain main tr s c' f' where
        "module_trace W (host_dispatch blake2 C) m (new_store st mr mw) (unat fuel) main tr s"
        "guest_stop W (host_dispatch blake2 C) s (Panic, c', f')"
        unfolding reaches_overflow_trace [OF assms] by blast
      from module_trace_result [OF this, of C] show ?thesis by simp
    next
      fix tr c'
      assume "completed_run W (host_dispatch blake2 C) m (new_store st mr mw) (unat fuel) tr c'"
        and "\<not> encodable (storage (store_data c'))"
      moreover from this have "enc_map C (storage (store_data c')) = None"
        using scale_codec.enc_map_encodable [OF assms] by (meson not_Some_eq)
      ultimately show ?thesis
        unfolding completed_module_trace using module_trace_result by fastforce
    qed
    with ready show ?panics by (simp add: execute_code_instantiate)
  }
qed

end
