(* ===== verification/Pallet.thy ===== *)
theory Pallet
  imports Executor
begin

text \<open>
  The pallet \<open>pallets/kontracts/src/lib.rs\<close>: its configuration, storage, events and errors, the four
  extrinsics and their weights. What the pallet takes from the runtime it is built into (origins,
  the code-id hash, the currency, the database weights, the SCALE codec and the host function
  \<open>execute_code\<close>) is the record \<open>runtime\<close>; each extrinsic maps a pallet state to an outcome and a new
  state. The contracts of what it takes are the locales of \<open>Pallet_Accounting\<close> and \<open>Pallet_Runtime\<close>.
\<close>

section \<open>Configuration, storage, events and errors\<close>

record pallet_config =
  max_number_contracts :: u32
  max_storage_value_size :: u32
  max_storage_key_size :: u32
  max_storage_size :: u32
  max_code_size :: u32

datatype ('id, 'acc) pallet_event =
    NewCodeUploaded 'id 'acc
  | CodeExecuted 'id 'acc
  | CodeDeleted 'id
  | CodeUpgraded 'id 'id
  | ExceededStorage 'id 'acc

datatype pallet_error =
    InvalidCodeId
  | ExecutionCode execution_error
  | ExceededFuel
  | WrongStorageEncoding
  | DepositError

text \<open>\<open>DispatchError\<close>: an origin check that failed, or an error of this pallet.\<close>

datatype dispatch_error = BadOrigin | Module pallet_error

record ('id, 'acc, 'bal) pallet_state =
  codes :: "'id \<rightharpoonup> bytes"
  storages :: "'id \<rightharpoonup> kv_storage"
  balances :: 'bal
  events :: "('id, 'acc) pallet_event list"

text \<open>\<open>Storages\<close> is a map with \<open>ValueQuery\<close>: an absent entry reads as the empty storage.\<close>

definition storages_get :: "('id, 'acc, 'bal) pallet_state \<Rightarrow> 'id \<Rightarrow> kv_storage" where
  "storages_get s code_id = (case storages s code_id of None \<Rightarrow> [] | Some m \<Rightarrow> m)"

text \<open>What the pallet takes from the runtime.\<close>

record ('o, 'acc, 'id, 'bal) runtime =
  config :: pallet_config
  signed_by :: "'o \<Rightarrow> 'acc option"
  is_root :: "'o \<Rightarrow> bool"
  code_hash :: "bytes \<Rightarrow> 'id"
  codec :: scale
  currency_reserve :: "'acc \<Rightarrow> nat \<Rightarrow> 'bal \<Rightarrow> 'bal option"
  currency_unreserve :: "'acc \<Rightarrow> nat \<Rightarrow> 'bal \<Rightarrow> 'bal"
  currency_slash :: "'acc \<Rightarrow> nat \<Rightarrow> 'bal \<Rightarrow> 'bal"
  db_reads_writes :: "u64 \<Rightarrow> u64 \<Rightarrow> u64"
  db_writes :: "u64 \<Rightarrow> u64"
  host_execute :: "bytes \<Rightarrow> bytes \<Rightarrow> u32 \<Rightarrow> u32 \<Rightarrow> u32 \<Rightarrow> (bytes, execution_error) outcome option"

type_synonym ('id, 'acc, 'bal) dispatch_result =
  "(unit, dispatch_error) outcome \<times> ('id, 'acc, 'bal) pallet_state"

section \<open>Extrinsics\<close>

definition upload_code ::
  "('o, 'acc, 'id, 'bal) runtime \<Rightarrow> 'o \<Rightarrow> bytes \<Rightarrow> ('id, 'acc, 'bal) pallet_state \<Rightarrow>
   ('id, 'acc, 'bal) dispatch_result" where
  "upload_code R origin code s =
     (case signed_by R origin of
        None \<Rightarrow> (Err BadOrigin, s)
      | Some who \<Rightarrow>
          let code_id = code_hash R code in
          (Ok (), s\<lparr>codes := (codes s)(code_id \<mapsto> code),
                    events := events s @ [NewCodeUploaded code_id who]\<rparr>))"

text \<open>
  The closure \<open>get_storage_size\<close>: the number of bytes after the compact length, cast to \<open>i32\<close>;
  the \<open>expect\<close> on the decoded length is the panic (\<open>None\<close>).
\<close>

definition get_storage_size :: "scale \<Rightarrow> bytes \<Rightarrow> i32 option" where
  "get_storage_size C raw =
     (case dec_compact C raw of
        None \<Rightarrow> None
      | Some (_, rest) \<Rightarrow> Some (word_of_nat (length rest)))"

text \<open>
  The \<open>match\<close> on the change in size, arm by arm. \<open>Ok True\<close> goes on to store the new storage,
  \<open>Ok False\<close> is the early \<open>return Ok(())\<close> of the last arm. The comparisons are signed, \<open>as u32\<close> keeps
  the bits.
\<close>

definition charge ::
  "('o, 'acc, 'id, 'bal) runtime \<Rightarrow> 'acc \<Rightarrow> 'id \<Rightarrow> i32 \<Rightarrow> i32 \<Rightarrow> ('id, 'acc, 'bal) pallet_state \<Rightarrow>
   (bool, dispatch_error) outcome \<times> ('id, 'acc, 'bal) pallet_state" where
  "charge R who code_id x expected_modified_storage s =
     (if x = 0 then (Ok True, s)
      else if x \<le>s expected_modified_storage \<and> x <s 0 then
        (Ok True, s\<lparr>balances := currency_unreserve R who (unat (x * -1)) (balances s)\<rparr>)
      else if x \<le>s expected_modified_storage then
        (case currency_reserve R who (unat x) (balances s) of
           None \<Rightarrow> (Err (Module DepositError), s)
         | Some b \<Rightarrow> (Ok True, s\<lparr>balances := b\<rparr>))
      else
        (Ok False, s\<lparr>balances := currency_slash R who (unat x) (balances s),
                     events := events s @ [ExceededStorage code_id who]\<rparr>))"

definition store_result ::
  "('o, 'acc, 'id, 'bal) runtime \<Rightarrow> 'acc \<Rightarrow> 'id \<Rightarrow> bytes \<Rightarrow> ('id, 'acc, 'bal) pallet_state \<Rightarrow>
   ('id, 'acc, 'bal) dispatch_result" where
  "store_result R who code_id new_storage_raw s =
     (case dec_bounded_map (codec R) (unat (max_storage_key_size (config R)))
        (unat (max_storage_value_size (config R))) (unat (max_storage_size (config R)))
        new_storage_raw of
        None \<Rightarrow> (Err (Module (ExecutionCode UnexpectedBehavoiur)), s)
      | Some st \<Rightarrow>
          (Ok (), s\<lparr>storages := (storages s)(code_id \<mapsto> st),
                    events := events s @ [CodeExecuted code_id who]\<rparr>))"

definition settle ::
  "('o, 'acc, 'id, 'bal) runtime \<Rightarrow> 'acc \<Rightarrow> 'id \<Rightarrow> i32 \<Rightarrow> i32 \<Rightarrow> i32 \<Rightarrow> bytes \<Rightarrow>
   ('id, 'acc, 'bal) pallet_state \<Rightarrow> ('id, 'acc, 'bal) dispatch_result" where
  "settle R who code_id old_size new_size expected_modified_storage new_storage_raw =
     and_then (charge R who code_id (new_size - old_size) expected_modified_storage)
       (\<lambda>go_on. if go_on then store_result R who code_id new_storage_raw else Pair (Ok ()))"

text \<open>
  \<open>execute_code\<close>; \<open>None\<close> is an execution that does not return. A panic of the host function or of
  an \<open>expect\<close> aborts the extrinsic with the state as it is.
\<close>

definition pallet_execute_code ::
  "('o, 'acc, 'id, 'bal) runtime \<Rightarrow> 'o \<Rightarrow> 'id \<Rightarrow> i32 \<Rightarrow> u32 \<Rightarrow> u32 \<Rightarrow> u32 \<Rightarrow>
   ('id, 'acc, 'bal) pallet_state \<Rightarrow> ('id, 'acc, 'bal) dispatch_result option" where
  "pallet_execute_code R origin code_id expected_modified_storage fuel expected_read expected_write s =
     (case signed_by R origin of
        None \<Rightarrow> Some (Err BadOrigin, s)
      | Some who \<Rightarrow>
     (case codes s code_id of
        None \<Rightarrow> Some (Err (Module InvalidCodeId), s)
      | Some code \<Rightarrow>
     (case enc_map (codec R) (storages_get s code_id) of
        None \<Rightarrow> Some (Panic, s)
      | Some old_storage_raw \<Rightarrow>
     (case get_storage_size (codec R) old_storage_raw of
        None \<Rightarrow> Some (Panic, s)
      | Some old_size \<Rightarrow>
     (case host_execute R code old_storage_raw fuel expected_read expected_write of
        None \<Rightarrow> None
      | Some Panic \<Rightarrow> Some (Panic, s)
      | Some (Err e) \<Rightarrow> Some (Err (Module (ExecutionCode e)), s)
      | Some (Ok new_storage_raw) \<Rightarrow>
     (case get_storage_size (codec R) new_storage_raw of
        None \<Rightarrow> Some (Panic, s)
      | Some new_size \<Rightarrow>
          Some (settle R who code_id old_size new_size expected_modified_storage
                  new_storage_raw s)))))))"

definition delete_code ::
  "('o, 'acc, 'id, 'bal) runtime \<Rightarrow> 'o \<Rightarrow> 'id \<Rightarrow> ('id, 'acc, 'bal) pallet_state \<Rightarrow>
   ('id, 'acc, 'bal) dispatch_result" where
  "delete_code R origin code_id s =
     (if \<not> is_root R origin then (Err BadOrigin, s)
      else (Ok (), s\<lparr>codes := (codes s)(code_id := None),
                     events := events s @ [CodeDeleted code_id]\<rparr>))"

definition update_code ::
  "('o, 'acc, 'id, 'bal) runtime \<Rightarrow> 'o \<Rightarrow> 'id \<Rightarrow> bytes \<Rightarrow> ('id, 'acc, 'bal) pallet_state \<Rightarrow>
   ('id, 'acc, 'bal) dispatch_result" where
  "update_code R origin old_code_id code s =
     (if \<not> is_root R origin then (Err BadOrigin, s)
      else
        let new_code_id = code_hash R code in
        (Ok (), s\<lparr>codes := ((codes s)(old_code_id := None))(new_code_id \<mapsto> code),
                  events := events s @ [CodeUpgraded old_code_id new_code_id]\<rparr>))"

lemmas pallet_call_simps [pallet_simps] =
  upload_code_def delete_code_def update_code_def Let_def

section \<open>Weights\<close>

text \<open>The \<open>#[pallet::weight]\<close> attributes, in \<open>u64\<close>.\<close>

definition upload_code_weight :: "('o, 'acc, 'id, 'bal) runtime \<Rightarrow> bytes \<Rightarrow> u64" where
  "upload_code_weight R code = 10000 + db_writes R 1 + 155 * word_of_nat (length code)"

definition execute_code_weight ::
  "('o, 'acc, 'id, 'bal) runtime \<Rightarrow> u32 \<Rightarrow> u32 \<Rightarrow> u32 \<Rightarrow> u64" where
  "execute_code_weight R fuel expected_read expected_write =
     10000 + db_reads_writes R (ucast expected_read) (ucast expected_write) + 100 * ucast fuel"

definition delete_code_weight :: u64 where
  "delete_code_weight = 0"

definition update_code_weight :: "('o, 'acc, 'id, 'bal) runtime \<Rightarrow> bytes \<Rightarrow> u64" where
  "update_code_weight R code = 10000 + db_writes R 1 + 155 * word_of_nat (length code)"

section \<open>The dispatchable call\<close>

datatype 'id call =
    UploadCode bytes
  | ExecuteCode 'id i32 u32 u32 u32
  | DeleteCode 'id
  | UpdateCode 'id bytes

text \<open>A \<open>BoundedVec\<close> argument that is too long does not decode as a call.\<close>

fun bounded_call :: "pallet_config \<Rightarrow> 'id call \<Rightarrow> bool" where
  "bounded_call cfg (UploadCode code) = (length code \<le> unat (max_code_size cfg))"
| "bounded_call cfg (UpdateCode i code) = (length code \<le> unat (max_code_size cfg))"
| "bounded_call cfg _ = True"

fun run_call ::
  "('o, 'acc, 'id, 'bal) runtime \<Rightarrow> 'o \<Rightarrow> 'id call \<Rightarrow> ('id, 'acc, 'bal) pallet_state \<Rightarrow>
   ('id, 'acc, 'bal) dispatch_result option" where
  "run_call R origin (UploadCode code) s = Some (upload_code R origin code s)"
| "run_call R origin (ExecuteCode i x f r w) s = pallet_execute_code R origin i x f r w s"
| "run_call R origin (DeleteCode i) s = Some (delete_code R origin i s)"
| "run_call R origin (UpdateCode i code) s = Some (update_code R origin i code s)"

fun call_weight :: "('o, 'acc, 'id, 'bal) runtime \<Rightarrow> 'id call \<Rightarrow> u64" where
  "call_weight R (UploadCode code) = upload_code_weight R code"
| "call_weight R (ExecuteCode i x f r w) = execute_code_weight R f r w"
| "call_weight R (DeleteCode i) = delete_code_weight"
| "call_weight R (UpdateCode i code) = update_code_weight R code"

end
