(* ===== verification/Pallet_Accounting.thy ===== *)
theory Pallet_Accounting
  imports Pallet
begin

text \<open>
  The pallet's deposits. The locale \<open>reservable_currency\<close> states what FRAME documents of \<open>reserve\<close>,
  \<open>unreserve\<close> and \<open>slash\<close>; \<open>liquid_currency\<close> adds what holds without locks and existential deposit,
  as in the mock runtime. The lemmas give the \<open>match\<close> of \<open>execute_code\<close> over the integers: sizes are \<open>i32\<close>,
  and below \<open>2^31\<close> bytes the wrapping subtraction, the signed comparisons and the casts are exact.
\<close>

section \<open>The currency\<close>

locale reservable_currency =
  fixes reserve :: "'acc \<Rightarrow> nat \<Rightarrow> 'bal \<Rightarrow> 'bal option"
    and unreserve :: "'acc \<Rightarrow> nat \<Rightarrow> 'bal \<Rightarrow> 'bal"
    and slash :: "'acc \<Rightarrow> nat \<Rightarrow> 'bal \<Rightarrow> 'bal"
    and free :: "'bal \<Rightarrow> 'acc \<Rightarrow> nat"
    and reserved :: "'bal \<Rightarrow> 'acc \<Rightarrow> nat"
  assumes reserve_moves: "reserve who v b = Some b' \<Longrightarrow>
      v \<le> free b who \<and> free b' who = free b who - v \<and> reserved b' who = reserved b who + v"
    and reserve_others: "reserve who v b = Some b' \<Longrightarrow> a \<noteq> who \<Longrightarrow>
      free b' a = free b a \<and> reserved b' a = reserved b a"
    and unreserve_moves: "reserved (unreserve who v b) who = reserved b who - min v (reserved b who) \<and>
      free (unreserve who v b) who = free b who + min v (reserved b who)"
    and unreserve_others: "a \<noteq> who \<Longrightarrow>
      free (unreserve who v b) a = free b a \<and> reserved (unreserve who v b) a = reserved b a"
    and slash_takes: "free (slash who v b) who \<le> free b who \<and>
      reserved (slash who v b) who \<le> reserved b who \<and>
      free b who + reserved b who \<le> free (slash who v b) who + reserved (slash who v b) who + v"
    and slash_others: "a \<noteq> who \<Longrightarrow>
      free (slash who v b) a = free b a \<and> reserved (slash who v b) a = reserved b a"
begin

lemma reserve_total: "reserve who v b = Some b' \<Longrightarrow>
  free b' a + reserved b' a = free b a + reserved b a"
  using reserve_moves [of who v b b'] reserve_others [of who v b b' a] by (cases "a = who") auto

lemma unreserve_total:
  "free (unreserve who v b) a + reserved (unreserve who v b) a = free b a + reserved b a"
  using unreserve_moves [of who v b] unreserve_others [of a who v b]
  by (cases "a = who") (auto simp: min_def)

end

locale liquid_currency = reservable_currency +
  assumes reserve_succeeds: "v \<le> free b who \<Longrightarrow> reserve who v b \<noteq> None"
    and slash_free_first: "v \<le> free b who \<Longrightarrow>
      free (slash who v b) who = free b who - v \<and> reserved (slash who v b) who = reserved b who"

text \<open>A ledger of free and reserved amounts, the instance the witnesses run on.\<close>

type_synonym 'acc ledger = "'acc \<Rightarrow> nat \<times> nat"

definition ledger_reserve :: "'acc \<Rightarrow> nat \<Rightarrow> 'acc ledger \<Rightarrow> 'acc ledger option" where
  "ledger_reserve who v b =
     (if v \<le> fst (b who) then Some (b(who := (fst (b who) - v, snd (b who) + v))) else None)"

definition ledger_unreserve :: "'acc \<Rightarrow> nat \<Rightarrow> 'acc ledger \<Rightarrow> 'acc ledger" where
  "ledger_unreserve who v b =
     (let m = min v (snd (b who)) in b(who := (fst (b who) + m, snd (b who) - m)))"

definition ledger_slash :: "'acc \<Rightarrow> nat \<Rightarrow> 'acc ledger \<Rightarrow> 'acc ledger" where
  "ledger_slash who v b =
     b(who := (fst (b who) - v, snd (b who) - (v - fst (b who))))"

interpretation ledger: liquid_currency ledger_reserve ledger_unreserve ledger_slash
    "\<lambda>b a. fst (b a)" "\<lambda>b a. snd (b a)"
  by unfold_locales
    (auto simp: ledger_reserve_def ledger_unreserve_def ledger_slash_def Let_def
      split: if_splits)

section \<open>i32 arithmetic on sizes\<close>

lemma sint_small: "n < 2147483648 \<Longrightarrow> sint (word_of_nat n :: i32) = int n"
  by (simp add: signed_of_nat signed_take_bit_int_eq_self)

lemma sint_of_int_small:
  "- 2147483648 \<le> k \<Longrightarrow> k < 2147483648 \<Longrightarrow> sint (word_of_int k :: i32) = k"
  by (simp add: signed_of_int signed_take_bit_int_eq_self)

lemma sint_diff_small:
  assumes "a < 2147483648" and "b < 2147483648"
  shows "sint (word_of_nat b - word_of_nat a :: i32) = int b - int a"
  using sint_of_int_small [of "int b - int a"] assms by simp

lemma sub_eq_0_small:
  assumes "a < 2147483648" and "b < 2147483648"
  shows "(word_of_nat b - word_of_nat a :: i32) = 0 \<longleftrightarrow> a = b"
  using sint_diff_small [OF assms] by (metis of_nat_eq_iff right_minus_eq sint_0)

lemma unat_diff_small:
  assumes "a < 4294967296" and "b < 4294967296"
  shows "a \<le> b \<Longrightarrow> unat (word_of_nat b - word_of_nat a :: i32) = b - a"
    and "b < a \<Longrightarrow> unat (word_of_nat b - word_of_nat a :: i32) = 4294967296 - (a - b)"
proof -
  assume "a \<le> b"
  then have "(word_of_nat b - word_of_nat a :: i32) = word_of_nat (b - a)"
    by (simp add: of_nat_diff)
  then show "unat (word_of_nat b - word_of_nat a :: i32) = b - a"
    using assms by (simp add: unat_u32_of_nat del: of_nat_diff)
next
  assume "b < a"
  have "(word_of_nat b - word_of_nat a :: i32) =
      word_of_nat b - word_of_nat a + word_of_nat 4294967296"
    by simp
  also have "\<dots> = word_of_nat (4294967296 - (a - b))"
    using \<open>b < a\<close> assms by (subst of_nat_diff) (simp_all add: of_nat_diff)
  finally show "unat (word_of_nat b - word_of_nat a :: i32) = 4294967296 - (a - b)"
    using \<open>b < a\<close> by (simp add: unat_u32_of_nat del: of_nat_diff)
qed

lemma unat_negated_diff_small:
  assumes "a < 4294967296" and "b \<le> a"
  shows "unat ((word_of_nat b - word_of_nat a) * -1 :: i32) = a - b"
proof -
  have "((word_of_nat b - word_of_nat a) * -1 :: i32) = word_of_nat (a - b)"
    using assms(2) by (simp add: of_nat_diff)
  then show ?thesis using assms by (simp add: unat_u32_of_nat del: of_nat_diff)
qed

section \<open>What a change of size costs\<close>

text \<open>
  The deposit policy over the integers: nothing for an unchanged size; within the declared change,
  a refund of what was freed or a deposit for what was added; beyond it a slash, of the bytes added
  or, for a storage that shrank less than declared, of \<open>2^32\<close> less the bytes freed.
\<close>

datatype fee = NoFee | Refund nat | Deposit nat | Penalty nat

definition storage_fee :: "nat \<Rightarrow> nat \<Rightarrow> int \<Rightarrow> fee" where
  "storage_fee old new declared =
     (if new = old then NoFee
      else if declared < int new - int old then
        Penalty (if old < new then new - old else 4294967296 - (old - new))
      else if new < old then Refund (old - new)
      else Deposit (new - old))"

fun pay ::
  "('o, 'acc, 'id, 'bal) runtime \<Rightarrow> 'acc \<Rightarrow> 'id \<Rightarrow> fee \<Rightarrow> ('id, 'acc, 'bal) pallet_state \<Rightarrow>
   (bool, dispatch_error) outcome \<times> ('id, 'acc, 'bal) pallet_state" where
  "pay R who code_id NoFee s = (Ok True, s)"
| "pay R who code_id (Refund v) s =
     (Ok True, s\<lparr>balances := currency_unreserve R who v (balances s)\<rparr>)"
| "pay R who code_id (Deposit v) s =
     (case currency_reserve R who v (balances s) of
        None \<Rightarrow> (Err (Module DepositError), s)
      | Some b \<Rightarrow> (Ok True, s\<lparr>balances := b\<rparr>))"
| "pay R who code_id (Penalty v) s =
     (Ok False, s\<lparr>balances := currency_slash R who v (balances s),
                  events := events s @ [ExceededStorage code_id who]\<rparr>)"

text \<open>The \<open>match\<close> of \<open>execute_code\<close> on word differences is the policy on sizes.\<close>

lemma charge_small:
  assumes "old < 2147483648" and "new < 2147483648"
  shows "charge R who code_id (word_of_nat new - word_of_nat old) x s =
    pay R who code_id (storage_fee old new (sint x)) s"
proof -
  note facts = sub_eq_0_small [OF assms] sint_diff_small [OF assms]
    unat_diff_small [of old new] unat_negated_diff_small [of old new]
  show ?thesis
    using assms facts
    by (cases "old < new"; cases "new = old")
       (auto simp: charge_def storage_fee_def word_sle_eq word_sless_alt split: option.splits)
qed

lemma storage_fee_bounds:
  assumes "old < 2147483648" and "new < 2147483648" and "storage_fee old new d = Penalty v"
  shows "0 < v \<and> v < 4294967296"
  using assms by (auto simp: storage_fee_def split: if_splits)

text \<open>
  C6. The deposit arithmetic is exact below 2 GiB: for storages of fewer than \<open>2^31\<close> bytes the
  wrapping \<open>i32\<close> subtraction, the signed guards and the \<open>as u32\<close> casts of \<open>execute_code\<close> implement the
  deposit policy \<open>storage_fee\<close> over the integers, for every declared change.
\<close>

theorem charge_refines:
  assumes "old < 2147483648" and "new < 2147483648"
  shows "charge R who code_id (word_of_nat new - word_of_nat old) x s =
    pay R who code_id (storage_fee old new (sint x)) s"
  using assms by (rule charge_small)

section \<open>A runtime on the reference ledger\<close>

text \<open>
  A runtime whose accounts are numbers, where the absent account is the root origin, codes are their
  own ids, and the host function is the argument: the instance the witnesses run on.
\<close>

definition ledger_runtime ::
  "pallet_config \<Rightarrow>
   (bytes \<Rightarrow> bytes \<Rightarrow> u32 \<Rightarrow> u32 \<Rightarrow> u32 \<Rightarrow> (bytes, execution_error) outcome option) \<Rightarrow>
   (nat option, nat, bytes, nat ledger) runtime" where
  "ledger_runtime cfg exec =
     \<lparr>config = cfg, signed_by = id, is_root = (\<lambda>origin. origin = None), code_hash = id,
      codec = scale_ref, currency_reserve = ledger_reserve, currency_unreserve = ledger_unreserve,
      currency_slash = ledger_slash,
      db_reads_writes = (\<lambda>r w. 25000000 * r + 100000000 * w),
      db_writes = (\<lambda>w. 100000000 * w),
      host_execute = exec\<rparr>"

lemma ledger_runtime_sel [simp]:
  "config (ledger_runtime cfg exec) = cfg" "signed_by (ledger_runtime cfg exec) = id"
  "is_root (ledger_runtime cfg exec) origin = (origin = None)"
  "code_hash (ledger_runtime cfg exec) = id" "codec (ledger_runtime cfg exec) = scale_ref"
  "currency_reserve (ledger_runtime cfg exec) = ledger_reserve"
  "currency_unreserve (ledger_runtime cfg exec) = ledger_unreserve"
  "currency_slash (ledger_runtime cfg exec) = ledger_slash"
  "db_reads_writes (ledger_runtime cfg exec) r w = 25000000 * r + 100000000 * w"
  "db_writes (ledger_runtime cfg exec) w = 100000000 * w"
  "host_execute (ledger_runtime cfg exec) = exec"
  by (simp_all add: ledger_runtime_def)

text \<open>The configuration of \<open>mock.rs\<close>, and a state in which one account has a free balance.\<close>

definition test_config :: pallet_config where
  "test_config =
     \<lparr>max_number_contracts = 5, max_storage_value_size = 512, max_storage_key_size = 512,
      max_storage_size = 1024, max_code_size = 1000000\<rparr>"

definition funded :: "nat \<Rightarrow> (bytes, nat, nat ledger) pallet_state" where
  "funded v = \<lparr>codes = Map.empty, storages = Map.empty,
     balances = (\<lambda>a. if a = 1 then (v, 0) else (0, 0)), events = []\<rparr>"

theorem charge_refines_witness:
  "storage_fee 47 39 (- 47) = Penalty 4294967288 \<and>
   charge (ledger_runtime test_config (\<lambda>_ _ _ _ _. None)) 1 [] (39 - 47) (- 47) (funded 47) =
     pay (ledger_runtime test_config (\<lambda>_ _ _ _ _. None)) 1 [] (Penalty 4294967288) (funded 47)"
proof -
  have "storage_fee 47 39 (sint (- 47 :: i32)) = Penalty 4294967288"
    by code_simp
  then show ?thesis
    using charge_refines [of 47 39 "ledger_runtime test_config (\<lambda>_ _ _ _ _. None)" 1 "[]" "- 47"
        "funded 47"]
    by (simp add: storage_fee_def)
qed

end
