(* ===== verification/Pallet_Runtime.thy ===== *)
theory Pallet_Runtime
  imports Pallet_Accounting
begin

text \<open>
  The extrinsic \<open>execute_code\<close> over the contract of what it calls. The locale \<open>pallet_runtime\<close> says
  what the pallet needs of the codec and of the host function (a result is an encoded, well-formed
  storage); \<open>link_executor\<close> puts the executor of \<open>kontracts-executor\<close> into a runtime, as
  \<open>runtime_interface\<close> does, and the locale is interpreted on it. The properties give the outcome of
  an execution on every branch: what is stored, what is paid, what an error leaves behind.
\<close>

section \<open>The contract between the pallet and the host function\<close>

text \<open>A storage the pallet can have stored, and a configuration whose storages stay below 2 GiB.\<close>

definition storage_ok :: "pallet_config \<Rightarrow> kv_storage \<Rightarrow> bool" where
  "storage_ok cfg m \<longleftrightarrow> btree_wf m \<and>
     within_bounds (unat (max_storage_key_size cfg)) (unat (max_storage_value_size cfg))
       (unat (max_storage_size cfg)) m"

definition config_fits :: "pallet_config \<Rightarrow> bool" where
  "config_fits cfg \<longleftrightarrow>
     unat (max_storage_key_size cfg) < 16384 \<and> unat (max_storage_value_size cfg) < 16384 \<and>
     unat (max_storage_size cfg) *
       (4 + unat (max_storage_key_size cfg) + unat (max_storage_value_size cfg)) < 2147483648"

lemma storage_ok_Nil [simp]: "storage_ok cfg []"
  by (simp add: storage_ok_def)

lemma storage_ok_encodable: "storage_ok cfg m \<Longrightarrow> encodable m"
  unfolding storage_ok_def by (auto intro: within_bounds_encodable)

lemma storage_ok_size: "config_fits cfg \<Longrightarrow> storage_ok cfg m \<Longrightarrow> entries_size m < 2147483648"
  unfolding storage_ok_def config_fits_def using entries_size_bound by fastforce

locale pallet_runtime =
  fixes R :: "('o, 'acc, 'id, 'bal) runtime"
  assumes codec_laws: "scale_codec (codec R)"
    and result_encoded: "host_execute R code raw fuel reads writes = Some (Ok raw') \<Longrightarrow>
      \<exists>m. btree_wf m \<and> enc_map (codec R) m = Some raw'"
begin

lemma size_encoded:
  "enc_map (codec R) m = Some raw \<Longrightarrow>
   get_storage_size (codec R) raw = Some (word_of_nat (entries_size m))"
  using scale_codec.dec_compact_map [OF codec_laws]
    scale_codec.entries_length [OF codec_laws] scale_codec.enc_map_encodable [OF codec_laws]
  by (simp add: get_storage_size_def)

lemma encoded_old: "storage_ok cfg m \<Longrightarrow> \<exists>raw. enc_map (codec R) m = Some raw"
  using scale_codec.map_format [OF codec_laws] storage_ok_encodable by auto

lemma store_encoded:
  assumes "btree_wf m" and "enc_map (codec R) m = Some raw"
  shows "store_result R who code_id raw s =
    (if storage_ok (config R) m
     then (Ok (), s\<lparr>storages := (storages s)(code_id \<mapsto> m),
                    events := events s @ [CodeExecuted code_id who]\<rparr>)
     else (Err (Module (ExecutionCode UnexpectedBehavoiur)), s))"
  using assms scale_codec.bounded_map [OF codec_laws assms]
  by (simp add: store_result_def storage_ok_def)

end

definition link_executor ::
  "('m, 'g) wasmtime \<Rightarrow> (bytes \<Rightarrow> bytes) \<Rightarrow> ('o, 'acc, 'id, 'bal) runtime \<Rightarrow>
   ('o, 'acc, 'id, 'bal) runtime" where
  "link_executor W blake2 R = R\<lparr>host_execute := execute_code W (codec R) blake2\<rparr>"

lemma link_executor_sel [simp]:
  "config (link_executor W b R) = config R" "signed_by (link_executor W b R) = signed_by R"
  "is_root (link_executor W b R) = is_root R" "code_hash (link_executor W b R) = code_hash R"
  "codec (link_executor W b R) = codec R"
  "currency_reserve (link_executor W b R) = currency_reserve R"
  "currency_unreserve (link_executor W b R) = currency_unreserve R"
  "currency_slash (link_executor W b R) = currency_slash R"
  "host_execute (link_executor W b R) = execute_code W (codec R) b"
  by (simp_all add: link_executor_def)

lemma linked_runtime: "scale_codec (codec R) \<Longrightarrow> pallet_runtime (link_executor W blake2 R)"
  by (rule pallet_runtime.intro) (auto dest: execute_code_encoded)

interpretation linked: pallet_runtime
    "link_executor W blake2 (ledger_runtime cfg exec)" for W blake2 cfg exec
  by (rule linked_runtime) (simp add: scale_ref.scale_codec_axioms)

section \<open>The outcome of an execution\<close>

text \<open>The extrinsic up to the host function: what each early exit leaves.\<close>

lemma execute_not_signed:
  "signed_by R origin = None \<Longrightarrow>
   pallet_execute_code R origin i x fuel reads writes s = Some (Err BadOrigin, s)"
  by (simp add: pallet_execute_code_def)

lemma execute_no_code:
  "signed_by R origin = Some who \<Longrightarrow> codes s i = None \<Longrightarrow>
   pallet_execute_code R origin i x fuel reads writes s = Some (Err (Module InvalidCodeId), s)"
  by (simp add: pallet_execute_code_def)

lemmas execute_exits = execute_not_signed execute_no_code

context pallet_runtime
begin

lemma execute_host:
  assumes "signed_by R origin = Some who" and "codes s i = Some code"
    and "enc_map (codec R) (storages_get s i) = Some raw"
  shows "pallet_execute_code R origin i x fuel reads writes s =
    (case host_execute R code raw fuel reads writes of
       None \<Rightarrow> None
     | Some Panic \<Rightarrow> Some (Panic, s)
     | Some (Err e) \<Rightarrow> Some (Err (Module (ExecutionCode e)), s)
     | Some (Ok raw') \<Rightarrow>
         (case get_storage_size (codec R) raw' of
            None \<Rightarrow> Some (Panic, s)
          | Some new_size \<Rightarrow>
              Some (settle R who i (word_of_nat (entries_size (storages_get s i))) new_size x raw' s)))"
  using assms size_encoded [OF assms(3)] by (simp add: pallet_execute_code_def)

lemma execute_committed:
  assumes "signed_by R origin = Some who" and "codes s i = Some code"
    and "enc_map (codec R) (storages_get s i) = Some raw"
    and "host_execute R code raw fuel reads writes = Some (Ok raw')"
    and "btree_wf new" and "enc_map (codec R) new = Some raw'"
  shows "pallet_execute_code R origin i x fuel reads writes s =
    Some (and_then (charge R who i
        (word_of_nat (entries_size new) - word_of_nat (entries_size (storages_get s i))) x)
      (\<lambda>go_on s'. if \<not> go_on then (Ok (), s')
        else if storage_ok (config R) new then
          (Ok (), s'\<lparr>storages := (storages s')(i \<mapsto> new),
                    events := events s' @ [CodeExecuted i who]\<rparr>)
        else (Err (Module (ExecutionCode UnexpectedBehavoiur)), s')) s)"
  using assms(4) size_encoded [OF assms(6)] store_encoded [OF assms(5,6)]
  by (auto simp: execute_host [OF assms(1-3)] settle_def and_then_def split: prod.split outcome.split)

lemma execute_outcome:
  assumes "config_fits (config R)"
    and "signed_by R origin = Some who" and "codes s i = Some code"
    and "storage_ok (config R) (storages_get s i)"
    and "enc_map (codec R) (storages_get s i) = Some raw"
    and "host_execute R code raw fuel reads writes = Some (Ok raw')"
    and "btree_wf new" and "enc_map (codec R) new = Some raw'" and "entries_size new < 2147483648"
  shows "pallet_execute_code R origin i x fuel reads writes s =
    Some (case pay R who i
        (storage_fee (entries_size (storages_get s i)) (entries_size new) (sint x)) s of
       (Ok True, s') \<Rightarrow>
         if storage_ok (config R) new then
           (Ok (), s'\<lparr>storages := (storages s)(i \<mapsto> new),
                     events := events s @ [CodeExecuted i who]\<rparr>)
         else (Err (Module (ExecutionCode UnexpectedBehavoiur)), s')
     | (Ok False, s') \<Rightarrow> (Ok (), s')
     | (Err e, s') \<Rightarrow> (Err e, s')
     | (Panic, s') \<Rightarrow> (Panic, s'))"
proof -
  have "entries_size (storages_get s i) < 2147483648"
    using assms(1,4) by (rule storage_ok_size)
  from charge_small [OF this assms(9), of R who i x s] show ?thesis
    by (cases "storage_fee (entries_size (storages_get s i)) (entries_size new) (sint x)")
       (auto simp: execute_committed [OF assms(2,3,5,6,7,8)] and_then_def split: option.split)
qed

end

text \<open>
  C1. What a successful run of a kontract commits: for storages below 2 GiB, \<open>execute_code\<close> pays the
  fee of the deposit policy for the change between the stored and the new entries; a declined
  deposit and a penalty keep the old storage (the penalty is not an error), and otherwise the new
  storage replaces the old one when it is within the bounds of the configuration and is refused
  with \<open>UnexpectedBehavoiur\<close>, after the fee was paid, when it is not.
\<close>

theorem execute_code_outcome:
  assumes "pallet_runtime R" and "config_fits (config R)"
    and "signed_by R origin = Some who" and "codes s i = Some code"
    and "storage_ok (config R) (storages_get s i)"
    and "enc_map (codec R) (storages_get s i) = Some raw"
    and "host_execute R code raw fuel reads writes = Some (Ok raw')"
    and "btree_wf new" and "enc_map (codec R) new = Some raw'" and "entries_size new < 2147483648"
  shows "pallet_execute_code R origin i x fuel reads writes s =
    Some (case pay R who i
        (storage_fee (entries_size (storages_get s i)) (entries_size new) (sint x)) s of
       (Ok True, s') \<Rightarrow>
         if storage_ok (config R) new then
           (Ok (), s'\<lparr>storages := (storages s)(i \<mapsto> new),
                     events := events s @ [CodeExecuted i who]\<rparr>)
         else (Err (Module (ExecutionCode UnexpectedBehavoiur)), s')
     | (Ok False, s') \<Rightarrow> (Ok (), s')
     | (Err e, s') \<Rightarrow> (Err e, s')
     | (Panic, s') \<Rightarrow> (Panic, s'))"
  using assms by (rule pallet_runtime.execute_outcome)

text \<open>A kontract of one unit, linked into the test configuration, for the witnesses.\<close>

definition demo_runtime :: "bytes \<Rightarrow> host_call list \<Rightarrow> (nat option, nat, bytes, nat ledger) runtime"
  where
  "demo_runtime mem calls =
     link_executor (script_engine mem calls) id (ledger_runtime test_config (\<lambda>_ _ _ _ _. None))"

definition demo_state :: "nat \<Rightarrow> kv_storage \<Rightarrow> (bytes, nat, nat ledger) pallet_state" where
  "demo_state v st = (funded v)\<lparr>codes := [[7] \<mapsto> [7]], storages := [[7] \<mapsto> st]\<rparr>"

lemma demo_runtime_ok: "pallet_runtime (demo_runtime mem calls)"
  unfolding demo_runtime_def by (rule linked.pallet_runtime_axioms)

lemma test_config_fits: "config_fits test_config"
  by code_simp

lemma demo_sel [simp]:
  "config (demo_runtime mem calls) = test_config" "signed_by (demo_runtime mem calls) = id"
  "is_root (demo_runtime mem calls) origin = (origin = None)"
  "code_hash (demo_runtime mem calls) = id" "codec (demo_runtime mem calls) = scale_ref"
  "currency_reserve (demo_runtime mem calls) = ledger_reserve"
  "currency_unreserve (demo_runtime mem calls) = ledger_unreserve"
  "currency_slash (demo_runtime mem calls) = ledger_slash"
  "host_execute (demo_runtime mem calls) = execute_code (script_engine mem calls) scale_ref id"
  "codes (demo_state v st) = [[7] \<mapsto> [7]]" "storages (demo_state v st) = [[7] \<mapsto> st]"
  "storages_get (demo_state v st) [7] = st" "events (demo_state v st) = []"
  "balances (demo_state v st) = (\<lambda>a. if a = 1 then (v, 0) else (0, 0))"
  by (simp_all add: demo_runtime_def demo_state_def funded_def storages_get_def)

theorem execute_code_outcome_witness:
  "\<exists>s'. pallet_execute_code (demo_runtime [5, 6] [CallSet 0 1 1 1]) (Some 1) [7] 10 5 0 1
      (demo_state 47 []) = Some (Ok (), s') \<and> storages s' [7] = Some [([5], [6])] \<and>
    balances s' 1 = (43, 4) \<and> events s' = [CodeExecuted [7] 1]"
proof -
  have run: "host_execute (demo_runtime [5, 6] [CallSet 0 1 1 1]) [7] [0] 5 0 1 =
      Some (Ok [4, 4, 5, 4, 6])"
    unfolding demo_sel by code_simp
  have enc: "enc_map (codec (demo_runtime [5, 6] [CallSet 0 1 1 1]))
        (storages_get (demo_state 47 []) [7]) = Some [0]"
      "enc_map (codec (demo_runtime [5, 6] [CallSet 0 1 1 1])) [([5], [6])] =
        Some [4, 4, 5, 4, 6]"
    unfolding demo_sel by code_simp+
  have new: "storage_ok test_config [([5], [6])]" "entries_size [([5], [6])] = 4"
    "storage_fee 0 4 (sint (10 :: i32)) = Deposit 4"
    by code_simp+
  show ?thesis
    using execute_code_outcome [of "demo_runtime [5, 6] [CallSet 0 1 1 1]" "Some 1" 1
        "demo_state 47 []" "[7]" "[7]" "[0]" 5 0 1 "[4, 4, 5, 4, 6]" "[([5], [6])]" 10,
        OF demo_runtime_ok _ _ _ _ enc(1) run _ enc(2)]
      test_config_fits new
    by (simp add: ledger_reserve_def)
qed

text \<open>
  C11. A kontract that frees less than the user declared is not refunded but ruined: when a run
  leaves a storage smaller than before, by fewer bytes than declared, the pallet reports success,
  keeps the old storage and slashes the caller by \<open>2^32\<close> less the bytes freed.
\<close>

theorem under_declared_free_is_slashed:
  assumes "pallet_runtime R" and "config_fits (config R)"
    and "signed_by R origin = Some who" and "codes s i = Some code"
    and "storage_ok (config R) (storages_get s i)"
    and "enc_map (codec R) (storages_get s i) = Some raw"
    and "host_execute R code raw fuel reads writes = Some (Ok raw')"
    and "btree_wf new" and "enc_map (codec R) new = Some raw'"
    and "entries_size new < entries_size (storages_get s i)"
    and "sint x < int (entries_size new) - int (entries_size (storages_get s i))"
  shows "\<exists>s'. pallet_execute_code R origin i x fuel reads writes s = Some (Ok (), s') \<and>
    storages s' = storages s \<and> codes s' = codes s \<and>
    balances s' = currency_slash R who
      (4294967296 - (entries_size (storages_get s i) - entries_size new)) (balances s) \<and>
    events s' = events s @ [ExceededStorage i who]"
proof -
  have "entries_size new < 2147483648"
    using storage_ok_size [OF assms(2,5)] assms(10) by simp
  from pallet_runtime.execute_outcome [OF assms(1-9) this, of x] assms(10,11) show ?thesis
    by (simp add: storage_fee_def)
qed

theorem under_declared_free_is_slashed_witness:
  "\<exists>s'. pallet_execute_code (demo_runtime [5, 6] [CallRemove 0 1]) (Some 1) [7] (- 8) 5 0 1
      (demo_state 5000000000 [([5], [6])]) = Some (Ok (), s') \<and>
    storages s' [7] = Some [([5], [6])] \<and> balances s' 1 = (5000000000 - 4294967292, 0)"
proof -
  let ?R = "demo_runtime [5, 6] [CallRemove 0 1]" and ?s = "demo_state 5000000000 [([5], [6])]"
  have run: "host_execute ?R [7] [4, 4, 5, 4, 6] 5 0 1 = Some (Ok [0])"
    unfolding demo_sel by code_simp
  have enc: "enc_map (codec ?R) (storages_get ?s [7]) = Some [4, 4, 5, 4, 6]"
      "enc_map (codec ?R) [] = Some [0]"
    unfolding demo_sel by code_simp+
  have facts: "storage_ok test_config [([5], [6])]" "entries_size [([5], [6])] = 4"
    "sint (- 8 :: i32) = - 8"
    by code_simp+
  show ?thesis
    using under_declared_free_is_slashed [of ?R "Some 1" 1 ?s "[7]" "[7]" "[4, 4, 5, 4, 6]" 5 0 1
        "[0]" "[]" "- 8", OF demo_runtime_ok _ _ _ _ enc(1) run _ enc(2)]
      test_config_fits facts
    by (auto simp: ledger_slash_def)
qed

section \<open>Errors, panics and frames\<close>

lemma charge_result:
  "charge R who i d x s = (r, s') \<Longrightarrow>
   r \<in> {Ok True, Ok False, Err (Module DepositError)} \<and>
   codes s' = codes s \<and> storages s' = storages s \<and>
   (r = Ok True \<longrightarrow> events s' = events s) \<and>
   (r = Ok False \<longrightarrow> events s' = events s @ [ExceededStorage i who]) \<and>
   (r = Err (Module DepositError) \<longrightarrow> s' = s)"
  by (auto simp: charge_def split: if_splits option.splits)

lemma store_result_cases:
  "store_result R who i raw s = (r, s') \<Longrightarrow>
   (\<exists>st. r = Ok () \<and> s' = s\<lparr>storages := (storages s)(i \<mapsto> st),
       events := events s @ [CodeExecuted i who]\<rparr> \<and>
     dec_bounded_map (codec R) (unat (max_storage_key_size (config R)))
       (unat (max_storage_value_size (config R))) (unat (max_storage_size (config R))) raw = Some st) \<or>
   (r = Err (Module (ExecutionCode UnexpectedBehavoiur)) \<and> s' = s)"
  by (auto simp: store_result_def split: option.splits)

lemma settle_cases:
  assumes "settle R who i old new x raw s = (r, s')"
  shows "(\<exists>st. r = Ok () \<and> codes s' = codes s \<and> storages s' = (storages s)(i \<mapsto> st) \<and>
      events s' = events s @ [CodeExecuted i who] \<and>
      dec_bounded_map (codec R) (unat (max_storage_key_size (config R)))
        (unat (max_storage_value_size (config R))) (unat (max_storage_size (config R))) raw = Some st) \<or>
    (r = Ok () \<and> codes s' = codes s \<and> storages s' = storages s \<and>
      events s' = events s @ [ExceededStorage i who]) \<or>
    (r = Err (Module DepositError) \<and> s' = s) \<or>
    (r = Err (Module (ExecutionCode UnexpectedBehavoiur)) \<and> (\<exists>b. s' = s\<lparr>balances := b\<rparr>))"
proof -
  obtain c s1 where charge: "charge R who i (new - old) x s = (c, s1)" by (rule prod.exhaust)
  note res = charge_result [OF charge]
  have "\<exists>b. s1 = s\<lparr>balances := b\<rparr>" if "c = Ok True"
    using res that by (intro exI [of _ "balances s1"]) (cases s; cases s1; simp)
  with res assms charge show ?thesis
    by (auto simp: settle_def and_then_def dest!: store_result_cases)
qed

text \<open>What \<open>execute_code\<close> can return at all, without any assumption on the runtime.\<close>

lemma execute_cases:
  assumes "pallet_execute_code R origin i x fuel reads writes s = Some (r, s')"
  shows "(signed_by R origin = None \<and> r = Err BadOrigin \<and> s' = s) \<or>
    (\<exists>who. signed_by R origin = Some who \<and>
      ((codes s i = None \<and> r = Err (Module InvalidCodeId) \<and> s' = s) \<or>
       (\<exists>code. codes s i = Some code \<and>
         ((r = Panic \<and> s' = s) \<or>
          (\<exists>raw e. host_execute R code raw fuel reads writes = Some (Err e) \<and>
             r = Err (Module (ExecutionCode e)) \<and> s' = s) \<or>
          (\<exists>raw raw' old new. host_execute R code raw fuel reads writes = Some (Ok raw') \<and>
             settle R who i old new x raw' s = (r, s'))))))"
  using assms
  by (auto simp: pallet_execute_code_def split: option.splits outcome.splits)

text \<open>
  C12. What an error of \<open>execute_code\<close> means and leaves behind, in every runtime: \<open>BadOrigin\<close> exactly
  for an unsigned origin, \<open>InvalidCodeId\<close> exactly for a signed call of an absent code, never
  \<open>ExceededFuel\<close> or \<open>WrongStorageEncoding\<close>; codes, storages and events are as before, and so are the
  balances unless the error is \<open>UnexpectedBehavoiur\<close>, which is raised after the fee was paid.
\<close>

theorem execute_code_error_frame:
  assumes "pallet_execute_code R origin i x fuel reads writes s = Some (Err e, s')"
  shows "(e = BadOrigin \<longleftrightarrow> signed_by R origin = None) \<and>
    (e = Module InvalidCodeId \<longleftrightarrow> signed_by R origin \<noteq> None \<and> codes s i = None) \<and>
    e \<noteq> Module ExceededFuel \<and> e \<noteq> Module WrongStorageEncoding \<and>
    codes s' = codes s \<and> storages s' = storages s \<and> events s' = events s \<and>
    (e \<noteq> Module (ExecutionCode UnexpectedBehavoiur) \<longrightarrow> s' = s)"
  using execute_cases [OF assms]
  by (elim disjE exE conjE) (auto dest!: settle_cases)

theorem execute_code_error_frame_witness:
  "pallet_execute_code (demo_runtime [] []) (Some 1) [8] 0 5 0 0 (demo_state 47 []) =
     Some (Err (Module InvalidCodeId), demo_state 47 []) \<and>
   codes (demo_state 47 []) [8] = None"
proof -
  have run: "pallet_execute_code (demo_runtime [] []) (Some 1) [8] 0 5 0 0 (demo_state 47 []) =
      Some (Err (Module InvalidCodeId), demo_state 47 [])"
    by (simp add: pallet_execute_code_def)
  from execute_code_error_frame [OF run] run show ?thesis by blast
qed

text \<open>
  C14. Isolation: an execution that succeeds changes no code and no storage but that of the executed
  code id, and deposits exactly one event, \<open>CodeExecuted\<close> when the storage entry is written and
  \<open>ExceededStorage\<close> when it is kept.
\<close>

theorem execute_code_isolated:
  assumes "pallet_execute_code R origin i x fuel reads writes s = Some (Ok (), s')"
  shows "\<exists>who. signed_by R origin = Some who \<and> codes s i \<noteq> None \<and> codes s' = codes s \<and>
    (\<forall>j. j \<noteq> i \<longrightarrow> storages s' j = storages s j) \<and>
    ((events s' = events s @ [CodeExecuted i who] \<and> storages s' i \<noteq> None) \<or>
     (events s' = events s @ [ExceededStorage i who] \<and> storages s' = storages s))"
  using execute_cases [OF assms]
  by (elim disjE exE conjE) (auto dest!: settle_cases)

theorem execute_code_isolated_witness:
  "\<exists>s'. pallet_execute_code (demo_runtime [] []) (Some 1) [7] 0 5 0 0
      (demo_state 47 []) = Some (Ok (), s') \<and> codes s' = codes (demo_state 47 [])"
proof -
  have run: "host_execute (demo_runtime [] []) [7] [0] 5 0 0 = Some (Ok [0])"
    unfolding demo_sel by code_simp
  have enc: "enc_map (codec (demo_runtime [] [])) [] = Some [0]"
    unfolding demo_sel by code_simp
  let ?s' = "(demo_state 47 [])\<lparr>storages := (storages (demo_state 47 []))([7] \<mapsto> []),
      events := [CodeExecuted [7] 1]\<rparr>"
  have ok: "pallet_execute_code (demo_runtime [] []) (Some 1) [7] 0 5 0 0 (demo_state 47 []) =
      Some (Ok (), ?s')"
    using pallet_runtime.execute_committed [OF demo_runtime_ok, of "[]" "[]" "Some 1" 1
        "demo_state 47 []" "[7]" "[7]" "[0]" 5 0 0 "[0]" "[]" 0] run enc
    by (simp add: and_then_def charge_def)
  from execute_code_isolated [OF ok] have "codes ?s' = codes (demo_state 47 [])" by blast
  with ok show ?thesis by (intro exI [of _ ?s'] conjI)
qed

text \<open>
  The extrinsic adds no panic of its own: over a stored storage, \<open>execute_code\<close> panics exactly when
  the host function panics, with the state unchanged; both \<open>expect\<close>s on the storage size hold.
\<close>

lemma execute_panics_with_host:
  assumes "pallet_runtime R" and "storage_ok (config R) (storages_get s i)"
  shows "pallet_execute_code R origin i x fuel reads writes s = Some (Panic, s') \<longleftrightarrow>
    s' = s \<and> signed_by R origin \<noteq> None \<and>
    (\<exists>code raw. codes s i = Some code \<and> enc_map (codec R) (storages_get s i) = Some raw \<and>
       host_execute R code raw fuel reads writes = Some Panic)"
proof (cases "signed_by R origin")
  case None
  then show ?thesis by (simp add: execute_exits)
next
  case who: (Some who)
  show ?thesis
  proof (cases "codes s i")
    case None
    with who show ?thesis by (simp add: execute_exits)
  next
    case (Some code)
    obtain raw where raw: "enc_map (codec R) (storages_get s i) = Some raw"
      using pallet_runtime.encoded_old [OF assms] by blast
    have sized: "get_storage_size (codec R) raw' \<noteq> None"
      if "host_execute R code raw fuel reads writes = Some (Ok raw')" for raw'
      using pallet_runtime.result_encoded [OF assms(1) that]
        pallet_runtime.size_encoded [OF assms(1)] by fastforce
    have settled: "settle R who i old new x raw' s \<noteq> (Panic, s')" for old new raw'
      using settle_cases [of R who i old new x raw' s Panic s'] by blast
    show ?thesis
    proof (cases "host_execute R code raw fuel reads writes")
      case None
      with who Some raw show ?thesis
        by (simp add: pallet_runtime.execute_host [OF assms(1) who Some raw])
    next
      case out: (Some out)
      show ?thesis
      proof (cases out)
        case (Ok raw')
        with out sized obtain n where "get_storage_size (codec R) raw' = Some n" by blast
        with settled who Some raw out Ok show ?thesis
          by (simp add: pallet_runtime.execute_host [OF assms(1) who Some raw])
      qed (use who Some raw out in
          \<open>auto simp: pallet_runtime.execute_host [OF assms(1) who Some raw]\<close>)
    qed
  qed
qed

text \<open>
  C15. What takes the node down, exactly: with the executor linked in, and over a stored storage, an
  \<open>execute_code\<close> extrinsic panics if and only if it is signed, names a stored code, the engine is
  ready, and the run of that code on that storage, with the declared quotas and fuel, reaches a \<open>get\<close>
  that cannot be served (\<open>get_overflows\<close>) or ends in a storage without encoding. The state is then
  unchanged; the pallet's own \<open>expect\<close>s never panic.
\<close>

theorem pallet_panics_exactly:
  assumes "scale_codec (codec R)" and "storage_ok (config R) (storages_get s i)"
  shows "pallet_execute_code (link_executor W blake2 R) origin i x fuel reads writes s =
      Some (Panic, s') \<longleftrightarrow>
    s' = s \<and> signed_by R origin \<noteq> None \<and> host_ready W fuel \<and>
    (\<exists>code m. codes s i = Some code \<and> module_new W code = Some m \<and>
       (reaches_overflow W (codec R) blake2 m (new_store (storages_get s i) reads writes) (unat fuel) \<or>
        (\<exists>tr c'. completed_run W (host_dispatch blake2 (codec R)) m
           (new_store (storages_get s i) reads writes) (unat fuel) tr c' \<and>
           \<not> encodable (storage (store_data c')))))"
proof -
  have wf: "btree_wf (storages_get s i)" using assms(2) by (simp add: storage_ok_def)
  obtain raw where raw: "enc_map (codec R) (storages_get s i) = Some raw"
    using pallet_runtime.encoded_old [OF linked_runtime [OF assms(1)] assms(2)] by auto
  moreover from this have "dec_map (codec R) raw = Some (storages_get s i)"
    using scale_codec.map_roundtrip [OF assms(1) wf] by simp
  ultimately show ?thesis
    using execute_panics_with_host [OF linked_runtime [OF assms(1), of W blake2], of s i origin x fuel
        reads writes s'] assms(2)
    by (auto simp: execute_code_panics [OF assms(1)])
qed

theorem pallet_panics_exactly_witness:
  "pallet_execute_code (demo_runtime [5] [CallGet 0 1 1 0]) (Some 1) [7] 0 7 1 0 (demo_state 47 []) =
     Some (Panic, demo_state 47 [])"
proof -
  let ?W = "script_engine [5] [CallGet 0 1 1 0]" and ?d = "new_store [] 1 0"
  have "reaches_overflow ?W scale_ref id () ?d 7"
    unfolding reaches_overflow_def
  proof (intro exI conjI)
    show "module_trace ?W (host_dispatch id scale_ref) () ?d 7 True []
        ([CallGet 0 1 1 0], \<lparr>store_data = ?d, exports = [''memory'' \<mapsto> Memory [5]]\<rparr>, 7)"
      by (rule in_main [OF _ _ trace_nil]) (simp_all add: script_engine_def)
    show "resume ?W [CallGet 0 1 1 0] (exports \<lparr>store_data = ?d, exports = [''memory'' \<mapsto> Memory [5]]\<rparr>) 7 =
        (HostCall (CallGet 0 1 1 0) [], [''memory'' \<mapsto> Memory [5]], 6)"
      by (simp add: script_engine_def eval_nat_numeral)
    show "get_overflows id (\<lparr>store_data = ?d, exports = [''memory'' \<mapsto> Memory [5]]\<rparr>
        \<lparr>exports := [''memory'' \<mapsto> Memory [5]]\<rparr>) 0 1 1 0"
      by code_simp
  qed
  moreover have "host_ready ?W 7" by (simp add: host_ready_def script_engine_def)
  moreover have "module_new ?W [7] = Some ()" by (simp add: script_engine_def)
  ultimately show ?thesis
    unfolding demo_runtime_def
    by (subst pallet_panics_exactly) (simp_all add: scale_ref.scale_codec_axioms demo_state_def storages_get_def)
qed

text \<open>
  Executing a kontract ends: with the executor linked in and an engine that meters fuel, the
  extrinsic returns for every origin, code id, declaration, fuel and state.
\<close>

lemma pallet_execution_returns:
  assumes "metered_engine W"
  shows "\<exists>r s'. pallet_execute_code (link_executor W blake2 R) origin i x fuel reads writes s =
    Some (r, s')"
proof -
  have "\<exists>r. execute_code W (codec R) blake2 code raw fuel reads writes = Some r" for code raw
    using assms by (rule metered_engine.execution_returns)
  then have "execute_code W (codec R) blake2 code raw fuel reads writes \<noteq> None" for code raw
    by (metis option.distinct(1))
  then show ?thesis
    by (simp only: pallet_execute_code_def link_executor_sel prod.exhaust_sel
        split: option.split outcome.split) (auto intro: prod.collapse [symmetric])
qed

section \<open>Who pays\<close>

locale paid_runtime =
  fixes R :: "('o, 'acc, 'id, 'bal) runtime"
    and free :: "'bal \<Rightarrow> 'acc \<Rightarrow> nat"
    and reserved :: "'bal \<Rightarrow> 'acc \<Rightarrow> nat"
  assumes currency: "reservable_currency (currency_reserve R) (currency_unreserve R)
      (currency_slash R) free reserved"

sublocale paid_runtime \<subseteq> reservable_currency "currency_reserve R" "currency_unreserve R"
    "currency_slash R" free reserved
  by (rule currency)

context paid_runtime
begin

lemma charge_others:
  "charge R who i d x s = (r, s') \<Longrightarrow> a \<noteq> who \<Longrightarrow>
   free (balances s') a = free (balances s) a \<and> reserved (balances s') a = reserved (balances s) a"
  by (auto simp: charge_def unreserve_others slash_others dest: reserve_others
      split: if_splits option.splits)

lemma charge_total:
  "charge R who i d x s = (r, s') \<Longrightarrow>
   free (balances s') who + reserved (balances s') who \<le>
     free (balances s) who + reserved (balances s) who \<and>
   free (balances s) who + reserved (balances s) who \<le>
     free (balances s') who + reserved (balances s') who + (if r = Ok False then 4294967295 else 0)"
proof -
  assume charge: "charge R who i d x s = (r, s')"
  have "unat d \<le> 4294967295"
    using unat_u32_less [of d] by linarith
  with slash_takes [of who "unat d" "balances s"] charge show ?thesis
    by (auto simp: charge_def unreserve_total dest!: reserve_total [where a = who]
        split: if_splits option.splits)
qed

lemma settle_balances:
  assumes "settle R who i old new x raw s = (r, s')"
  shows "\<exists>c s1. charge R who i (new - old) x s = (c, s1) \<and> balances s' = balances s1 \<and>
    (c = Ok False \<longleftrightarrow> events s' = events s @ [ExceededStorage i who])"
proof -
  obtain c s1 where charge: "charge R who i (new - old) x s = (c, s1)" by (rule prod.exhaust)
  with charge_result [OF charge] assms show ?thesis
    by (auto simp: settle_def and_then_def dest!: store_result_cases)
qed

lemma execute_balances:
  assumes "pallet_execute_code R origin i x fuel reads writes s = Some (r, s')"
  shows "balances s' = balances s \<or>
    (\<exists>who d c s1. signed_by R origin = Some who \<and> charge R who i d x s = (c, s1) \<and>
       balances s' = balances s1 \<and>
       (c = Ok False \<longleftrightarrow> events s' = events s @ [ExceededStorage i who]))"
  using execute_cases [OF assms] settle_balances by (elim disjE exE conjE) (simp_all, blast)

end

interpretation paid: paid_runtime "ledger_runtime cfg exec" "\<lambda>b a. fst (b a)" "\<lambda>b a. snd (b a)"
  for cfg exec
  by (rule paid_runtime.intro) (simp add: ledger.reservable_currency_axioms)

end
