(* ===== verification/Pallet_Invariants.thy ===== *)
theory Pallet_Invariants
  imports Pallet_Runtime
begin

text \<open>
  The pallet as a state machine. A dispatched call commits the state it computed when it returned
  \<open>Ok\<close> and leaves the old one otherwise (the overlay is not applied); \<open>reachable\<close> are the states of a
  chain that starts empty, where other pallets may change the balances and the events between calls. The properties
  are the invariants of every chain (code ids are the hashes of bounded codes, storages are sorted
  and within their bounds), what each privileged call does, and what no call can change.
\<close>

section \<open>Chains\<close>

definition genesis :: "'bal \<Rightarrow> ('id, 'acc, 'bal) pallet_state" where
  "genesis b = \<lparr>codes = Map.empty, storages = Map.empty, balances = b, events = []\<rparr>"

definition committed ::
  "('id, 'acc, 'bal) dispatch_result \<Rightarrow> ('id, 'acc, 'bal) pallet_state \<Rightarrow>
   ('id, 'acc, 'bal) pallet_state" where
  "committed res s = (if is_ok (fst res) then snd res else s)"

inductive pallet_step ::
  "('o, 'acc, 'id, 'bal) runtime \<Rightarrow> ('id, 'acc, 'bal) pallet_state \<Rightarrow>
   ('id, 'acc, 'bal) pallet_state \<Rightarrow> bool" for R where
  step_call: "bounded_call (config R) c \<Longrightarrow> run_call R origin c s = Some res \<Longrightarrow>
    pallet_step R s (committed res s)"
| step_others: "pallet_step R s (s\<lparr>balances := b, events := es\<rparr>)"

inductive reachable ::
  "('o, 'acc, 'id, 'bal) runtime \<Rightarrow> ('id, 'acc, 'bal) pallet_state \<Rightarrow> bool" for R where
  reachable_genesis: "reachable R (genesis b)"
| reachable_step: "reachable R s \<Longrightarrow> pallet_step R s s' \<Longrightarrow> reachable R s'"

text \<open>A sequence of calls, as a block runs them; \<open>None\<close> when one of them does not return.\<close>

fun run_calls ::
  "('o, 'acc, 'id, 'bal) runtime \<Rightarrow> ('o \<times> 'id call) list \<Rightarrow> ('id, 'acc, 'bal) pallet_state \<Rightarrow>
   ('id, 'acc, 'bal) pallet_state option" where
  "run_calls R [] s = Some s"
| "run_calls R ((origin, c) # cs) s =
     (if bounded_call (config R) c then
        (case run_call R origin c s of
           None \<Rightarrow> None
         | Some res \<Rightarrow> run_calls R cs (committed res s))
      else run_calls R cs s)"

lemma run_calls_reachable:
  "run_calls R cs s = Some s' \<Longrightarrow> reachable R s \<Longrightarrow> reachable R s'"
proof (induction R cs s rule: run_calls.induct)
  case (2 R origin c cs s)
  then show ?case
    by (auto split: if_splits option.splits intro: reachable_step step_call)
qed simp

text \<open>What a call that is committed does to codes and storages, arm by arm.\<close>

lemma committed_call:
  assumes "bounded_call (config R) c" and "run_call R origin c s = Some res"
    and "is_ok (fst res)"
  obtains (upload) who code where "c = UploadCode code" "signed_by R origin = Some who"
      "length code \<le> unat (max_code_size (config R))"
      "codes (snd res) = (codes s)(code_hash R code \<mapsto> code)"
      "storages (snd res) = storages s" "balances (snd res) = balances s"
      "events (snd res) = events s @ [NewCodeUploaded (code_hash R code) who]"
  | (execute) i x f r w where "c = ExecuteCode i x f r w"
      "pallet_execute_code R origin i x f r w s = Some (Ok (), snd res)"
  | (delete) i where "c = DeleteCode i" "is_root R origin" "codes (snd res) = (codes s)(i := None)"
      "storages (snd res) = storages s" "balances (snd res) = balances s"
      "events (snd res) = events s @ [CodeDeleted i]"
  | (update) i code where "c = UpdateCode i code" "is_root R origin"
      "length code \<le> unat (max_code_size (config R))"
      "codes (snd res) = (codes s)(i := None, code_hash R code \<mapsto> code)"
      "storages (snd res) = storages s" "balances (snd res) = balances s"
      "events (snd res) = events s @ [CodeUpgraded i (code_hash R code)]"
proof (cases c)
  case (ExecuteCode i x f r w)
  obtain out s' where "res = (out, s')" by (rule prod.exhaust)
  with assms ExecuteCode have "pallet_execute_code R origin i x f r w s = Some (Ok (), snd res)"
    by (cases out) auto
  with ExecuteCode show thesis by (rule execute)
qed (use assms upload delete update in
    \<open>auto simp: pallet_simps
      split: option.splits if_splits\<close>)

section \<open>Invariants\<close>

definition codes_ok ::
  "('o, 'acc, 'id, 'bal) runtime \<Rightarrow> ('id, 'acc, 'bal) pallet_state \<Rightarrow> bool" where
  "codes_ok R s \<longleftrightarrow> (\<forall>i code. codes s i = Some code \<longrightarrow>
     i = code_hash R code \<and> length code \<le> unat (max_code_size (config R)))"

definition storages_ok ::
  "('o, 'acc, 'id, 'bal) runtime \<Rightarrow> ('id, 'acc, 'bal) pallet_state \<Rightarrow> bool" where
  "storages_ok R s \<longleftrightarrow> (\<forall>i m. storages s i = Some m \<longrightarrow> storage_ok (config R) m)"

lemma storages_ok_get: "storages_ok R s \<Longrightarrow> storage_ok (config R) (storages_get s i)"
  by (auto simp: storages_ok_def storages_get_def split: option.splits)

lemma executed_storages:
  assumes "scale_codec (codec R)" and "storages_ok R s"
    and "pallet_execute_code R origin i x f r w s = Some (Ok (), s')"
  shows "storages_ok R s'"
  using execute_cases [OF assms(3)] assms(2)
  by (elim disjE exE conjE)
     (auto simp: storages_ok_def storage_ok_def dest!: settle_cases
       scale_codec.bounded_map_decoded [OF assms(1)] split: if_splits)

lemma step_codes_ok:
  assumes "pallet_step R s s'" and "codes_ok R s"
  shows "codes_ok R s'"
  using assms(1)
proof (cases rule: pallet_step.cases)
  case (step_call c origin res)
  show ?thesis
  proof (cases "is_ok (fst res)")
    case True
    from step_call(2,3) True show ?thesis
    proof (cases rule: committed_call)
      case (execute i x f r w)
      from execute_cases [OF this(2)] have "codes (snd res) = codes s"
        by (elim disjE exE conjE) (auto dest!: settle_cases)
      with assms(2) step_call True show ?thesis by (simp add: codes_ok_def committed_def)
    qed (use assms(2) step_call True in \<open>auto simp: codes_ok_def committed_def\<close>)
  qed (use assms(2) step_call in \<open>simp add: committed_def\<close>)
qed (use assms(2) in \<open>simp add: codes_ok_def\<close>)

lemma step_storages_ok:
  assumes "scale_codec (codec R)" and "pallet_step R s s'" and "storages_ok R s"
  shows "storages_ok R s'"
  using assms(2)
proof (cases rule: pallet_step.cases)
  case (step_call c origin res)
  show ?thesis
  proof (cases "is_ok (fst res)")
    case True
    from step_call(2,3) True show ?thesis
    proof (cases rule: committed_call)
      case (execute i x f r w)
      from executed_storages [OF assms(1,3) this(2)] step_call True show ?thesis
        by (simp add: committed_def)
    qed (use assms(3) step_call True in \<open>auto simp: storages_ok_def committed_def\<close>)
  qed (use assms(3) step_call in \<open>simp add: committed_def\<close>)
qed (use assms(3) in \<open>simp add: storages_ok_def\<close>)

lemma reachable_codes_ok: "reachable R s \<Longrightarrow> codes_ok R s"
  by (induction rule: reachable.induct)
     (auto simp: codes_ok_def genesis_def dest: step_codes_ok [unfolded codes_ok_def])

lemma reachable_storages_ok:
  assumes "reachable R s" and "scale_codec (codec R)"
  shows "storages_ok R s"
  using assms(1)
  by (induction rule: reachable.induct)
     (simp add: storages_ok_def genesis_def, rule step_storages_ok [OF assms(2)])

text \<open>
  C9. Code ids are hashes: on every chain, whatever calls are made and whatever happens to the
  balances in between, a code stored under an id hashes to that id and is within \<open>MaxCodeSize\<close>.
\<close>

theorem reachable_code_ids:
  assumes "reachable R s" and "codes s i = Some code"
  shows "i = code_hash R code \<and> length code \<le> unat (max_code_size (config R))"
  using reachable_codes_ok [OF assms(1)] assms(2) by (simp add: codes_ok_def)

text \<open>A chain on which a kontract was uploaded and run once, for the witnesses.\<close>

definition demo_calls :: "(nat option \<times> bytes call) list" where
  "demo_calls = [(Some 1, UploadCode [7]), (Some 1, ExecuteCode [7] 10 5 0 1)]"

definition demo_chain :: "(bytes, nat, nat ledger) pallet_state option" where
  "demo_chain = run_calls (demo_runtime [5, 6] [CallSet 0 1 1 1]) demo_calls
     (genesis (\<lambda>a. if a = 1 then (47, 0) else (0, 0)))"

lemma demo_chain_result:
  "\<exists>s. demo_chain = Some s \<and> codes s [7] = Some [7] \<and> storages s [7] = Some [([5], [6])] \<and>
     events s = [NewCodeUploaded [7] 1, CodeExecuted [7] 1] \<and> balances s 1 = (43, 4) \<and>
     reachable (demo_runtime [5, 6] [CallSet 0 1 1 1]) s"
proof -
  let ?R = "demo_runtime [5, 6] [CallSet 0 1 1 1]"
  have "case demo_chain of None \<Rightarrow> False | Some s \<Rightarrow> codes s [7] = Some [7] \<and>
      storages s [7] = Some [([5], [6])] \<and>
      events s = [NewCodeUploaded [7] 1, CodeExecuted [7] 1] \<and> balances s 1 = (43, 4)"
    by code_simp
  moreover have "reachable ?R s" if "demo_chain = Some s" for s
    using run_calls_reachable [OF that [unfolded demo_chain_def]] by (simp add: reachable_genesis)
  ultimately show ?thesis by (auto split: option.splits)
qed

theorem reachable_code_ids_witness:
  "\<exists>s. demo_chain = Some s \<and> codes s [7] = Some [7] \<and> length [7 :: u8] \<le> 1000000"
proof -
  obtain s where s: "demo_chain = Some s" "codes s [7] = Some [7]"
    "reachable (demo_runtime [5, 6] [CallSet 0 1 1 1]) s"
    using demo_chain_result by blast
  from reachable_code_ids [OF s(3,2)] s show ?thesis
    by (intro exI [of _ s]) (simp add: test_config_def)
qed

text \<open>
  C8. Storages stay readable: on every chain each stored storage is a sorted map within the bounds
  of the configuration, it can be encoded, and when the configuration keeps storages below 2 GiB the
  size \<open>execute_code\<close> computes for it as an \<open>i32\<close> is the number of bytes of its entries.
\<close>

theorem reachable_storages:
  assumes "scale_codec (codec R)" and "config_fits (config R)" and "reachable R s"
  shows "storage_ok (config R) (storages_get s i) \<and>
    (\<exists>raw size. enc_map (codec R) (storages_get s i) = Some raw \<and>
       get_storage_size (codec R) raw = Some size \<and>
       sint size = int (entries_size (storages_get s i)))"
proof -
  let ?m = "storages_get s i"
  have ok: "storage_ok (config R) ?m"
    using reachable_storages_ok [OF assms(3,1)] by (rule storages_ok_get)
  then obtain raw where raw: "enc_map (codec R) ?m = Some raw"
    using scale_codec.map_format [OF assms(1)] storage_ok_encodable by auto
  then have "get_storage_size (codec R) raw = Some (word_of_nat (entries_size ?m))"
    using scale_codec.dec_compact_map [OF assms(1) raw] storage_ok_encodable [OF ok]
      scale_codec.entries_length [OF assms(1)]
    by (simp add: get_storage_size_def)
  with ok raw sint_small [OF storage_ok_size [OF assms(2) ok]] show ?thesis by blast
qed

theorem reachable_storages_witness:
  "\<exists>s raw size. demo_chain = Some s \<and> enc_map scale_ref (storages_get s [7]) = Some raw \<and>
     get_storage_size scale_ref raw = Some size \<and> sint size = 4"
proof -
  obtain s where s: "demo_chain = Some s" "storages s [7] = Some [([5], [6])]"
    "reachable (demo_runtime [5, 6] [CallSet 0 1 1 1]) s"
    using demo_chain_result by blast
  have "entries_size (storages_get s [7]) = 4"
    using s(2) by (simp add: storages_get_def entry_size_def compact_len_def)
  with reachable_storages [OF _ _ s(3), of "[7]"] s(1) show ?thesis
    by (intro exI [of _ s]) (simp add: scale_ref.scale_codec_axioms test_config_fits)
qed

section \<open>Uploading, deleting and updating\<close>

lemma upload_code_result:
  "signed_by R origin = Some who \<Longrightarrow>
   upload_code R origin code s = (Ok (), s\<lparr>codes := (codes s)(code_hash R code \<mapsto> code),
     events := events s @ [NewCodeUploaded (code_hash R code) who]\<rparr>)"
  by (simp add: upload_code_def Let_def)

text \<open>
  C30. \<open>MaxNumberContracts\<close> limits nothing: any number of codes with different hashes, each within
  \<open>MaxCodeSize\<close>, can be uploaded one after the other by one account, and all of them are stored.
\<close>

theorem uploads_unlimited:
  assumes "signed_by R origin = Some who" and "distinct (map (code_hash R) cs)"
    and "\<forall>c \<in> set cs. length c \<le> unat (max_code_size (config R))"
  shows "\<exists>s. run_calls R (map (\<lambda>c. (origin, UploadCode c)) cs) (genesis b) = Some s \<and>
    (\<forall>c \<in> set cs. codes s (code_hash R c) = Some c) \<and> card (dom (codes s)) = length cs"
proof -
  have run: "\<exists>s. run_calls R (map (\<lambda>c. (origin, UploadCode c)) cs) t = Some s \<and>
      codes s = codes t ++ map_of (map (\<lambda>c. (code_hash R c, c)) cs)" for t
    using assms(2,3)
  proof (induction cs arbitrary: t)
    case (Cons c cs)
    let ?t = "t\<lparr>codes := (codes t)(code_hash R c \<mapsto> c),
      events := events t @ [NewCodeUploaded (code_hash R c) who]\<rparr>"
    have "code_hash R c \<notin> dom (map_of (map (\<lambda>c. (code_hash R c, c)) cs))"
      using Cons.prems(1) by (auto simp: dom_map_of_conv_image_fst)
    then have "(codes t)(code_hash R c \<mapsto> c) ++ map_of (map (\<lambda>c. (code_hash R c, c)) cs) =
        codes t ++ (map_of (map (\<lambda>c. (code_hash R c, c)) cs))(code_hash R c \<mapsto> c)"
      by (auto simp: map_add_def fun_eq_iff split: option.splits)
    then have join: "codes ?t ++ map_of (map (\<lambda>c. (code_hash R c, c)) cs) =
        codes t ++ map_of (map (\<lambda>c. (code_hash R c, c)) (c # cs))"
      by simp
    have "distinct (map (code_hash R) cs)" and "\<forall>c \<in> set cs. length c \<le> unat (max_code_size (config R))"
      using Cons.prems by simp_all
    from Cons.IH [OF this, of ?t] obtain s where
      s: "run_calls R (map (\<lambda>c. (origin, UploadCode c)) cs) ?t = Some s"
        "codes s = codes ?t ++ map_of (map (\<lambda>c. (code_hash R c, c)) cs)"
      by blast
    have "run_calls R (map (\<lambda>c. (origin, UploadCode c)) (c # cs)) t = Some s"
      using s(1) Cons.prems(2) by (simp add: upload_code_result [OF assms(1)] committed_def)
    with s(2) join show ?case by metis
  qed (simp add: map_add_def)
  from run [of "genesis b"] obtain s where
    s: "run_calls R (map (\<lambda>c. (origin, UploadCode c)) cs) (genesis b) = Some s"
      "codes s = map_of (map (\<lambda>c. (code_hash R c, c)) cs)"
    by (auto simp: genesis_def)
  have keys: "distinct (map fst (map (\<lambda>c. (code_hash R c, c)) cs))"
    using assms(2) by (simp add: comp_def)
  have "card (dom (codes s)) = length cs"
    using distinct_card [OF keys]
    by (simp only: s(2) dom_map_of_conv_image_fst length_map set_map [symmetric])
  moreover have "\<forall>c \<in> set cs. codes s (code_hash R c) = Some c"
    using map_of_is_SomeI [OF keys] by (auto simp: s(2))
  ultimately show ?thesis using s(1) by blast
qed

theorem uploads_unlimited_witness:
  "\<exists>s. run_calls (demo_runtime [] [])
      (map (\<lambda>c. (Some 1, UploadCode c)) [[1], [2], [3], [4], [5], [6]]) (genesis (\<lambda>_. (0, 0))) =
      Some s \<and> card (dom (codes s)) = 6 \<and> max_number_contracts test_config = 5"
  using uploads_unlimited [of "demo_runtime [] []" "Some 1" 1 "[[1], [2], [3], [4], [5], [6]]"
      "\<lambda>_. (0, 0)"]
  by (auto simp: test_config_def)

text \<open>
  The privileged calls: \<open>delete_code\<close> and \<open>update_code\<close> from an origin that is not root fail with
  \<open>BadOrigin\<close> and change nothing; from root \<open>delete_code\<close> removes exactly the named code, and
  \<open>update_code\<close> removes the old code and stores the new one under its hash, also when both ids are the
  same; neither touches a storage or a balance.
\<close>

lemma privileged_calls:
  assumes "c = DeleteCode i \<or> c = UpdateCode i code"
  shows "(\<not> is_root R origin \<longrightarrow> run_call R origin c s = Some (Err BadOrigin, s)) \<and>
    (is_root R origin \<longrightarrow> (\<exists>s'. run_call R origin c s = Some (Ok (), s') \<and>
       storages s' = storages s \<and> balances s' = balances s \<and>
       (c = DeleteCode i \<longrightarrow> codes s' = (codes s)(i := None) \<and>
          events s' = events s @ [CodeDeleted i]) \<and>
       (c = UpdateCode i code \<longrightarrow> codes s' (code_hash R code) = Some code \<and>
          (i \<noteq> code_hash R code \<longrightarrow> codes s' i = None) \<and>
          (\<forall>j. j \<noteq> i \<longrightarrow> j \<noteq> code_hash R code \<longrightarrow> codes s' j = codes s j) \<and>
          events s' = events s @ [CodeUpgraded i (code_hash R code)])))"
  using assms by (auto simp: delete_code_def update_code_def Let_def)

lemma call_keeps_storage:
  assumes "run_call R origin c s = Some res" and "\<forall>x f r w. c \<noteq> ExecuteCode i x f r w"
  shows "storages (committed res s) i = storages s i"
proof (cases "is_ok (fst res)")
  case True
  obtain out s' where res: "res = (out, s')" by (rule prod.exhaust)
  with True have "out = Ok ()" by (cases out) auto
  with assms res show ?thesis
    by (cases c)
       (auto simp: committed_def pallet_simps
         dest!: execute_cases settle_cases split: option.splits if_splits)
qed (simp add: committed_def)

lemma calls_keep_storage:
  assumes "run_calls R cs s = Some s'"
    and "\<forall>oc \<in> set cs. \<forall>x f r w. snd oc \<noteq> ExecuteCode i x f r w"
  shows "storages s' i = storages s i"
  using assms
proof (induction R cs s rule: run_calls.induct)
  case (2 R origin c cs s)
  show ?case
  proof (cases "bounded_call (config R) c")
    case True
    with 2(3) obtain res where res: "run_call R origin c s = Some res"
      and rest: "run_calls R cs (committed res s) = Some s'"
      by (auto split: option.splits)
    from 2(1) [OF True res rest] call_keeps_storage [OF res] 2(4) show ?thesis by simp
  qed (use 2 in simp)
qed simp

text \<open>
  C31. A storage outlives its code: across any sequence of calls, deletions, updates and uploads of
  the code itself included, in which the kontract is not executed, its storage entry stays as it
  was, so that a code uploaded again under the same id finds the old storage.
\<close>

theorem storage_outlives_code:
  assumes "run_calls R cs s = Some s'"
    and "\<forall>oc \<in> set cs. \<forall>x f r w. snd oc \<noteq> ExecuteCode i x f r w"
  shows "storages s' i = storages s i \<and> storages_get s' i = storages_get s i"
  using calls_keep_storage [OF assms] by (simp add: storages_get_def)

theorem storage_outlives_code_witness:
  "\<exists>s1 s2. run_calls (demo_runtime [] []) [(None, DeleteCode [7])] (demo_state 0 [([5], [6])]) = Some s1 \<and>
     codes s1 [7] = None \<and>
     run_calls (demo_runtime [] []) [(Some 1, UploadCode [7])] s1 = Some s2 \<and>
     codes s2 [7] = Some [7] \<and> storages s2 [7] = Some [([5], [6])]"
proof -
  let ?R = "demo_runtime [] []" and ?s = "demo_state 0 [([5], [6])]"
  have deleted: "\<exists>s1. run_calls ?R [(None, DeleteCode [7])] ?s = Some s1 \<and> codes s1 [7] = None"
    by (simp add: pallet_simps committed_def)
  then obtain s1 where s1: "run_calls ?R [(None, DeleteCode [7])] ?s = Some s1" "codes s1 [7] = None"
    by blast
  have again: "\<exists>s2. run_calls ?R [(Some 1, UploadCode [7])] s1 = Some s2 \<and> codes s2 [7] = Some [7]"
    by (simp add: pallet_simps committed_def test_config_def)
  then obtain s2 where s2: "run_calls ?R [(Some 1, UploadCode [7])] s1 = Some s2"
    "codes s2 [7] = Some [7]"
    by blast
  have "storages s2 [7] = storages s1 [7]"
    using storage_outlives_code [OF s2(1), of "[7]"] by simp
  also have "\<dots> = storages ?s [7]"
    using storage_outlives_code [OF s1(1), of "[7]"] by simp
  finally show ?thesis using s1 s2 by auto
qed

text \<open>
  Without root the only calls that change \<open>Codes\<close> are uploads, each under the hash of its code. A code
  that is replaced therefore exhibits a collision of the hash: nothing has to be assumed of the hash
  to say what an unprivileged user can do.
\<close>

lemma call_codes:
  assumes "\<not> is_root R origin" and "run_call R origin c s = Some res"
    and "codes (committed res s) i \<noteq> codes s i"
  shows "\<exists>code. c = UploadCode code \<and> signed_by R origin \<noteq> None \<and> code_hash R code = i \<and>
    codes (committed res s) i = Some code"
proof (cases c)
  case (UploadCode code)
  with assms show ?thesis
    by (auto simp: committed_def upload_code_def Let_def split: option.splits if_splits)
next
  case (ExecuteCode j x f r w)
  obtain out s' where res: "res = (out, s')" by (rule prod.exhaust)
  with assms(2) ExecuteCode have "pallet_execute_code R origin j x f r w s = Some (out, s')"
    by simp
  from execute_cases [OF this] have "codes s' = codes s"
    by (elim disjE exE conjE) (auto dest!: settle_cases)
  with res assms(3) show ?thesis by (simp add: committed_def split: if_splits)
qed (use assms in \<open>auto simp: committed_def delete_code_def update_code_def\<close>)

lemma calls_codes:
  assumes "run_calls R cs s = Some s'" and "\<forall>oc \<in> set cs. \<not> is_root R (fst oc)"
    and "codes s' i \<noteq> codes s i"
  shows "\<exists>origin code. (origin, UploadCode code) \<in> set cs \<and> signed_by R origin \<noteq> None \<and>
    bounded_call (config R) (UploadCode code :: 'id call) \<and> code_hash R code = i \<and> codes s' i = Some code"
  using assms
proof (induction R cs s rule: run_calls.induct)
  case (2 R origin c cs s)
  show ?case
  proof (cases "bounded_call (config R) c")
    case True
    with 2(3) obtain res where res: "run_call R origin c s = Some res"
      and rest: "run_calls R cs (committed res s) = Some s'"
      by (auto split: option.splits)
    show ?thesis
    proof (cases "codes s' i = codes (committed res s) i")
      case False
      from 2(1) [OF True res rest _ False] 2(4) show ?thesis by auto
    next
      case same: True
      with 2(5) have "codes (committed res s) i \<noteq> codes s i" by simp
      from call_codes [OF _ res this] 2(4) True same show ?thesis by fastforce
    qed
  qed (use 2 in auto)
qed simp

definition codes_kept ::
  "('o, 'acc, 'id, 'bal) runtime \<Rightarrow> ('id, 'acc, 'bal) pallet_state \<Rightarrow> ('id, 'acc, 'bal) pallet_state \<Rightarrow> bool"
  where
  "codes_kept R s t \<longleftrightarrow> (\<forall>i code. codes s i = Some code \<longrightarrow>
     (\<exists>code'. codes t i = Some code' \<and> code_hash R code' = code_hash R code))"

lemma codes_kept_refl [simp]: "codes_kept R s s"
  by (simp add: codes_kept_def)

lemma codes_kept_trans [trans]: "codes_kept R s t \<Longrightarrow> codes_kept R t u \<Longrightarrow> codes_kept R s u"
  by (fastforce simp: codes_kept_def)

lemma call_keeps_codes:
  assumes "reachable R s" and "\<not> is_root R origin" and "run_call R origin c s = Some res"
  shows "codes_kept R s (committed res s)"
  unfolding codes_kept_def
proof (intro allI impI)
  fix i code
  assume stored: "codes s i = Some code"
  with reachable_codes_ok [OF assms(1)] have "code_hash R code = i"
    by (auto simp: codes_ok_def)
  with stored call_codes [OF assms(2,3), of i]
  show "\<exists>code'. codes (committed res s) i = Some code' \<and> code_hash R code' = code_hash R code"
    by (cases "codes (committed res s) i = codes s i") auto
qed

text \<open>
  C10. Only root replaces code: across any sequence of calls whose origins are not root, on any
  reachable state, the entry of \<open>Codes\<close> at an id either stays as it was or is a code that one of the
  calls, signed and within \<open>MaxCodeSize\<close>, uploaded under its own hash; a code that was stored there
  before is a different code with the same hash, so that replacing a code takes a hash collision, and
  no code is ever removed.
\<close>

theorem codes_kept_without_root:
  assumes "reachable R s" and "run_calls R cs s = Some s'"
    and "\<forall>oc \<in> set cs. \<not> is_root R (fst oc)"
  shows "codes s' i = codes s i \<or>
    (\<exists>origin code. (origin, UploadCode code) \<in> set cs \<and> signed_by R origin \<noteq> None \<and>
       length code \<le> unat (max_code_size (config R)) \<and> code_hash R code = i \<and>
       codes s' i = Some code \<and>
       (\<forall>old. codes s i = Some old \<longrightarrow> old \<noteq> code \<and> code_hash R old = code_hash R code))"
proof (cases "codes s' i = codes s i")
  case False
  from calls_codes [OF assms(2,3) False] obtain origin code where
    up: "(origin, UploadCode code) \<in> set cs" "signed_by R origin \<noteq> None"
      "length code \<le> unat (max_code_size (config R))" "code_hash R code = i" "codes s' i = Some code"
    by auto
  moreover have "old \<noteq> code \<and> code_hash R old = code_hash R code" if "codes s i = Some old" for old
    using reachable_codes_ok [OF assms(1)] that False up(4,5) by (auto simp: codes_ok_def)
  ultimately show ?thesis by blast
qed simp

theorem codes_kept_without_root_witness:
  "\<exists>s s'. demo_chain = Some s \<and>
     run_calls (demo_runtime [5, 6] [CallSet 0 1 1 1])
       [(Some 2, UploadCode [8]), (Some 2, DeleteCode [7]), (Some 2, UpdateCode [7] [9])] s = Some s' \<and>
     codes s' [7] = Some [7]"
proof -
  let ?R = "demo_runtime [5, 6] [CallSet 0 1 1 1]"
  let ?cs = "[(Some 2, UploadCode [8]), (Some 2, DeleteCode [7]), (Some 2, UpdateCode [7] [9])]"
  obtain s where s: "demo_chain = Some s" "codes s [7] = Some [7]" "reachable ?R s"
    using demo_chain_result by blast
  obtain s' where run: "run_calls ?R ?cs s = Some s'"
    by (simp add: pallet_simps committed_def test_config_def)
  have "\<forall>oc \<in> set ?cs. \<not> is_root ?R (fst oc)" by simp
  from codes_kept_without_root [OF s(3) run this, of "[7]"] s(2) have "codes s' [7] = Some [7]"
    by auto
  with s(1) run show ?thesis by blast
qed

end
