(* ===== verification/Pallet_Deposits.thy ===== *)
theory Pallet_Deposits
  imports Pallet_Invariants
begin

text \<open>
  The economics of a chain of pallet calls. The locale \<open>deposit_runtime\<close> joins the contracts of the
  host function and of the currency with a configuration that keeps storages below 2 GiB; in it an
  execution that commits reserves at least what it adds. Along a chain the money of an account changes
  by penalties only; summed over accounts and code ids, the reserved balances of a chain without
  penalties cover the bytes stored; freed deposits go to the caller. The theory ends with the weights
  the calls declare.
\<close>

section \<open>One execution\<close>

locale deposit_runtime = pallet_runtime R + paid_runtime R free reserved
  for R :: "('o, 'acc, 'id, 'bal) runtime"
    and free :: "'bal \<Rightarrow> 'acc \<Rightarrow> nat" and reserved :: "'bal \<Rightarrow> 'acc \<Rightarrow> nat" +
  assumes fits: "config_fits (config R)"
begin

lemma charge_deposit:
  assumes "old < 2147483648" and "new < 2147483648"
    and "charge R who i (word_of_nat new - word_of_nat old) x s = (Ok True, s')"
  shows "new + reserved (balances s) who \<le> old + reserved (balances s') who"
proof -
  have "pay R who i (storage_fee old new (sint x)) s = (Ok True, s')"
    using assms(3) charge_small [OF assms(1,2), of R who i x s] by simp
  moreover have "reserved (balances s) who \<le>
      reserved (currency_unreserve R who (old - new) (balances s)) who + (old - new)"
    using unreserve_moves [of who "old - new" "balances s"] by (simp add: min_def)
  ultimately show ?thesis
    by (auto simp: storage_fee_def split: if_splits option.splits dest!: reserve_moves)
qed

lemma execute_deposit:
  assumes "storages_ok R s"
    and exec: "pallet_execute_code R origin i x f r w s = Some (Ok (), s')"
    and "\<forall>who. events s' \<noteq> events s @ [ExceededStorage i who]"
  shows "\<exists>who new. signed_by R origin = Some who \<and> storages s' = (storages s)(i \<mapsto> new) \<and>
    entries_size new + reserved (balances s) who \<le>
      entries_size (storages_get s i) + reserved (balances s') who \<and>
    (\<forall>a. a \<noteq> who \<longrightarrow> reserved (balances s') a = reserved (balances s) a)"
proof -
  have ok: "storage_ok (config R) (storages_get s i)"
    using assms(1) by (rule storages_ok_get)
  then obtain raw where raw: "enc_map (codec R) (storages_get s i) = Some raw"
    using encoded_old by blast
  from execute_cases [OF exec] obtain who code where who: "signed_by R origin = Some who"
    and code: "codes s i = Some code" by blast
  obtain raw' where run: "host_execute R code raw f r w = Some (Ok raw')"
    using exec by (auto simp: execute_host [OF who code raw] split: option.splits outcome.splits)
  obtain new where new: "btree_wf new" "enc_map (codec R) new = Some raw'"
    using result_encoded [OF run] by blast
  let ?old = "storages_get s i"
  obtain c s1 where charge:
    "charge R who i (word_of_nat (entries_size new) - word_of_nat (entries_size ?old)) x s = (c, s1)"
    by (rule prod.exhaust)
  note res = charge_result [OF charge]
  have c: "c = Ok True" and stored: "storage_ok (config R) new"
    and s': "s' = s1\<lparr>storages := (storages s1)(i \<mapsto> new), events := events s1 @ [CodeExecuted i who]\<rparr>"
    using exec res assms(3)
    by (auto simp: execute_committed [OF who code raw run new] and_then_def charge split: if_splits)
  have "entries_size new + reserved (balances s) who \<le> entries_size ?old + reserved (balances s1) who"
    using charge_deposit storage_ok_size [OF fits ok] storage_ok_size [OF fits stored] charge c
    by blast
  then show ?thesis
    using who res charge_others [OF charge] s' by auto
qed

end

interpretation demo: deposit_runtime
    "link_executor W blake2 (ledger_runtime test_config exec)"
    "\<lambda>b a. fst (b a)" "\<lambda>b a. snd (b a)" for W blake2 exec
  by (intro deposit_runtime.intro deposit_runtime_axioms.intro linked.pallet_runtime_axioms
      paid_runtime.intro) (simp_all add: ledger.reservable_currency_axioms test_config_fits)

section \<open>All storages\<close>

definition stored_bytes :: "('id, 'acc, 'bal) pallet_state \<Rightarrow> nat" where
  "stored_bytes s = (\<Sum>i \<in> dom (storages s). entries_size (storages_get s i))"

definition signers :: "('o, 'acc, 'id, 'bal) runtime \<Rightarrow> ('o \<times> 'id call) list \<Rightarrow> 'acc set" where
  "signers R cs = {who. \<exists>oc \<in> set cs. signed_by R (fst oc) = Some who}"

lemma finite_signers: "finite (signers R cs)"
proof -
  have "signers R cs \<subseteq> (\<lambda>oc. the (signed_by R (fst oc))) ` set cs"
    by (force simp: signers_def)
  then show ?thesis by (rule finite_surj [OF finite_set])
qed

lemma stored_bytes_update:
  assumes "finite (dom (storages s))" and "storages s' = (storages s)(i \<mapsto> new)"
  shows "stored_bytes s' + entries_size (storages_get s i) = stored_bytes s + entries_size new"
proof -
  have get: "storages_get s' i = new" "\<And>j. j \<noteq> i \<Longrightarrow> storages_get s' j = storages_get s j"
    using assms(2) by (simp_all add: storages_get_def)
  let ?rest = "\<Sum>j \<in> dom (storages s) - {i}. entries_size (storages_get s j)"
  have "stored_bytes s' = (\<Sum>j \<in> insert i (dom (storages s)). entries_size (storages_get s' j))"
    by (simp add: stored_bytes_def assms(2))
  also have "\<dots> = entries_size new + (\<Sum>j \<in> dom (storages s) - {i}. entries_size (storages_get s' j))"
    using assms(1) get by (simp add: sum.insert_remove)
  also have "(\<Sum>j \<in> dom (storages s) - {i}. entries_size (storages_get s' j)) = ?rest"
    by (rule sum.cong) (simp_all add: get)
  finally have new: "stored_bytes s' = entries_size new + ?rest" .
  have "stored_bytes s = entries_size (storages_get s i) + ?rest"
  proof (cases "i \<in> dom (storages s)")
    case True
    then show ?thesis using assms(1) by (simp add: stored_bytes_def sum.remove)
  next
    case False
    then have "storages_get s i = []" by (auto simp: storages_get_def split: option.splits)
    with False show ?thesis by (simp add: stored_bytes_def)
  qed
  with new show ?thesis by simp
qed

lemma sum_one_changed:
  fixes g g' :: "'a \<Rightarrow> nat"
  assumes "finite A" and "who \<in> A" and "\<forall>a. a \<noteq> who \<longrightarrow> g' a = g a"
  shows "sum g' A + g who = sum g A + g' who"
proof -
  have "sum g' (A - {who}) = sum g (A - {who})"
    by (rule sum.cong) (use assms(3) in auto)
  with assms(1,2) show ?thesis by (simp add: sum.remove)
qed

definition covered :: "('bal \<Rightarrow> 'acc \<Rightarrow> nat) \<Rightarrow> 'acc set \<Rightarrow> ('id, 'acc, 'bal) pallet_state \<Rightarrow> bool" where
  "covered reserved A s \<longleftrightarrow> finite (dom (storages s)) \<and>
     stored_bytes s \<le> (\<Sum>a \<in> A. reserved (balances s) a)"

lemma events_grow:
  assumes "run_call R origin c s = Some res"
  shows "\<exists>es. events (committed res s) = events s @ es"
proof (cases "is_ok (fst res)")
  case True
  obtain out s' where res: "res = (out, s')" by (rule prod.exhaust)
  with True have "out = Ok ()" by (cases out) auto
  with assms res show ?thesis
    by (cases c)
       (auto simp: committed_def pallet_simps
         dest!: execute_cases settle_cases split: option.splits if_splits)
qed (simp add: committed_def)

lemma run_events_grow: "run_calls R cs s = Some s' \<Longrightarrow> \<exists>es. events s' = events s @ es"
proof (induction R cs s rule: run_calls.induct)
  case (2 R origin c cs s)
  show ?case
  proof (cases "bounded_call (config R) c")
    case True
    with 2(3) obtain res where res: "run_call R origin c s = Some res"
      and rest: "run_calls R cs (committed res s) = Some s'"
      by (auto split: option.splits)
    from 2(1) [OF True res rest] events_grow [OF res] show ?thesis by auto
  qed (use 2 in simp)
qed simp

section \<open>All balances\<close>

text \<open>The penalties among events that an account was dealt.\<close>

fun penalises :: "'acc \<Rightarrow> ('id, 'acc) pallet_event \<Rightarrow> bool" where
  "penalises a (ExceededStorage i who) \<longleftrightarrow> who = a"
| "penalises a _ \<longleftrightarrow> False"

definition penalties :: "'acc \<Rightarrow> ('id, 'acc) pallet_event list \<Rightarrow> nat" where
  "penalties a es = length (filter (penalises a) es)"

lemma penalties_simps [simp]:
  "penalties a [] = 0" "penalties a (es @ es') = penalties a es + penalties a es'"
  "penalties a [e] = (if penalises a e then 1 else 0)"
  by (simp_all add: penalties_def)

lemma execute_events:
  assumes "pallet_execute_code R origin i x f r w s = Some (Ok (), s')"
  shows "\<exists>who. signed_by R origin = Some who \<and>
    (events s' = events s @ [CodeExecuted i who] \<or> events s' = events s @ [ExceededStorage i who])"
  using execute_cases [OF assms] by (elim disjE exE conjE) (auto dest!: settle_cases)

text \<open>What an account has, and what it can have lost, between two states.\<close>

definition only_penalised ::
  "('bal \<Rightarrow> 'acc \<Rightarrow> nat) \<Rightarrow> ('bal \<Rightarrow> 'acc \<Rightarrow> nat) \<Rightarrow> 'acc \<Rightarrow> nat \<Rightarrow> 'bal \<Rightarrow> 'bal \<Rightarrow> bool" where
  "only_penalised free reserved a n b b' \<longleftrightarrow>
     free b' a + reserved b' a \<le> free b a + reserved b a \<and>
     free b a + reserved b a \<le> free b' a + reserved b' a + 4294967295 * n"

lemma only_penalised_refl [simp]: "only_penalised free reserved a n b b"
  by (simp add: only_penalised_def)

lemma only_penalised_trans:
  "only_penalised free reserved a m b c \<Longrightarrow> only_penalised free reserved a n c d \<Longrightarrow>
   only_penalised free reserved a (m + n) b d"
  by (auto simp: only_penalised_def)

context paid_runtime
begin

lemma call_balances:
  assumes "bounded_call (config R) c" and "run_call R origin c s = Some res"
  shows "\<exists>es. events (committed res s) = events s @ es \<and>
    only_penalised free reserved a (penalties a es) (balances s) (balances (committed res s)) \<and>
    (signed_by R origin \<noteq> Some a \<longrightarrow>
       free (balances (committed res s)) a = free (balances s) a \<and>
       reserved (balances (committed res s)) a = reserved (balances s) a)"
proof (cases "is_ok (fst res)")
  case True
  from assms True show ?thesis
  proof (cases rule: committed_call)
    case (execute i x f r w)
    from execute_events [OF execute(2)] obtain who e where who: "signed_by R origin = Some who"
      and e: "events (snd res) = events s @ [e]" "e = CodeExecuted i who \<or> e = ExceededStorage i who"
      by auto
    from execute_balances [OF execute(2)] show ?thesis
    proof (elim disjE exE conjE)
      fix who' d c s1
      assume "signed_by R origin = Some who'" and charge: "charge R who' i d x s = (c, s1)"
        and "balances (snd res) = balances s1"
        and "(c = Ok False) = (events (snd res) = events s @ [ExceededStorage i who'])"
      with charge_others [OF charge, of a] charge_total [OF charge] who e True show ?thesis
        by (cases "a = who'") (auto simp: committed_def only_penalised_def)
    qed (use True e in \<open>auto simp: committed_def\<close>)
  qed (use True in \<open>auto simp: committed_def\<close>)
qed (simp add: committed_def)

lemma chain_balances:
  "run_calls R cs s = Some s' \<Longrightarrow> \<exists>es. events s' = events s @ es \<and>
    only_penalised free reserved a (penalties a es) (balances s) (balances s') \<and>
    (a \<notin> signers R cs \<longrightarrow> free (balances s') a = free (balances s) a \<and>
       reserved (balances s') a = reserved (balances s) a)"
proof (induction cs arbitrary: s)
  case (Cons oc cs)
  obtain origin c where oc: "oc = (origin, c)" by (rule prod.exhaust)
  show ?case
  proof (cases "bounded_call (config R) c")
    case True
    with Cons.prems oc obtain res where res: "run_call R origin c s = Some res"
      and rest: "run_calls R cs (committed res s) = Some s'"
      by (auto split: option.splits)
    from call_balances [OF True res, of a] obtain es where
      es: "events (committed res s) = events s @ es"
        "only_penalised free reserved a (penalties a es) (balances s) (balances (committed res s))"
      and "signed_by R origin \<noteq> Some a \<longrightarrow>
        free (balances (committed res s)) a = free (balances s) a \<and>
        reserved (balances (committed res s)) a = reserved (balances s) a" by blast
    moreover from Cons.IH [OF rest] obtain es' where
      es': "events s' = events (committed res s) @ es'"
        "only_penalised free reserved a (penalties a es') (balances (committed res s)) (balances s')"
      and "a \<notin> signers R cs \<longrightarrow> free (balances s') a = free (balances (committed res s)) a \<and>
        reserved (balances s') a = reserved (balances (committed res s)) a" by blast
    ultimately show ?thesis
      using only_penalised_trans [OF es(2) es'(2)] oc
      by (intro exI [of _ "es @ es'"]) (auto simp: signers_def)
  next
    case False
    with Cons.prems oc have "run_calls R cs s = Some s'" by simp
    from Cons.IH [OF this] oc show ?thesis by (auto simp: signers_def)
  qed
qed (auto intro: exI [of _ "[]"])

end

text \<open>
  C13. The pallet creates no money and takes none silently: across any sequence of calls the sum of
  what an account has free and reserved never grows; it shrinks by less than \<open>2^32\<close> for every
  \<open>ExceededStorage\<close> event that names the account, and not at all without one; and the two balances of
  an account that signs none of the calls stay as they were.
\<close>

theorem balances_conserved:
  assumes "paid_runtime R free reserved" and "run_calls R cs s = Some s'"
  shows "\<exists>es. events s' = events s @ es \<and>
    free (balances s') a + reserved (balances s') a \<le> free (balances s) a + reserved (balances s) a \<and>
    free (balances s) a + reserved (balances s) a \<le>
      free (balances s') a + reserved (balances s') a + 4294967295 * penalties a es \<and>
    (a \<notin> signers R cs \<longrightarrow> free (balances s') a = free (balances s) a \<and>
       reserved (balances s') a = reserved (balances s) a)"
  using paid_runtime.chain_balances [OF assms, of a] by (auto simp: only_penalised_def)

theorem balances_conserved_witness:
  "\<exists>s. demo_chain = Some s \<and> fst (balances s 1) + snd (balances s 1) = 47 \<and> balances s 2 = (0, 0)"
proof -
  obtain s where s: "demo_chain = Some s" "events s = [NewCodeUploaded [7] 1, CodeExecuted [7] 1]"
    using demo_chain_result by blast
  note run = s(1) [unfolded demo_chain_def]
  have "paid_runtime (demo_runtime [5, 6] [CallSet 0 1 1 1]) (\<lambda>b a. fst (b a)) (\<lambda>b a. snd (b a))"
    by (rule paid_runtime.intro) (simp add: ledger.reservable_currency_axioms)
  note kept = balances_conserved [OF this run]
  have "(2 :: nat) \<notin> signers (demo_runtime [5, 6] [CallSet 0 1 1 1]) demo_calls"
    by (auto simp: signers_def demo_calls_def)
  with kept [of 1] kept [of 2] s show ?thesis
    by (auto simp: genesis_def penalties_def prod_eq_iff)
qed

section \<open>Deposits and stored bytes\<close>

context deposit_runtime
begin

lemma call_covered:
  assumes "finite A" and "storages_ok R s" and "covered reserved A s"
    and "bounded_call (config R) c" and "run_call R origin c s = Some res"
    and "\<forall>who. signed_by R origin = Some who \<longrightarrow> who \<in> A"
    and "\<forall>i who. ExceededStorage i who \<notin> set (events (committed res s))"
  shows "covered reserved A (committed res s)"
proof (cases "is_ok (fst res)")
  case False
  with assms(3) show ?thesis by (simp add: committed_def)
next
  case True
  from assms(4,5) True show ?thesis
  proof (cases rule: committed_call)
    case (execute i x f r w)
    have "\<forall>who. events (snd res) \<noteq> events s @ [ExceededStorage i who]"
      using assms(7) True by (metis committed_def in_set_conv_decomp)
    from execute_deposit [OF assms(2) execute(2) this] obtain who new where
      who: "signed_by R origin = Some who" and st: "storages (snd res) = (storages s)(i \<mapsto> new)"
      and paid: "entries_size new + reserved (balances s) who \<le>
        entries_size (storages_get s i) + reserved (balances (snd res)) who"
      and others: "\<forall>a. a \<noteq> who \<longrightarrow> reserved (balances (snd res)) a = reserved (balances s) a"
      by blast
    have fin: "finite (dom (storages s))" using assms(3) by (simp add: covered_def)
    from sum_one_changed [OF assms(1) _ others] assms(6) who stored_bytes_update [OF fin st] paid
      assms(3) fin st True
    show ?thesis by (simp add: covered_def committed_def)
  qed (use assms(3) True in
      \<open>simp_all add: covered_def committed_def stored_bytes_def storages_get_def\<close>)
qed

lemma chain_covered:
  assumes "finite A" and "run_calls R cs s = Some s'"
    and "storages_ok R s" and "covered reserved A s" and "signers R cs \<subseteq> A"
    and "\<forall>i who. ExceededStorage i who \<notin> set (events s')"
  shows "covered reserved A s'"
  using assms(2-)
proof (induction cs arbitrary: s)
  case (Cons oc cs)
  obtain origin c where oc: "oc = (origin, c)" by (rule prod.exhaust)
  have sub: "signers R cs \<subseteq> A" and who: "\<forall>who. signed_by R origin = Some who \<longrightarrow> who \<in> A"
    using Cons.prems(4) oc by (auto simp: signers_def)
  show ?case
  proof (cases "bounded_call (config R) c")
    case True
    with Cons.prems(1) oc obtain res where res: "run_call R origin c s = Some res"
      and rest: "run_calls R cs (committed res s) = Some s'"
      by (auto split: option.splits)
    have quiet: "\<forall>i who. ExceededStorage i who \<notin> set (events (committed res s))"
      using Cons.prems(5) run_events_grow [OF rest] by auto
    have "storages_ok R (committed res s)"
      using step_storages_ok [OF codec_laws step_call [OF True res] Cons.prems(2)] .
    from Cons.IH [OF rest this _ sub Cons.prems(5)] show ?thesis
      using call_covered [OF assms(1) Cons.prems(2,3) True res who quiet] by blast
  next
    case False
    with Cons oc sub show ?thesis by simp
  qed
qed simp

end

text \<open>
  C7. Deposits cover the storages: on a chain of pallet calls from an empty state on which no
  execution exceeded its declared storage, the bytes of all stored entries are at most the sum of
  the reserved balances of the accounts that signed a call.
\<close>

theorem deposits_cover_storages:
  assumes "deposit_runtime R free reserved" and "run_calls R cs (genesis b) = Some s"
    and "\<forall>i who. ExceededStorage i who \<notin> set (events s)"
  shows "stored_bytes s \<le> (\<Sum>a \<in> signers R cs. reserved (balances s) a)"
proof -
  have "storages_ok R (genesis b)" and "covered reserved (signers R cs) (genesis b)"
    by (simp_all add: storages_ok_def covered_def genesis_def stored_bytes_def)
  from deposit_runtime.chain_covered [OF assms(1) finite_signers assms(2) this subset_refl assms(3)]
  show ?thesis by (simp add: covered_def)
qed

theorem deposits_cover_storages_witness:
  "\<exists>s. demo_chain = Some s \<and> stored_bytes s \<le>
     (\<Sum>a \<in> signers (demo_runtime [5, 6] [CallSet 0 1 1 1]) demo_calls. snd (balances s a))"
proof -
  obtain s where s: "demo_chain = Some s" "events s = [NewCodeUploaded [7] 1, CodeExecuted [7] 1]"
    using demo_chain_result by blast
  have "deposit_runtime (demo_runtime [5, 6] [CallSet 0 1 1 1]) (\<lambda>b a. fst (b a)) (\<lambda>b a. snd (b a))"
    unfolding demo_runtime_def by (rule demo.deposit_runtime_axioms)
  from deposits_cover_storages [OF this s(1) [unfolded demo_chain_def]] s show ?thesis
    by (intro exI [of _ s]) simp
qed

section \<open>Who gets a deposit back\<close>

context deposit_runtime
begin

lemma execute_frees:
  assumes "signed_by R origin = Some who" and "codes s i = Some code"
    and "storage_ok (config R) (storages_get s i)"
    and "enc_map (codec R) (storages_get s i) = Some raw"
    and "host_execute R code raw f r w = Some (Ok raw')"
    and "storage_ok (config R) new" and "enc_map (codec R) new = Some raw'"
    and "entries_size new < entries_size (storages_get s i)"
    and "int (entries_size new) - int (entries_size (storages_get s i)) \<le> sint x"
  shows "pallet_execute_code R origin i x f r w s =
    Some (Ok (), s\<lparr>balances := currency_unreserve R who
        (entries_size (storages_get s i) - entries_size new) (balances s),
      storages := (storages s)(i \<mapsto> new), events := events s @ [CodeExecuted i who]\<rparr>)"
proof -
  have "btree_wf new" using assms(6) by (simp add: storage_ok_def)
  from execute_outcome [OF fits assms(1-5) this assms(7) storage_ok_size [OF fits assms(6)], of x]
    assms(6,8,9)
  show ?thesis by (simp add: storage_fee_def)
qed

end

text \<open>
  C29. Freed deposits go to whoever frees the bytes: a signed account whose execution shrinks a storage
  within its declared change gets back the bytes freed, but at most what it has reserved itself, for
  whatever it was reserved; nobody else's reserved balance changes, so the account that paid the
  deposit of those bytes is not refunded.
\<close>

theorem refund_goes_to_caller:
  assumes "deposit_runtime R free reserved"
    and "signed_by R origin = Some who" and "codes s i = Some code"
    and "storage_ok (config R) (storages_get s i)"
    and "enc_map (codec R) (storages_get s i) = Some raw"
    and "host_execute R code raw f r w = Some (Ok raw')"
    and "storage_ok (config R) new" and "enc_map (codec R) new = Some raw'"
    and "entries_size new < entries_size (storages_get s i)"
    and "int (entries_size new) - int (entries_size (storages_get s i)) \<le> sint x"
  shows "\<exists>s' v. pallet_execute_code R origin i x f r w s = Some (Ok (), s') \<and>
    storages s' = (storages s)(i \<mapsto> new) \<and>
    v = min (entries_size (storages_get s i) - entries_size new) (reserved (balances s) who) \<and>
    reserved (balances s') who = reserved (balances s) who - v \<and>
    free (balances s') who = free (balances s) who + v \<and>
    (\<forall>a. a \<noteq> who \<longrightarrow> reserved (balances s') a = reserved (balances s) a \<and>
       free (balances s') a = free (balances s) a)"
proof -
  note currency = paid_runtime.currency [OF deposit_runtime.axioms(2) [OF assms(1)]]
  from deposit_runtime.execute_frees [OF assms]
    reservable_currency.unreserve_moves [OF currency, of who
      "entries_size (storages_get s i) - entries_size new" "balances s"]
    reservable_currency.unreserve_others [OF currency]
  show ?thesis by simp
qed

theorem refund_goes_to_caller_witness:
  "\<exists>s'. pallet_execute_code (demo_runtime [5, 6] [CallRemove 0 1]) (Some 2) [7] 0 5 0 1
      ((demo_state 0 [([5], [6])])\<lparr>balances := (\<lambda>a. if a = 1 then (3, 4) else (0, 0))\<rparr>) = Some (Ok (), s') \<and>
    storages s' [7] = Some [] \<and> balances s' 1 = (3, 4) \<and> balances s' 2 = (0, 0)"
proof -
  let ?R = "demo_runtime [5, 6] [CallRemove 0 1]"
  let ?s = "(demo_state 0 [([5], [6])])\<lparr>balances := (\<lambda>a. if a = 1 then (3, 4) else (0, 0))\<rparr>"
  have R: "deposit_runtime ?R (\<lambda>b a. fst (b a)) (\<lambda>b a. snd (b a))"
    unfolding demo_runtime_def by (rule demo.deposit_runtime_axioms)
  have get: "storages_get ?s [7] = [([5], [6])]"
    by (simp add: storages_get_def)
  have run: "host_execute ?R [7] [4, 4, 5, 4, 6] 5 0 1 = Some (Ok [0])"
    unfolding demo_sel by code_simp
  have enc: "enc_map (codec ?R) (storages_get ?s [7]) = Some [4, 4, 5, 4, 6]"
      "enc_map (codec ?R) [] = Some [0]"
    unfolding get unfolding demo_sel by code_simp+
  have facts: "storage_ok test_config [([5], [6])]" "entries_size [([5], [6])] = 4"
    by code_simp+
  have pre: "signed_by ?R (Some 2) = Some 2" "codes ?s [7] = Some [7]"
    "storage_ok (config ?R) (storages_get ?s [7])"
    unfolding get using facts by simp_all
  have less: "entries_size [] < entries_size (storages_get ?s [7])"
    "int (entries_size []) - int (entries_size (storages_get ?s [7])) \<le> sint (0 :: i32)"
    unfolding get using facts by simp_all
  from refund_goes_to_caller [OF R pre enc(1) run storage_ok_Nil enc(2) less] obtain s' v where
    ok: "pallet_execute_code ?R (Some 2) [7] 0 5 0 1 ?s = Some (Ok (), s')"
    and "storages s' = (storages ?s)([7] \<mapsto> [])"
    and v: "v = min (entries_size (storages_get ?s [7]) - entries_size []) (snd (balances ?s 2))"
    and two: "snd (balances s' 2) = snd (balances ?s 2) - v" "fst (balances s' 2) = fst (balances ?s 2) + v"
    and one: "\<forall>a. a \<noteq> 2 \<longrightarrow> snd (balances s' a) = snd (balances ?s a) \<and>
      fst (balances s' a) = fst (balances ?s a)"
    by blast
  moreover have "v = 0" using v by simp
  moreover have "balances s' 1 = (3, 4)" using one by (simp add: prod_eq_iff)
  ultimately show ?thesis by (intro exI [of _ s']) (simp add: prod_eq_iff)
qed

section \<open>Weights\<close>

text \<open>
  The \<open>u64\<close> weights do not wrap around: with database weights below \<open>2^63\<close> they are what they are
  over the natural numbers.
\<close>

lemma call_weight_exact:
  assumes "bounded_call (config R) c" and "unat (db_writes R 1) < 9223372036854775808"
    and "\<forall>r w. unat (db_reads_writes R (ucast (r :: u32)) (ucast (w :: u32))) < 9223372036854775808"
  shows "unat (call_weight R c) =
    (case c of
       UploadCode code \<Rightarrow> 10000 + unat (db_writes R 1) + 155 * length code
     | ExecuteCode i x f r w \<Rightarrow> 10000 + unat (db_reads_writes R (ucast r) (ucast w)) + 100 * unat f
     | DeleteCode i \<Rightarrow> 0
     | UpdateCode i code \<Rightarrow> 10000 + unat (db_writes R 1) + 155 * length code)"
proof -
  have sum3: "unat (10000 + d + k * n :: u64) = 10000 + unat d + unat k * unat n"
    if "unat d < 9223372036854775808" "unat k * unat n < 9000000000000000000" for d k n :: u64
  proof -
    have "unat (k * n) = unat k * unat n"
      using that(2) by (simp add: unat_word_ariths)
    with that show ?thesis by (simp add: unat_word_ariths)
  qed
  have code: "unat (word_of_nat (length code) :: u64) = length code"
    "155 * length code < 9000000000000000000"
    if "length code \<le> unat (max_code_size (config R))" for code :: bytes
  proof -
    have "length code < 4294967296"
      using that unat_u32_less [of "max_code_size (config R)"] by linarith
    then show "unat (word_of_nat (length code) :: u64) = length code"
      and "155 * length code < 9000000000000000000"
      by (simp_all add: unat_u64_of_nat)
  qed
  have fuel: "100 * unat f < 9000000000000000000" for f :: u32
    using unat_u32_less [of f] by linarith
  show ?thesis
    using assms code fuel
    by (cases c) (simp_all add: upload_code_weight_def update_code_weight_def
        execute_code_weight_def delete_code_weight_def sum3)
qed

end
