(* ===== verification/Pallet_Refinement.thy ===== *)
theory Pallet_Refinement
  imports Pallet_Deposits
begin

text \<open>
  An abstract specification of the pallet and its refinement. In the specification a kontract's
  storage is a finite map, its size a sum over the keys, an account has a spendable and a held
  amount, and what a call does is a relation \<open>spec_call\<close> with the caller's rights and the call as its
  label; there are no encodings, no word arithmetic and no host function. \<open>abs_state\<close> maps a pallet
  state to it; the simulation lemma \<open>call_simulated\<close>, over the locale \<open>kontract_chain\<close> of a runtime
  with the executor linked in, shows that every call of the code is allowed by the specification,
  and the property lifts it to whole chains.
\<close>

section \<open>The specification\<close>

record ('id, 'acc) spec_state =
  programs :: "'id \<rightharpoonup> bytes"
  entries :: "'id \<Rightarrow> bytes \<rightharpoonup> bytes"
  spendable :: "'acc \<Rightarrow> nat"
  held :: "'acc \<Rightarrow> nat"

definition map_size :: "(bytes \<rightharpoonup> bytes) \<Rightarrow> nat" where
  "map_size D = (\<Sum>k \<in> dom D. entry_size (k, the (D k)))"

definition map_fits :: "pallet_config \<Rightarrow> (bytes \<rightharpoonup> bytes) \<Rightarrow> bool" where
  "map_fits cfg D \<longleftrightarrow> finite (dom D) \<and> card (dom D) \<le> unat (max_storage_size cfg) \<and>
     (\<forall>k v. D k = Some v \<longrightarrow> length k \<le> unat (max_storage_key_size cfg) \<and>
        length v \<le> unat (max_storage_value_size cfg))"

text \<open>What a fee does to the balances of \<open>who\<close>; nobody else's change.\<close>

fun settled :: "fee \<Rightarrow> nat \<times> nat \<Rightarrow> nat \<times> nat \<Rightarrow> bool" where
  "settled NoFee (f, h) (f', h') = (f' = f \<and> h' = h)"
| "settled (Deposit v) (f, h) (f', h') = (v \<le> f \<and> f' = f - v \<and> h' = h + v)"
| "settled (Refund v) (f, h) (f', h') = (f' = f + min v h \<and> h' = h - min v h)"
| "settled (Penalty v) (f, h) (f', h') = (f' \<le> f \<and> h' \<le> h \<and> f + h \<le> f' + h' + v)"

definition pays ::
  "fee \<Rightarrow> 'acc \<Rightarrow> ('id, 'acc) spec_state \<Rightarrow> ('id, 'acc) spec_state \<Rightarrow> bool" where
  "pays fee who a a' \<longleftrightarrow>
     settled fee (spendable a who, held a who) (spendable a' who, held a' who) \<and>
     (\<forall>b. b \<noteq> who \<longrightarrow> spendable a' b = spendable a b \<and> held a' b = held a b)"

text \<open>
  The calls. \<open>runs code f r w D D'\<close> says which maps \<open>D'\<close> the code can leave from \<open>D\<close> within fuel \<open>f\<close> and
  \<open>r\<close> reads and \<open>w\<close> writes. An execution that takes effect either replaces the map by one that fits,
  at the fee of the deposit policy within the declared change, or is penalised and keeps the map; the
  policy fixes the penalty when the new map is below 2 GiB, which a map that fits always is.
  It may be refused, without effect, only for a reason: nobody signed, there is no such code, the code
  can fail on the map (\<open>fails\<close>), or it leaves a map that does not fit or that needs a deposit, which
  the currency may decline.
\<close>

type_synonym kontract_semantics =
  "bytes \<Rightarrow> u32 \<Rightarrow> u32 \<Rightarrow> u32 \<Rightarrow> (bytes \<rightharpoonup> bytes) \<Rightarrow> (bytes \<rightharpoonup> bytes) \<Rightarrow> bool"

type_synonym kontract_failures =
  "bytes \<Rightarrow> u32 \<Rightarrow> u32 \<Rightarrow> u32 \<Rightarrow> (bytes \<rightharpoonup> bytes) \<Rightarrow> bool"

definition refusable ::
  "pallet_config \<Rightarrow> kontract_semantics \<Rightarrow> kontract_failures \<Rightarrow> ('id, 'acc) spec_state \<Rightarrow>
   'id \<Rightarrow> i32 \<Rightarrow> u32 \<Rightarrow> u32 \<Rightarrow> u32 \<Rightarrow> bool" where
  "refusable cfg runs fails a i x f r w \<longleftrightarrow>
     (case programs a i of
        None \<Rightarrow> True
      | Some code \<Rightarrow> fails code f r w (entries a i) \<or>
          (\<exists>D. runs code f r w (entries a i) D \<and>
             (\<not> map_fits cfg D \<or>
              (\<exists>v. storage_fee (map_size (entries a i)) (map_size D) (sint x) = Deposit v))))"

inductive spec_call ::
  "pallet_config \<Rightarrow> (bytes \<Rightarrow> 'id) \<Rightarrow> kontract_semantics \<Rightarrow> kontract_failures \<Rightarrow> 'acc option \<Rightarrow> bool \<Rightarrow> 'id call \<Rightarrow>
   ('id, 'acc) spec_state \<Rightarrow> ('id, 'acc) spec_state \<Rightarrow> bool" for cfg hash runs fails where
  spec_unsigned: "spec_call cfg hash runs fails None root (UploadCode code) a a"
| spec_upload: "spec_call cfg hash runs fails (Some who) root (UploadCode code) a
    (a\<lparr>programs := (programs a)(hash code \<mapsto> code)\<rparr>)"
| spec_not_root: "c = DeleteCode i \<or> c = UpdateCode i code \<Longrightarrow> spec_call cfg hash runs fails who False c a a"
| spec_delete: "spec_call cfg hash runs fails who True (DeleteCode i) a
    (a\<lparr>programs := (programs a)(i := None)\<rparr>)"
| spec_update: "spec_call cfg hash runs fails who True (UpdateCode i code) a
    (a\<lparr>programs := (programs a)(i := None, hash code \<mapsto> code)\<rparr>)"
| spec_refused: "who = None \<or> refusable cfg runs fails a i x f r w \<Longrightarrow>
    spec_call cfg hash runs fails who root (ExecuteCode i x f r w) a a"
| spec_execute:
    "programs a i = Some code \<Longrightarrow> runs code f r w (entries a i) D \<Longrightarrow> map_fits cfg D \<Longrightarrow>
     fee = storage_fee (map_size (entries a i)) (map_size D) (sint x) \<Longrightarrow>
     (\<forall>v. fee \<noteq> Penalty v) \<Longrightarrow> pays fee who a a' \<Longrightarrow> programs a' = programs a \<Longrightarrow>
     entries a' = (entries a)(i := D) \<Longrightarrow>
     spec_call cfg hash runs fails (Some who) root (ExecuteCode i x f r w) a a'"
| spec_penalty:
    "programs a i = Some code \<Longrightarrow> runs code f r w (entries a i) D \<Longrightarrow> D \<noteq> entries a i \<Longrightarrow>
     (map_size D < 2147483648 \<longrightarrow>
        storage_fee (map_size (entries a i)) (map_size D) (sint x) = Penalty v) \<Longrightarrow>
     v < 4294967296 \<Longrightarrow> pays (Penalty v) who a a' \<Longrightarrow> programs a' = programs a \<Longrightarrow> entries a' = entries a \<Longrightarrow>
     spec_call cfg hash runs fails (Some who) root (ExecuteCode i x f r w) a a'"

inductive_simps spec_call_simps:
  "spec_call cfg hash runs fails who root (UploadCode code) a a'"
  "spec_call cfg hash runs fails who root (DeleteCode i) a a'"
  "spec_call cfg hash runs fails who root (UpdateCode i code) a a'"

text \<open>A block: a call whose code argument is too long is not dispatched.\<close>

inductive spec_calls ::
  "pallet_config \<Rightarrow> (bytes \<Rightarrow> 'id) \<Rightarrow> kontract_semantics \<Rightarrow> kontract_failures \<Rightarrow> ('o \<Rightarrow> 'acc option) \<Rightarrow> ('o \<Rightarrow> bool) \<Rightarrow>
   ('o \<times> 'id call) list \<Rightarrow> ('id, 'acc) spec_state \<Rightarrow> ('id, 'acc) spec_state \<Rightarrow> bool"
  for cfg hash runs fails signer root where
  calls_nil: "spec_calls cfg hash runs fails signer root [] a a"
| calls_call: "bounded_call cfg c \<Longrightarrow> spec_call cfg hash runs fails (signer origin) (root origin) c a b \<Longrightarrow>
    spec_calls cfg hash runs fails signer root cs b d \<Longrightarrow>
    spec_calls cfg hash runs fails signer root ((origin, c) # cs) a d"
| calls_undecodable: "\<not> bounded_call cfg c \<Longrightarrow> spec_calls cfg hash runs fails signer root cs a d \<Longrightarrow>
    spec_calls cfg hash runs fails signer root ((origin, c) # cs) a d"

section \<open>Abstraction\<close>

definition abs_state ::
  "('bal \<Rightarrow> 'acc \<Rightarrow> nat) \<Rightarrow> ('bal \<Rightarrow> 'acc \<Rightarrow> nat) \<Rightarrow> ('id, 'acc, 'bal) pallet_state \<Rightarrow>
   ('id, 'acc) spec_state" where
  "abs_state free reserved s =
     \<lparr>programs = codes s, entries = (\<lambda>i. btree_get (storages_get s i)),
      spendable = free (balances s), held = reserved (balances s)\<rparr>"

lemma abs_state_sel [simp]:
  "programs (abs_state free reserved s) = codes s"
  "entries (abs_state free reserved s) i = btree_get (storages_get s i)"
  "spendable (abs_state free reserved s) = free (balances s)"
  "held (abs_state free reserved s) = reserved (balances s)"
  by (simp_all add: abs_state_def)

lemma abs_state_codes [simp]:
  "abs_state free reserved (s\<lparr>codes := cs, events := es\<rparr>) =
   (abs_state free reserved s)\<lparr>programs := cs\<rparr>"
  by (simp add: abs_state_def storages_get_def)

text \<open>The maps a code can leave: those of the completed runs of its module, within the limits.\<close>

definition kontract_runs ::
  "('m, 'g) wasmtime \<Rightarrow> scale \<Rightarrow> (bytes \<Rightarrow> bytes) \<Rightarrow> kontract_semantics" where
  "kontract_runs W C blake2 code f r w D D' \<longleftrightarrow>
     (\<exists>m st tr c'. module_new W code = Some m \<and> btree_wf st \<and> btree_get st = D \<and>
        completed_run W (host_dispatch blake2 C) m (new_store st r w) (unat f) tr c' \<and>
        n_reads tr \<le> unat r \<and> n_writes tr \<le> unat w \<and>
        D' = fold map_apply (trace_writes (host_writes blake2) tr) D)"

text \<open>A code can fail on a map when the executor, given its encoding, returns an error or panics.\<close>

definition kontract_fails ::
  "('m, 'g) wasmtime \<Rightarrow> scale \<Rightarrow> (bytes \<Rightarrow> bytes) \<Rightarrow> kontract_failures" where
  "kontract_fails W C blake2 code f r w D \<longleftrightarrow>
     (\<exists>st raw res. btree_wf st \<and> btree_get st = D \<and> enc_map C st = Some raw \<and>
        execute_code W C blake2 code raw f r w = Some res \<and> \<not> is_ok res)"

lemma distinct_keys: "btree_wf m \<Longrightarrow> distinct (map fst m)"
  unfolding btree_wf_def using strict_sorted_iff by blast

lemma entries_size_map: "btree_wf m \<Longrightarrow> entries_size m = map_size (btree_get m)"
proof -
  assume wf: "btree_wf m"
  note dist = distinct_keys [OF wf]
  have "map_size (btree_get m) = (\<Sum>k \<in> fst ` set m. entry_size (k, the (map_of m k)))"
    by (simp add: map_size_def btree_get_map_of [OF wf] dom_map_of_conv_image_fst)
  also have "\<dots> = (\<Sum>e \<in> set m. entry_size e)"
    using dist by (subst sum.reindex) (auto simp: distinct_map inj_on_def intro!: sum.cong)
  also have "\<dots> = entries_size m"
    using dist by (simp add: entries_size_def sum_list_distinct_conv_sum_set distinct_map)
  finally show ?thesis by simp
qed

lemma storage_ok_map: "btree_wf m \<Longrightarrow> map_fits cfg (btree_get m) \<longleftrightarrow> storage_ok cfg m"
proof -
  assume wf: "btree_wf m"
  note dist = distinct_keys [OF wf]
  have "card (dom (map_of m)) = length m"
    using distinct_card [OF dist] by (simp add: dom_map_of_conv_image_fst)
  then show ?thesis
    using dist wf
    by (auto simp: map_fits_def btree_get_map_of [OF wf] storage_ok_def within_bounds_def
        finite_dom_map_of)
qed

section \<open>Simulation\<close>

locale kontract_chain = deposit_runtime "link_executor W blake2 R" free reserved + metered_engine W
  for W :: "('m, 'g) wasmtime" and blake2 :: "bytes \<Rightarrow> bytes"
    and R :: "('o, 'acc, 'id, 'bal) runtime"
    and free :: "'bal \<Rightarrow> 'acc \<Rightarrow> nat" and reserved :: "'bal \<Rightarrow> 'acc \<Rightarrow> nat"
begin

lemma executed_run:
  assumes "execute_code W (codec R) blake2 code raw f r w = Some (Ok raw')"
    and "enc_map (codec R) old = Some raw" and "btree_wf old"
  shows "\<exists>new. btree_wf new \<and> enc_map (codec R) new = Some raw' \<and>
    kontract_runs W (codec R) blake2 code f r w (btree_get old) (btree_get new)"
proof -
  have codec: "scale_codec (codec R)" using codec_laws by simp
  note run = kontracts_run [OF metered_engine_axioms, of blake2 "codec R"]
  from execute_code_Ok [OF assms(1)] obtain m st tr c' where
    exec: "module_new W code = Some m" "dec_map (codec R) raw = Some st"
      "enc_map (codec R) (storage (store_data c')) = Some raw'"
    and "completed_run W (host_dispatch blake2 (codec R)) m (new_store st r w) (unat f) tr c'"
    by blast
  moreover have "st = old"
    using exec(2) scale_codec.map_roundtrip [OF codec assms(3,2)] by simp
  ultimately have
    c: "completed_run W (host_dispatch blake2 (codec R)) m (new_store old r w) (unat f) tr c'"
    by simp
  let ?ops = "trace_writes (host_writes blake2) tr"
  have st': "storage (store_data c') = fold btree_apply ?ops old"
    using kontracts.run_storage [OF c] by simp
  have "n_reads tr \<le> unat r" and "n_writes tr \<le> unat w"
    using engine_run.run_reads [OF run c unat_u32_less] engine_run.run_writes [OF run c unat_u32_less]
    by simp_all
  with exec(1) c assms(3) have
    "kontract_runs W (codec R) blake2 code f r w (btree_get old) (fold map_apply ?ops (btree_get old))"
    unfolding kontract_runs_def by blast
  with st' exec(3) btree.wf_replay [OF assms(3), of ?ops] btree.get_replay [OF assms(3), of ?ops]
  show ?thesis by auto
qed

abbreviation abstr :: "('id, 'acc, 'bal) pallet_state \<Rightarrow> ('id, 'acc) spec_state" where
  "abstr \<equiv> abs_state free reserved"

lemma pay_settles:
  assumes "pay (link_executor W blake2 R) who i fee s = (Ok go_on, s')"
    and "balances t = balances s'"
  shows "pays fee who (abstr s) (abstr t) \<and> (go_on \<longleftrightarrow> (\<forall>v. fee \<noteq> Penalty v))"
  using assms reserve_moves reserve_others unreserve_moves unreserve_others slash_takes slash_others
  by (cases fee) (auto simp: pays_def split: option.splits)

lemma charge_penalty:
  assumes "charge (link_executor W blake2 R) who i d x s = (Ok False, s')"
    and "balances t = balances s'"
  shows "pays (Penalty (unat d)) who (abstr s) (abstr t) \<and> d \<noteq> 0"
  using assms slash_takes slash_others
  by (auto simp: charge_def pays_def split: if_splits option.splits)

lemma penalty_exact:
  assumes "old < 2147483648"
    and "charge (link_executor W blake2 R) who i (word_of_nat new - word_of_nat old) x s = (Ok False, s')"
    and "balances t = balances s'"
  shows "\<exists>v. v < 4294967296 \<and> pays (Penalty v) who (abstr s) (abstr t) \<and>
    (new < 2147483648 \<longrightarrow> storage_fee old new (sint x) = Penalty v)"
proof (cases "new < 2147483648")
  case True
  with assms have "pay (link_executor W blake2 R) who i (storage_fee old new (sint x)) s = (Ok False, s')"
    by (simp add: charge_small)
  from pay_settles [OF this assms(3)] obtain v where "storage_fee old new (sint x) = Penalty v"
    and "pays (Penalty v) who (abstr s) (abstr t)" by auto
  with storage_fee_bounds [OF assms(1) True] show ?thesis by auto
next
  case False
  with charge_penalty [OF assms(2,3)] unat_u32_less show ?thesis by blast
qed

lemma execute_simulated:
  assumes "storages_ok (link_executor W blake2 R) s"
    and exec: "pallet_execute_code (link_executor W blake2 R) origin i x f r w s = Some (Ok (), s')"
  shows "spec_call (config R) (code_hash R) (kontract_runs W (codec R) blake2) (kontract_fails W (codec R) blake2) (signed_by R origin)
    root (ExecuteCode i x f r w) (abstr s) (abstr s')"
proof -
  let ?R = "link_executor W blake2 R" and ?old = "storages_get s i"
  have ok: "storage_ok (config ?R) ?old"
    using assms(1) by (rule storages_ok_get)
  then have wf: "btree_wf ?old" by (simp add: storage_ok_def)
  from ok obtain raw where raw: "enc_map (codec ?R) ?old = Some raw"
    using encoded_old by blast
  from execute_cases [OF exec] obtain who code where who: "signed_by ?R origin = Some who"
    and code: "codes s i = Some code" by blast
  obtain raw' where run: "host_execute ?R code raw f r w = Some (Ok raw')"
    using exec by (auto simp: execute_host [OF who code raw] split: option.splits outcome.splits)
  obtain new where new: "btree_wf new" "enc_map (codec ?R) new = Some raw'"
    and runs: "kontract_runs W (codec R) blake2 code f r w (btree_get ?old) (btree_get new)"
    using executed_run [of code raw f r w raw' ?old] run raw wf by auto
  let ?d = "word_of_nat (entries_size new) - word_of_nat (entries_size ?old) :: i32"
  obtain c s1 where charge: "charge ?R who i ?d x s = (c, s1)"
    by (rule prod.exhaust)
  note res = charge_result [OF charge]
  consider (stored) "c = Ok True" "storage_ok (config ?R) new"
      "s' = s1\<lparr>storages := (storages s1)(i \<mapsto> new), events := events s1 @ [CodeExecuted i who]\<rparr>"
    | (kept) "c = Ok False" "s' = s1"
    using exec res
    by (auto simp: execute_committed [OF who code raw run new] and_then_def charge split: if_splits)
  then show ?thesis
  proof cases
    case stored
    let ?fee = "storage_fee (map_size (btree_get ?old)) (map_size (btree_get new)) (sint x)"
    have "pay ?R who i ?fee s = (Ok True, s1)"
      using charge stored charge_small [OF storage_ok_size [OF fits ok] storage_ok_size [OF fits],
          of new ?R who i x s] by (simp add: entries_size_map wf new(1))
    from pay_settles [OF this, of s'] have "pays ?fee who (abstr s) (abstr s')"
      and "\<forall>v. ?fee \<noteq> Penalty v" using stored by simp_all
    moreover have "entries (abstr s') = (entries (abstr s))(i := btree_get new)"
      using res stored by (auto simp: fun_eq_iff storages_get_def)
    ultimately show ?thesis
      using who code runs res stored storage_ok_map [OF new(1)]
      by (auto intro!: spec_execute)
  next
    case kept
    from charge_penalty [OF charge [unfolded kept(1)], of s'] kept(2)
    have pays: "pays (Penalty (unat ?d)) who (abstr s) (abstr s')" and "?d \<noteq> 0"
      by auto
    then have "btree_get new \<noteq> btree_get ?old"
      using btree_ext [OF new(1) wf] by auto
    moreover have "entries (abstr s') = entries (abstr s)"
      using res kept by (simp add: abs_state_def storages_get_def)
    moreover obtain v where "v < 4294967296" "pays (Penalty v) who (abstr s) (abstr s')"
      "map_size (btree_get new) < 2147483648 \<longrightarrow>
        storage_fee (map_size (btree_get ?old)) (map_size (btree_get new)) (sint x) = Penalty v"
      using penalty_exact [OF storage_ok_size [OF fits ok] charge [unfolded kept(1)], of s'] kept(2)
      by (auto simp: entries_size_map wf new(1))
    ultimately show ?thesis
      using who code runs res kept by (auto intro!: spec_penalty)
  qed
qed

lemma pay_Err: "pay R' who i fee s = (Err e, s') \<Longrightarrow> \<exists>v. fee = Deposit v"
  by (cases fee) (auto split: option.splits)

lemma execute_refused:
  assumes "storages_ok (link_executor W blake2 R) s" and "\<not> is_ok out"
    and exec: "pallet_execute_code (link_executor W blake2 R) origin i x f r w s = Some (out, s')"
  shows "signed_by R origin = None \<or> refusable (config R) (kontract_runs W (codec R) blake2)
    (kontract_fails W (codec R) blake2) (abstr s) i x f r w"
proof (cases "signed_by R origin = None \<or> codes s i = None")
  case False
  let ?R = "link_executor W blake2 R" and ?old = "storages_get s i"
  have ok: "storage_ok (config ?R) ?old"
    using assms(1) by (rule storages_ok_get)
  then have wf: "btree_wf ?old" by (simp add: storage_ok_def)
  from ok obtain raw where raw: "enc_map (codec ?R) ?old = Some raw"
    using encoded_old by blast
  from False obtain who code where who: "signed_by ?R origin = Some who"
    and code: "codes s i = Some code" by auto
  from exec obtain res where run: "host_execute ?R code raw f r w = Some res"
    by (auto simp: execute_host [OF who code raw] split: option.splits)
  show ?thesis
  proof (cases res)
    case (Ok raw')
    then obtain new where new: "btree_wf new" "enc_map (codec ?R) new = Some raw'"
      and runs: "kontract_runs W (codec R) blake2 code f r w (btree_get ?old) (btree_get new)"
      using executed_run [of code raw f r w raw' ?old] run raw wf by auto
    let ?fee = "storage_fee (map_size (btree_get ?old)) (map_size (btree_get new)) (sint x)"
    have "\<exists>v. ?fee = Deposit v" if fit: "storage_ok (config ?R) new"
    proof -
      note small = storage_ok_size [OF fits ok] storage_ok_size [OF fits fit]
      have same: "charge ?R who i (word_of_nat (entries_size new) - word_of_nat (entries_size ?old)) x s =
          pay ?R who i ?fee s"
        using charge_small [OF small] by (simp add: entries_size_map wf new(1))
      obtain c s1 where pay: "pay ?R who i ?fee s = (c, s1)" by (rule prod.exhaust)
      with same charge_result [of ?R who i _ x s c s1] have "c \<noteq> Panic" by auto
      moreover have "\<not> is_ok c"
        using exec assms(2) fit same pay
        by (cases c) (auto simp: execute_committed [OF who code raw run [unfolded Ok] new] and_then_def
            split: if_splits)
      ultimately obtain e where "pay ?R who i ?fee s = (Err e, s1)"
        using pay by (cases c) auto
      then show ?thesis by (rule pay_Err)
    qed
    then show ?thesis
      using code runs storage_ok_map [OF new(1), of "config R"] by (auto simp: refusable_def)
  qed (use run raw wf code in \<open>auto simp: refusable_def kontract_fails_def\<close>)
qed (auto simp: refusable_def)

lemma call_simulated:
  assumes "storages_ok (link_executor W blake2 R) s" and "bounded_call (config R) c"
    and "run_call (link_executor W blake2 R) origin c s = Some res"
  shows "spec_call (config R) (code_hash R) (kontract_runs W (codec R) blake2) (kontract_fails W (codec R) blake2) (signed_by R origin)
    (is_root R origin) c (abstr s) (abstr (committed res s))"
proof (cases c)
  case (ExecuteCode i x f r w)
  obtain out s' where res: "res = (out, s')" by (rule prod.exhaust)
  show ?thesis
  proof (cases "is_ok out")
    case True
    then have "out = Ok ()" by (cases out) auto
    with assms(3) res ExecuteCode execute_simulated [OF assms(1), of origin i x f r w s']
    show ?thesis by (simp add: committed_def)
  next
    case False
    with assms(3) res ExecuteCode execute_refused [OF assms(1) False, of origin i x f r w s']
    show ?thesis by (simp add: committed_def spec_refused)
  qed
qed (use assms(3) in \<open>auto simp: committed_def pallet_simps spec_call_simps
      split: option.splits\<close>)

lemma calls_simulated:
  "run_calls (link_executor W blake2 R) cs s = Some s' \<Longrightarrow> storages_ok (link_executor W blake2 R) s \<Longrightarrow>
   spec_calls (config R) (code_hash R) (kontract_runs W (codec R) blake2) (kontract_fails W (codec R) blake2) (signed_by R) (is_root R)
     cs (abstr s) (abstr s')"
proof (induction cs arbitrary: s)
  case (Cons oc cs)
  obtain origin c where oc: "oc = (origin, c)" by (rule prod.exhaust)
  show ?case
  proof (cases "bounded_call (config R) c")
    case True
    with Cons.prems(1) oc obtain res where
      res: "run_call (link_executor W blake2 R) origin c s = Some res"
      and rest: "run_calls (link_executor W blake2 R) cs (committed res s) = Some s'"
      by (auto split: option.splits)
    have "storages_ok (link_executor W blake2 R) (committed res s)"
      using step_storages_ok [OF codec_laws step_call [OF _ res] Cons.prems(2)] True by simp
    from calls_call [where signer = "signed_by R" and root = "is_root R",
        OF True call_simulated [OF Cons.prems(2) True res] Cons.IH [OF rest this]]
    show ?thesis by (simp add: oc)
  next
    case False
    with Cons oc show ?thesis by (simp add: calls_undecodable)
  qed
qed (simp add: calls_nil)

end

interpretation demo_kontracts: kontract_chain "script_engine mem calls" blake2
    "ledger_runtime test_config exec" "\<lambda>b a. fst (b a)" "\<lambda>b a. snd (b a)"
  for mem calls blake2 exec
  by (intro kontract_chain.intro demo.deposit_runtime_axioms script.metered_engine_axioms)

text \<open>
  C2. The pallet with its executor refines the abstract specification: for any sequence of calls on
  an empty chain, seen through \<open>abs_state\<close> every call does what the specification allows. Uploads,
  deletions and updates do exactly what it says; an execution leaves a map that a run of the code
  within its fuel and quotas computes from the old one and that fits the configuration, at the fee
  of the deposit policy on the sizes of the two maps, or is penalised by at most the penalty of the
  policy and changes nothing else, or is refused without effect for one of the reasons of
  \<open>refusable\<close>.
\<close>

theorem pallet_refines_spec:
  assumes "kontract_chain W blake2 R free reserved"
    and "run_calls (link_executor W blake2 R) cs (genesis b) = Some s"
  shows "spec_calls (config R) (code_hash R) (kontract_runs W (codec R) blake2) (kontract_fails W (codec R) blake2) (signed_by R)
    (is_root R) cs (abs_state free reserved (genesis b)) (abs_state free reserved s)"
proof -
  have "storages_ok (link_executor W blake2 R) (genesis b)"
    by (simp add: storages_ok_def genesis_def)
  with kontract_chain.calls_simulated [OF assms] show ?thesis .
qed

theorem pallet_refines_spec_witness:
  "\<exists>s. demo_chain = Some s \<and>
     spec_calls test_config id (kontract_runs (script_engine [5, 6] [CallSet 0 1 1 1]) scale_ref id)
       (kontract_fails (script_engine [5, 6] [CallSet 0 1 1 1]) scale_ref id) id
       (\<lambda>origin. origin = None) demo_calls
       (abs_state (\<lambda>b a. fst (b a)) (\<lambda>b a. snd (b a)) (genesis (\<lambda>a. if a = 1 then (47, 0) else (0, 0))))
       (abs_state (\<lambda>b a. fst (b a)) (\<lambda>b a. snd (b a)) s)"
proof -
  obtain s where s: "demo_chain = Some s"
    using demo_chain_result by blast
  from pallet_refines_spec [OF demo_kontracts.kontract_chain_axioms
      s [unfolded demo_chain_def demo_runtime_def]] s
  show ?thesis
    by (intro exI [of _ s]) (simp add: ledger_runtime_def)
qed

end
