(* ===== verification/Kontract_Sdk.thy ===== *)
theory Kontract_Sdk
  imports Pallet_Refinement
begin

text \<open>
  The guest side: what the attribute macro \<open>kontracts\<close> of \<open>kontracts-proc-macro/src/lib.rs\<close> puts
  around a kontract (\<open>write\<close>, \<open>read\<close>, \<open>delete\<close> and the panic handler). A compiled kontract is a
  function from its linear memory to what it does next: return, abort, loop for ever, or call a host
  function with the memory it has built, and go on from the memory it gets back. Where the Rust code
  holds byte vectors at a call, \<open>place\<close> says where the allocator and the compiler put them; the locale
  \<open>kontract_guest\<close> states that they are in memory, at their pointers.
\<close>

section \<open>Compiled kontracts\<close>

datatype guest =
    Done
  | Abort
  | Spin
  | Invoke bytes host_call "bytes \<Rightarrow> guest"

type_synonym kontract = "bytes \<Rightarrow> guest"
type_synonym placement = "bytes \<Rightarrow> bytes list \<Rightarrow> (u32 list \<times> bytes) option"

text \<open>
  How an engine runs one: each stretch of code up to the next event costs \<open>gas\<close> and one unit for
  the call, and a loop burns what is left.
\<close>

definition kontract_resume ::
  "(guest \<Rightarrow> nat) \<Rightarrow> kontract \<Rightarrow> (string \<rightharpoonup> extern) \<Rightarrow> nat \<Rightarrow>
   kontract event \<times> (string \<rightharpoonup> extern) \<times> nat" where
  "kontract_resume gas k ex fuel =
     (case ex ''memory'' of
        Some (Memory mem) \<Rightarrow>
          let g = k mem in
          if fuel \<le> gas g then (Trapped ''all fuel consumed by WebAssembly'', ex, 0)
          else (case g of
              Done \<Rightarrow> (Returned (\<lambda>_. Done), ex, fuel - gas g)
            | Abort \<Rightarrow> (Trapped ''unreachable'', ex, fuel - gas g)
            | Spin \<Rightarrow> (Trapped ''all fuel consumed by WebAssembly'', ex, 0)
            | Invoke mem' hc k' \<Rightarrow>
                (HostCall hc k', ex(''memory'' \<mapsto> Memory mem'), fuel - gas g - 1))
      | _ \<Rightarrow> (Trapped ''out of bounds memory access'', ex, fuel))"

text \<open>\<open>load\<close> gives the kontract of a wasm binary, \<open>mem\<close> the linear memory of a fresh instance.\<close>

definition kontract_engine ::
  "(guest \<Rightarrow> nat) \<Rightarrow> (bytes \<Rightarrow> kontract option) \<Rightarrow> bytes \<Rightarrow> (kontract, kontract) wasmtime" where
  "kontract_engine gas load mem =
     \<lparr>engine_new = True, module_new = load, add_fuel = (\<lambda>_. True), func_wrap = (\<lambda>_ _. True),
      link_module = (\<lambda>m. Some ([''memory'' \<mapsto> Memory mem], m, False)),
      enter_main = Some, resume = kontract_resume gas\<rparr>"

interpretation kontract: metered_engine "kontract_engine gas load mem" for gas load mem
  by unfold_locales
    (auto simp: kontract_engine_def kontract_resume_def Let_def
      split: option.splits extern.splits guest.splits if_splits)

section \<open>The functions of the macro\<close>

definition max_value_bytes :: nat where
  "max_value_bytes = 100"

text \<open>The panic handler aborts, which is the \<open>unreachable\<close> trap; so does a failed allocation.\<close>

definition sdk_write :: "placement \<Rightarrow> bytes \<Rightarrow> bytes \<Rightarrow> kontract \<Rightarrow> kontract" where
  "sdk_write place key value k mem =
     (case place mem [key, value] of
        Some ([key_ptr, value_ptr], mem') \<Rightarrow>
          Invoke mem' (CallSet key_ptr (word_of_nat (length key)) value_ptr
            (word_of_nat (length value))) k
      | _ \<Rightarrow> Abort)"

definition sdk_read :: "placement \<Rightarrow> scale \<Rightarrow> bytes \<Rightarrow> (bytes \<Rightarrow> kontract) \<Rightarrow> kontract" where
  "sdk_read place C key k mem =
     (let result = replicate max_value_bytes 0 in
      case place mem [key, result] of
        Some ([key_ptr, result_ptr], mem') \<Rightarrow>
          Invoke mem' (CallGet key_ptr (word_of_nat (length key)) result_ptr
            (word_of_nat (length result)))
            (\<lambda>mem''. case dec_bytes C (window (unat result_ptr) (length result) mem'') of
                Some (value, _) \<Rightarrow> k value mem''
              | None \<Rightarrow> Abort)
      | _ \<Rightarrow> Abort)"

definition sdk_delete :: "placement \<Rightarrow> bytes \<Rightarrow> kontract \<Rightarrow> kontract" where
  "sdk_delete place key k mem =
     (case place mem [key] of
        Some ([key_ptr], mem') \<Rightarrow>
          Invoke mem' (CallRemove key_ptr (word_of_nat (length key))) k
      | _ \<Rightarrow> Abort)"

section \<open>Buffers in guest memory\<close>

locale kontract_guest = scale_codec C for C :: scale +
  fixes place :: placement
    and gas :: "guest \<Rightarrow> nat"
    and limit :: nat
  assumes placed: "place mem bufs = Some (ps, mem') \<Longrightarrow> length ps = length bufs \<and>
      (\<forall>i < length bufs. unat (ps ! i) + length (bufs ! i) \<le> length mem' \<and>
         window (unat (ps ! i)) (length (bufs ! i)) mem' = bufs ! i)"
    and page_fits: "sum_list (map length bufs) \<le> 65536 \<Longrightarrow> place mem bufs \<noteq> None"
    and gas_limit: "gas g \<le> limit"
begin

lemma place_two:
  assumes "length a + length b \<le> 65536"
  obtains p q mem' where "place mem [a, b] = Some ([p, q], mem')"
    and "unat p + length a \<le> length mem'" and "window (unat p) (length a) mem' = a"
    and "unat q + length b \<le> length mem'" and "window (unat q) (length b) mem' = b"
proof -
  obtain ps mem' where pl: "place mem [a, b] = Some (ps, mem')"
    using page_fits [of "[a, b]" mem] assms by auto
  note at = placed [OF pl]
  from at obtain p q where ps: "ps = [p, q]"
    by (auto simp: length_Suc_conv numeral_2_eq_2)
  from at have "\<forall>i < 2. unat (ps ! i) + length ([a, b] ! i) \<le> length mem' \<and>
      window (unat (ps ! i)) (length ([a, b] ! i)) mem' = [a, b] ! i"
    by simp
  then have "unat p + length a \<le> length mem' \<and> window (unat p) (length a) mem' = a"
    and "unat q + length b \<le> length mem' \<and> window (unat q) (length b) mem' = b"
    unfolding ps by (auto dest: spec [of _ 0] spec [of _ 1])
  with pl ps that show thesis by blast
qed

lemma place_one:
  assumes "length a \<le> 65536"
  obtains p mem' where "place mem [a] = Some ([p], mem')"
    and "unat p + length a \<le> length mem'" and "window (unat p) (length a) mem' = a"
proof -
  obtain ps mem' where pl: "place mem [a] = Some (ps, mem')"
    using page_fits [of "[a]" mem] assms by auto
  note at = placed [OF pl]
  from at obtain p where ps: "ps = [p]" by (auto simp: length_Suc_conv)
  with at pl that show thesis by auto
qed

end

section \<open>One host call of a running kontract\<close>

abbreviation kontract_drive where
  "kontract_drive gas load m0 blake2 C \<equiv>
     drive (kontract_engine gas load m0) (host_dispatch blake2 C)"

lemma kontract_engine_sel [simp]:
  "engine_new (kontract_engine gas load mem)" "module_new (kontract_engine gas load mem) = load"
  "func_wrap (kontract_engine gas load mem) md nm"
  "add_fuel (kontract_engine gas load mem) units"
  "link_module (kontract_engine gas load mem) m = Some ([''memory'' \<mapsto> Memory mem], m, False)"
  "enter_main (kontract_engine gas load mem) = Some"
  "resume (kontract_engine gas load mem) = kontract_resume gas"
  by (simp_all add: kontract_engine_def)

text \<open>Only what a kontract does with the memory at hand matters.\<close>

lemma drive_cong:
  assumes "exports c ''memory'' = Some (Memory mem)" and "k mem = k' mem"
  shows "kontract_drive gas load m0 blake2 C k c fuel = kontract_drive gas load m0 blake2 C k' c fuel"
proof -
  have "kontract_resume gas k (exports c) fuel = kontract_resume gas k' (exports c) fuel"
    using assms by (simp add: kontract_resume_def)
  then show ?thesis by (subst (1 2) drive.simps) simp
qed

lemma drive_invoke:
  assumes "exports c ''memory'' = Some (Memory mem)" and "k mem = Invoke mem' hc k'"
    and "gas (Invoke mem' hc k') < fuel"
  shows "kontract_drive gas load m0 blake2 C k c fuel =
    (case host_dispatch blake2 C hc (c\<lparr>exports := (exports c)(''memory'' \<mapsto> Memory mem')\<rparr>) of
       (Ok _, c') \<Rightarrow>
         kontract_drive gas load m0 blake2 C k' c' (fuel - Suc (gas (Invoke mem' hc k')))
     | (Err reason, c') \<Rightarrow> Some (Err reason, c', fuel - Suc (gas (Invoke mem' hc k')))
     | (Panic, c') \<Rightarrow> Some (Panic, c', fuel - Suc (gas (Invoke mem' hc k'))))"
  using assms by (subst drive.simps) (simp add: kontract_resume_def)

lemma drive_done:
  assumes "exports c ''memory'' = Some (Memory mem)" and "gas Done < fuel"
  shows "kontract_drive gas load m0 blake2 C (\<lambda>_. Done) c fuel =
    Some (Ok (\<lambda>_. Done), c, fuel - gas Done)"
  using assms by (subst drive.simps) (simp add: kontract_resume_def)

lemma drive_abort:
  assumes "exports c ''memory'' = Some (Memory mem)" and "gas Abort < fuel"
  shows "kontract_drive gas load m0 blake2 C (\<lambda>_. Abort) c fuel =
    Some (Err ''unreachable'', c, fuel - gas Abort)"
  using assms by (subst drive.simps) (simp add: kontract_resume_def)

lemma drive_spin:
  assumes "exports c ''memory'' = Some (Memory mem)"
  shows "kontract_drive gas load m0 blake2 C (\<lambda>_. Spin) c fuel =
    Some (Err ''all fuel consumed by WebAssembly'', c, 0)"
  using assms by (subst drive.simps) (simp add: kontract_resume_def)

lemmas drive_ends = drive_done drive_abort drive_spin

text \<open>A caller record in which a kontract can run on, with what is left of its store and quotas.\<close>

definition running :: "caller \<Rightarrow> kv_storage \<Rightarrow> u32 \<Rightarrow> u32 \<Rightarrow> u32 \<Rightarrow> u32 \<Rightarrow> bool" where
  "running c st mr mw nr nw \<longleftrightarrow>
     (\<exists>mem. exports c ''memory'' = Some (Memory mem)) \<and> storage (store_data c) = st \<and>
     max_n_read (store_data c) = mr \<and> max_n_write (store_data c) = mw \<and>
     curr_n_read (store_data c) = nr \<and> curr_n_write (store_data c) = nw"

lemma running_start: "running \<lparr>store_data = new_store st mr mw, exports = [''memory'' \<mapsto> Memory m0]\<rparr> st mr mw 0 0"
  by (simp add: running_def)

context kontract_guest
begin

abbreviation run where
  "run load m0 blake2 \<equiv> kontract_drive gas load m0 blake2 C"

text \<open>A \<open>write\<close> within its quota goes on with the value stored; beyond it the run traps.\<close>

lemma run_write:
  assumes "running c st mr mw nr nw" and "length key + length value \<le> 65536" and "limit < fuel"
  shows "\<exists>c' fuel'. fuel \<le> fuel' + Suc limit \<and> (if nw + 1 \<le> mw
    then running c' (btree_insert (blake2 key) value st) mr mw nr (nw + 1) \<and>
      run load m0 blake2 (sdk_write place key value k) c fuel = run load m0 blake2 k c' fuel'
    else run load m0 blake2 (sdk_write place key value k) c fuel =
      Some (Err ''ExceededWrites'', c', fuel'))"
proof -
  obtain mem where mem: "exports c ''memory'' = Some (Memory mem)"
    using assms(1) by (auto simp: running_def)
  obtain kp vp mem' where pl: "place mem [key, value] = Some ([kp, vp], mem')"
    and at: "unat kp + length key \<le> length mem'" "window (unat kp) (length key) mem' = key"
      "unat vp + length value \<le> length mem'" "window (unat vp) (length value) mem' = value"
    using assms(2) by (rule place_two)
  let ?hc = "CallSet kp (word_of_nat (length key)) vp (word_of_nat (length value))"
  let ?c = "c\<lparr>exports := (exports c)(''memory'' \<mapsto> Memory mem')\<rparr>"
  have g: "gas (Invoke mem' ?hc k) < fuel" "fuel \<le> fuel - Suc (gas (Invoke mem' ?hc k)) + Suc limit"
    using gas_limit [of "Invoke mem' ?hc k"] assms(3) by simp_all
  have small: "length key < 4294967296" "length value < 4294967296"
    using assms(2) by linarith+
  have read: "read_vec ?c kp (word_of_nat (length key)) = Ok key"
    "read_vec ?c vp (word_of_nat (length value)) = Ok value"
    using at small by (simp_all add: read_vec_memory unat_u32_of_nat)
  have inv: "sdk_write place key value k mem = Invoke mem' ?hc k"
    by (simp add: sdk_write_def pl)
  note drive = drive_invoke [where k = "sdk_write place key value k" and gas = gas, OF mem inv g(1)]
  have host: "env_set blake2 kp (word_of_nat (length key)) vp (word_of_nat (length value)) ?c =
      kontracts_set blake2 key value ?c"
    using read by (simp add: env_set_def and_then_def)
  show ?thesis
    using g assms(1) drive
    by (intro exI [of _ "snd (kontracts_set blake2 key value ?c)"]
        exI [of _ "fuel - Suc (gas (Invoke mem' ?hc k))"])
       (auto simp: host kontracts_set_def update_with_check_def running_def Let_def)
qed

lemma run_delete:
  assumes "running c st mr mw nr nw" and "length key \<le> 65536" and "limit < fuel"
  shows "\<exists>c' fuel'. fuel \<le> fuel' + Suc limit \<and> (if nw + 1 \<le> mw
    then running c' (btree_remove (blake2 key) st) mr mw nr (nw + 1) \<and>
      run load m0 blake2 (sdk_delete place key k) c fuel = run load m0 blake2 k c' fuel'
    else run load m0 blake2 (sdk_delete place key k) c fuel =
      Some (Err ''ExceededWrites'', c', fuel'))"
proof -
  obtain mem where mem: "exports c ''memory'' = Some (Memory mem)"
    using assms(1) by (auto simp: running_def)
  obtain kp mem' where pl: "place mem [key] = Some ([kp], mem')"
    and at: "unat kp + length key \<le> length mem'" "window (unat kp) (length key) mem' = key"
    using assms(2) by (rule place_one)
  let ?hc = "CallRemove kp (word_of_nat (length key))"
  let ?c = "c\<lparr>exports := (exports c)(''memory'' \<mapsto> Memory mem')\<rparr>"
  have g: "gas (Invoke mem' ?hc k) < fuel" "fuel \<le> fuel - Suc (gas (Invoke mem' ?hc k)) + Suc limit"
    using gas_limit [of "Invoke mem' ?hc k"] assms(3) by simp_all
  have "length key < 4294967296" using assms(2) by linarith
  then have read: "read_vec ?c kp (word_of_nat (length key)) = Ok key"
    using at by (simp add: read_vec_memory unat_u32_of_nat)
  have inv: "sdk_delete place key k mem = Invoke mem' ?hc k"
    by (simp add: sdk_delete_def pl)
  note drive = drive_invoke [where k = "sdk_delete place key k" and gas = gas, OF mem inv g(1)]
  have host: "env_remove blake2 kp (word_of_nat (length key)) ?c = kontracts_remove blake2 key ?c"
    using read by (simp add: env_remove_def and_then_def)
  show ?thesis
    using g assms(1) drive
    by (intro exI [of _ "snd (kontracts_remove blake2 key ?c)"]
        exI [of _ "fuel - Suc (gas (Invoke mem' ?hc k))"])
       (auto simp: host kontracts_remove_def update_with_check_def running_def Let_def)
qed

text \<open>
  A \<open>read\<close> within its quota goes on with the stored value, or with the empty vector, when that is
  shorter than 64 bytes; up to the 100 bytes of the buffer it panics the host, above it traps.
\<close>

lemma get_into_buffer:
  assumes "running c st mr mw nr nw" and "exports c ''memory'' = Some (Memory mem')"
    and "read_vec c kp ks = Ok key" and "unat rp + 100 \<le> length mem'"
    and "v = (case btree_get st (blake2 key) of Some v \<Rightarrow> v | None \<Rightarrow> [])"
  shows "\<exists>c'. (if nr + 1 \<le> mr then
      if length v < 64 then env_get blake2 C kp ks rp 100 c = (Ok (), c') \<and>
        running c' st mr mw (nr + 1) nw \<and>
        exports c' ''memory'' = Some (Memory (overwrite (unat rp) (enc_bytes C v) mem'))
      else if length v \<le> 100 then env_get blake2 C kp ks rp 100 c = (Panic, c')
      else env_get blake2 C kp ks rp 100 c = (Err ''Impossible write data in wasm memory'', c')
    else env_get blake2 C kp ks rp 100 c = (Err ''ExceededReads'', c'))"
proof -
  define c1 where "c1 = snd (kontracts_get blake2 key c)"
  have get: "kontracts_get blake2 key c =
      (if nr + 1 \<le> mr then (Ok (btree_get st (blake2 key)), c1) else (Err ''ExceededReads'', c))"
    using assms(1)
    by (auto simp: c1_def kontracts_get_def update_with_check_def running_def Let_def)
  have c1: "nr + 1 \<le> mr \<Longrightarrow> running c1 st mr mw (nr + 1) nw"
      "exports c1 ''memory'' = Some (Memory mem')"
    using assms(1,2)
    by (auto simp: c1_def kontracts_get_def update_with_check_def running_def Let_def)
  have "write_vec C v rp 100 c1 = (Err ''Impossible write data in wasm memory'', c1)"
    if "100 < length v"
    using that c1(2) by (simp add: write_vec_def)
  moreover have "write_vec C v rp 100 c1 =
      (if length v < 64 then (Ok (), c1\<lparr>exports := (exports c1)(''memory'' \<mapsto>
         Memory (overwrite (unat rp) (enc_bytes C v) mem'))\<rparr>) else (Panic, c1))"
    if "length v \<le> 100"
    using that write_vec_result [OF c1(2), of v 100 rp] assms(4) by auto
  ultimately show ?thesis
    using assms(3) get c1
    by (cases "nr + 1 \<le> mr"; cases "length v < 64"; cases "length v \<le> 100")
       (simp_all add: env_get_def and_then_def running_def flip: assms(5))
qed

lemma run_read:
  assumes "running c st mr mw nr nw" and "length key \<le> 60000" and "limit < fuel"
    and "v = (case btree_get st (blake2 key) of Some v \<Rightarrow> v | None \<Rightarrow> [])"
  shows "\<exists>c' fuel'. fuel \<le> fuel' + Suc limit \<and> (if nr + 1 \<le> mr then
      if length v < 64 then running c' st mr mw (nr + 1) nw \<and>
        run load m0 blake2 (sdk_read place C key k) c fuel = run load m0 blake2 (k v) c' fuel'
      else if length v \<le> 100 then
        run load m0 blake2 (sdk_read place C key k) c fuel = Some (Panic, c', fuel')
      else run load m0 blake2 (sdk_read place C key k) c fuel =
        Some (Err ''Impossible write data in wasm memory'', c', fuel')
    else run load m0 blake2 (sdk_read place C key k) c fuel =
      Some (Err ''ExceededReads'', c', fuel'))"
proof -
  obtain mem where mem: "exports c ''memory'' = Some (Memory mem)"
    using assms(1) by (auto simp: running_def)
  have "length key + length (replicate max_value_bytes 0 :: bytes) \<le> 65536"
    using assms(2) by (simp add: max_value_bytes_def)
  then obtain kp rp mem' where
    pl: "place mem [key, replicate max_value_bytes 0] = Some ([kp, rp], mem')"
    and at: "unat kp + length key \<le> length mem'" "window (unat kp) (length key) mem' = key"
      "unat rp + length (replicate max_value_bytes 0 :: bytes) \<le> length mem'"
    by (rule place_two)
  define after where "after = (\<lambda>mem''. case dec_bytes C (window (unat rp) max_value_bytes mem'') of
      Some (value, _) \<Rightarrow> k value mem'' | None \<Rightarrow> Abort)"
  let ?hc = "CallGet kp (word_of_nat (length key)) rp 100"
  let ?c = "c\<lparr>exports := (exports c)(''memory'' \<mapsto> Memory mem')\<rparr>"
  have inv: "sdk_read place C key k mem = Invoke mem' ?hc after"
    using pl by (simp add: sdk_read_def after_def max_value_bytes_def)
  have g: "gas (Invoke mem' ?hc after) < fuel"
    "fuel \<le> fuel - Suc (gas (Invoke mem' ?hc after)) + Suc limit"
    using gas_limit [of "Invoke mem' ?hc after"] assms(3) by simp_all
  have key: "read_vec ?c kp (word_of_nat (length key)) = Ok key"
    using at assms(2) by (simp add: read_vec_memory unat_u32_of_nat)
  have running: "running ?c st mr mw nr nw" "exports ?c ''memory'' = Some (Memory mem')"
    using assms(1) by (auto simp: running_def)
  have room: "unat rp + 100 \<le> length mem'"
    using at(3) by (simp add: max_value_bytes_def)
  from get_into_buffer [where ?blake2.0 = blake2 and key = key, OF running key room assms(4)] obtain c' where
    get: "if nr + 1 \<le> mr then
        if length v < 64 then env_get blake2 C kp (word_of_nat (length key)) rp 100 ?c = (Ok (), c') \<and>
          running c' st mr mw (nr + 1) nw \<and>
          exports c' ''memory'' = Some (Memory (overwrite (unat rp) (enc_bytes C v) mem'))
        else if length v \<le> 100 then
          env_get blake2 C kp (word_of_nat (length key)) rp 100 ?c = (Panic, c')
        else env_get blake2 C kp (word_of_nat (length key)) rp 100 ?c =
          (Err ''Impossible write data in wasm memory'', c')
      else env_get blake2 C kp (word_of_nat (length key)) rp 100 ?c = (Err ''ExceededReads'', c')"
    by blast
  let ?mem'' = "overwrite (unat rp) (enc_bytes C v) mem'"
  have decoded: "after ?mem'' = k v ?mem''" if small: "length v < 64"
  proof -
    have len: "length (enc_bytes C v) = Suc (length v)"
      using bytes_length_Suc_iff [of v] small by simp
    then have "window (unat rp) max_value_bytes ?mem'' =
        enc_bytes C v @ take (100 - Suc (length v)) (drop (unat rp + Suc (length v)) mem')"
      using small room by (simp add: window_def overwrite_def max_value_bytes_def)
    then show ?thesis
      using bytes_roundtrip [of v] small by (simp add: after_def)
  qed
  have go_on: "run load m0 blake2 after c' f = run load m0 blake2 (k v) c' f"
    if "length v < 64" "exports c' ''memory'' = Some (Memory ?mem'')" for f
    using that(2) decoded [OF that(1)] by (rule drive_cong)
  show ?thesis
    using drive_invoke [where k = "sdk_read place C key k" and gas = gas, OF mem inv g(1)]
      get g(2) go_on
    by (intro exI [of _ c'] exI [of _ "fuel - Suc (gas (Invoke mem' ?hc after))"])
       (auto split: if_splits)
qed

end

section \<open>A placement\<close>

text \<open>One page of memory holding the buffers one after the other: the instance of the witnesses.\<close>

fun offsets :: "nat \<Rightarrow> bytes list \<Rightarrow> u32 list" where
  "offsets n [] = []"
| "offsets n (b # bs) = word_of_nat n # offsets (n + length b) bs"

definition page_place :: placement where
  "page_place mem bufs =
     (if sum_list (map length bufs) \<le> 65536
      then Some (offsets 0 bufs, concat bufs @ replicate (65536 - sum_list (map length bufs)) 0)
      else None)"

lemma length_offsets [simp]: "length (offsets n bufs) = length bufs"
  by (induction n bufs rule: offsets.induct) auto

lemma offsets_window:
  "length pre = n \<Longrightarrow> n + sum_list (map length bufs) < 4294967296 \<Longrightarrow> i < length bufs \<Longrightarrow>
   unat (offsets n bufs ! i) + length (bufs ! i) \<le> n + sum_list (map length bufs) \<and>
   window (unat (offsets n bufs ! i)) (length (bufs ! i)) (pre @ concat bufs @ post) = bufs ! i"
proof (induction n bufs arbitrary: pre i rule: offsets.induct)
  case (2 n b bs)
  show ?case
  proof (cases i)
    case 0
    with 2 show ?thesis by (simp add: unat_u32_of_nat window_def)
  next
    case (Suc j)
    with 2 "2.IH" [of "pre @ b" j] show ?thesis by simp
  qed
qed simp

interpretation page: kontract_guest scale_ref page_place "\<lambda>_. 10" 10
proof
  fix mem bufs ps mem'
  assume "page_place mem bufs = Some (ps, mem')"
  then have small: "sum_list (map length bufs) \<le> 65536" and ps: "ps = offsets 0 bufs"
    and mem': "mem' = concat bufs @ replicate (65536 - sum_list (map length bufs)) 0"
    by (auto simp: page_place_def split: if_splits)
  have "length mem' = 65536"
    using small by (simp add: mem' length_concat)
  with small offsets_window [of "[]" 0 bufs _ "replicate (65536 - sum_list (map length bufs)) 0"]
  show "length ps = length bufs \<and> (\<forall>i < length bufs. unat (ps ! i) + length (bufs ! i) \<le> length mem' \<and>
      window (unat (ps ! i)) (length (bufs ! i)) mem' = bufs ! i)"
    by (fastforce simp: ps mem')
qed (simp_all add: page_place_def)

section \<open>Executing a compiled kontract\<close>

abbreviation kontract_start where
  "kontract_start st mr mw mem \<equiv>
     \<lparr>store_data = new_store st mr mw, exports = [''memory'' \<mapsto> Memory mem]\<rparr>"

text \<open>The wasm binary \<open>code\<close> is the compiled kontract \<open>k\<close>.\<close>

definition binary_of :: "(bytes \<Rightarrow> kontract option) \<Rightarrow> bytes \<Rightarrow> kontract \<Rightarrow> bool" where
  "binary_of load code k \<longleftrightarrow> load code = Some k"

lemma execute_kontract:
  assumes "binary_of load code k" and "dec_map C raw = Some st"
  shows "execute_code (kontract_engine gas load m0) C blake2 code raw fuel mr mw =
    (case kontract_drive gas load m0 blake2 C k (kontract_start st mr mw m0) (unat fuel) of
       None \<Rightarrow> None
     | Some (Ok _, c', _) \<Rightarrow>
         (case enc_map C (storage (store_data c')) of Some raw' \<Rightarrow> Some (Ok raw') | None \<Rightarrow> Some Panic)
     | Some (Err reason, _, _) \<Rightarrow> Some (Err (trap_error reason))
     | Some (Panic, _, _) \<Rightarrow> Some Panic)"
  using assms by (intro execute_code_main) (simp add: enters_main_def binary_of_def)

end
