(* ===== verification/Kontract_Programs.thy ===== *)
theory Kontract_Programs
  imports Kontract_Sdk
begin

text \<open>
  Kontracts in general. Every \<open>main\<close> that works on its storage through the functions of the macro is a
  \<open>program\<close>: a tree of \<open>write\<close>, \<open>delete\<close> and \<open>read\<close> calls, where a read goes on with the value it
  returned. \<open>compile\<close> is the guest the macro makes of it; \<open>direct\<close> is what its author means, a walk
  over a finite map and two quotas. The theorem says that executing the first is computing the second,
  through the guest's memory, the host functions, the wrapping counters and the encoded storage.
\<close>

section \<open>Programs\<close>

datatype program =
    Finish
  | Fault
  | Forever
  | Write bytes bytes program
  | Delete bytes program
  | Read bytes "bytes \<Rightarrow> program"

primrec compile :: "placement \<Rightarrow> scale \<Rightarrow> program \<Rightarrow> kontract" where
  "compile place C Finish = (\<lambda>_. Done)"
| "compile place C Fault = (\<lambda>_. Abort)"
| "compile place C Forever = (\<lambda>_. Spin)"
| "compile place C (Write k v p) = sdk_write place k v (compile place C p)"
| "compile place C (Delete k p) = sdk_delete place k (compile place C p)"
| "compile place C (Read k f) = sdk_read place C k (\<lambda>v. compile place C (f v))"

text \<open>
  The meaning over a map \<open>D\<close> with \<open>r\<close> reads and \<open>w\<close> writes left. A key that is absent reads as the
  empty vector; a value of 64 bytes or more cannot be read: up to 100 bytes it panics the host.
\<close>

abbreviation looked_up :: "(bytes \<rightharpoonup> bytes) \<Rightarrow> bytes \<Rightarrow> bytes" where
  "looked_up D k \<equiv> (case D k of Some v \<Rightarrow> v | None \<Rightarrow> [])"

primrec direct ::
  "(bytes \<Rightarrow> bytes) \<Rightarrow> program \<Rightarrow> nat \<Rightarrow> nat \<Rightarrow> (bytes \<rightharpoonup> bytes) \<Rightarrow>
   (bytes \<rightharpoonup> bytes, execution_error) outcome" where
  "direct h Finish r w D = Ok D"
| "direct h Fault r w D = Err WasmPanic"
| "direct h Forever r w D = Err OutOfFuel"
| "direct h (Write k v p) r w D =
     (if w = 0 then Err OutOfWrites else direct h p r (w - 1) (D(h k \<mapsto> v)))"
| "direct h (Delete k p) r w D =
     (if w = 0 then Err OutOfWrites else direct h p r (w - 1) (D(h k := None)))"
| "direct h (Read k f) r w D =
     (if r = 0 then Err OutOfReads
      else if length (looked_up D (h k)) < 64 then direct h (f (looked_up D (h k))) (r - 1) w D
      else if length (looked_up D (h k)) \<le> 100 then Panic
      else Err WasmPanic)"

text \<open>The host calls of that walk, the one that is refused included, and whether its buffers fit a page.\<close>

primrec calls_made :: "(bytes \<Rightarrow> bytes) \<Rightarrow> program \<Rightarrow> nat \<Rightarrow> nat \<Rightarrow> (bytes \<rightharpoonup> bytes) \<Rightarrow> nat" where
  "calls_made h Finish r w D = 0"
| "calls_made h Fault r w D = 0"
| "calls_made h Forever r w D = 0"
| "calls_made h (Write k v p) r w D =
     Suc (if w = 0 then 0 else calls_made h p r (w - 1) (D(h k \<mapsto> v)))"
| "calls_made h (Delete k p) r w D =
     Suc (if w = 0 then 0 else calls_made h p r (w - 1) (D(h k := None)))"
| "calls_made h (Read k f) r w D =
     Suc (if r = 0 \<or> 64 \<le> length (looked_up D (h k)) then 0
          else calls_made h (f (looked_up D (h k))) (r - 1) w D)"

primrec buffers_fit :: "(bytes \<Rightarrow> bytes) \<Rightarrow> program \<Rightarrow> nat \<Rightarrow> nat \<Rightarrow> (bytes \<rightharpoonup> bytes) \<Rightarrow> bool" where
  "buffers_fit h Finish r w D = True"
| "buffers_fit h Fault r w D = True"
| "buffers_fit h Forever r w D = True"
| "buffers_fit h (Write k v p) r w D =
     (length k + length v \<le> 65536 \<and> (w = 0 \<or> buffers_fit h p r (w - 1) (D(h k \<mapsto> v))))"
| "buffers_fit h (Delete k p) r w D =
     (length k \<le> 65536 \<and> (w = 0 \<or> buffers_fit h p r (w - 1) (D(h k := None))))"
| "buffers_fit h (Read k f) r w D =
     (length k \<le> 60000 \<and>
      (r = 0 \<or> 64 \<le> length (looked_up D (h k)) \<or>
       buffers_fit h (f (looked_up D (h k))) (r - 1) w D))"

lemma calls_made_le: "calls_made h p r w D \<le> Suc (r + w)"
proof (induction p arbitrary: r w D)
  case (Write k v p)
  from Write [of r "w - 1" "D(h k \<mapsto> v)"] show ?case by (cases w) (simp_all del: fun_upd_apply)
next
  case (Delete k p)
  from Delete [of r "w - 1" "D(h k := None)"] show ?case by (cases w) (simp_all del: fun_upd_apply)
next
  case (Read k f)
  from Read [OF rangeI, of "looked_up D (h k)" "r - 1" w D] show ?case by auto
qed simp_all

section \<open>How a run ends\<close>

text \<open>The end of \<open>execute_code\<close>: the storage is encoded.\<close>

definition encode_result :: "scale \<Rightarrow> kv_storage \<Rightarrow> (bytes, execution_error) outcome" where
  "encode_result C st = (case enc_map C st of Some raw \<Rightarrow> Ok raw | None \<Rightarrow> Panic)"

lemma one_le_word [simp]: "(1 :: u32) \<le> w \<longleftrightarrow> w \<noteq> 0"
  by (simp add: word_le_nat_alt Suc_le_eq unat_gt_0)

lemma two_le_word: "(1 + 1 :: u32) \<le> w \<longleftrightarrow> w \<noteq> 0 \<and> w \<noteq> 1"
proof -
  have "w = 0 \<longleftrightarrow> unat w = 0" "w = 1 \<longleftrightarrow> unat w = 1"
    by (simp_all add: word_unat_eq_iff)
  then show ?thesis by (auto simp: word_le_nat_alt)
qed

lemma dec_case: "(case enc_map C st of Some raw' \<Rightarrow> Some (Ok raw') | None \<Rightarrow> Some Panic) =
    Some (encode_result C st)"
  by (simp add: encode_result_def split: option.split)

lemma trap_error_simps [simp]:
  "trap_error ''ExceededWrites'' = OutOfWrites" "trap_error ''ExceededReads'' = OutOfReads"
  "trap_error ''unreachable'' = WasmPanic"
  "trap_error ''all fuel consumed by WebAssembly'' = OutOfFuel"
  "trap_error ''Impossible write data in wasm memory'' = WasmPanic"
  by (simp_all add: trap_error_def)

section \<open>Compiled programs\<close>

lemma quota_step:
  fixes n m :: u32
  assumes "n \<le> m" and "unat n + 1 < 4294967296"
  shows "n + 1 \<le> m \<longleftrightarrow> unat m - unat n \<noteq> 0" and "unat (n + 1) = unat n + 1"
proof -
  show suc: "unat (n + 1) = unat n + 1"
    using assms(2) by (simp add: unat_word_ariths)
  show "n + 1 \<le> m \<longleftrightarrow> unat m - unat n \<noteq> 0"
    using assms(1) by (auto simp: word_le_nat_alt suc)
qed

text \<open>What \<open>run\<close> may show for an outcome of the direct walk.\<close>

definition ends_as ::
  "(kontract, trap) outcome \<times> caller \<times> nat \<Rightarrow> (bytes \<rightharpoonup> bytes, execution_error) outcome \<Rightarrow> bool" where
  "ends_as fin res \<longleftrightarrow>
     (case res of
        Ok D \<Rightarrow> (\<exists>g. fst fin = Ok g) \<and> btree_wf (storage (store_data (fst (snd fin)))) \<and>
          btree_get (storage (store_data (fst (snd fin)))) = D
      | Err e \<Rightarrow> (\<exists>reason. fst fin = Err reason \<and> trap_error reason = e)
      | Panic \<Rightarrow> fst fin = Panic)"

context kontract_guest
begin

text \<open>The compiled program \<open>p\<close> is right from every point of a run with enough fuel left.\<close>

definition implements ::
  "(bytes \<Rightarrow> kontract option) \<Rightarrow> bytes \<Rightarrow> (bytes \<Rightarrow> bytes) \<Rightarrow> u32 \<Rightarrow> u32 \<Rightarrow> program \<Rightarrow> bool" where
  "implements load m0 blake2 mr mw p \<longleftrightarrow>
     (\<forall>c st nr nw fuel. let r = unat mr - unat nr; w = unat mw - unat nw;
          n = calls_made blake2 p r w (btree_get st) in
        running c st mr mw nr nw \<longrightarrow> btree_wf st \<longrightarrow> nr \<le> mr \<longrightarrow> nw \<le> mw \<longrightarrow>
        buffers_fit blake2 p r w (btree_get st) \<longrightarrow> Suc n * Suc limit \<le> fuel \<longrightarrow>
        unat nr + unat nw + Suc n < 4294967296 \<longrightarrow>
        (\<exists>fin. run load m0 blake2 (compile place C p) c fuel = Some fin \<and>
           ends_as fin (direct blake2 p r w (btree_get st))))"

lemma implementsD:
  assumes "implements load m0 blake2 mr mw p" and "running c st mr mw nr nw" and "btree_wf st"
    and "nr \<le> mr" and "nw \<le> mw" and "r = unat mr - unat nr" and "w = unat mw - unat nw"
    and "buffers_fit blake2 p r w (btree_get st)"
    and "Suc (calls_made blake2 p r w (btree_get st)) * Suc limit \<le> fuel"
    and "unat nr + unat nw + Suc (calls_made blake2 p r w (btree_get st)) < 4294967296"
  shows "\<exists>fin. run load m0 blake2 (compile place C p) c fuel = Some fin \<and>
    ends_as fin (direct blake2 p r w (btree_get st))"
  using assms unfolding implements_def Let_def by blast

lemma implements_ends:
  "implements load m0 blake2 mr mw Finish" "implements load m0 blake2 mr mw Fault"
  "implements load m0 blake2 mr mw Forever"
proof -
  have "gas g < fuel" if "Suc limit \<le> fuel" for g fuel
    using gas_limit [of g] that by simp
  with drive_ends [where gas = gas] show
    "implements load m0 blake2 mr mw Finish" "implements load m0 blake2 mr mw Fault"
    "implements load m0 blake2 mr mw Forever"
    by (auto simp: implements_def ends_as_def running_def)
qed

text \<open>A write or delete: one step of the run, as \<open>run_write\<close> and \<open>run_delete\<close> give it, then the rest.\<close>

lemma implements_update:
  assumes rest: "implements load m0 blake2 mr mw p"
    and f: "fuel \<le> f + Suc limit" and go: "if nw + 1 \<le> mw
      then running c' st' mr mw nr (nw + 1) \<and> whole = run load m0 blake2 (compile place C p) c' f
      else whole = Some (Err ''ExceededWrites'', c', f)"
    and wf: "btree_wf st'" and le: "nr \<le> mr" "nw \<le> mw"
    and r: "r = unat mr - unat nr" and w: "w = unat mw - unat nw"
    and fit: "w = 0 \<or> buffers_fit blake2 p r (w - 1) (btree_get st')"
    and n: "n = Suc (if w = 0 then 0 else calls_made blake2 p r (w - 1) (btree_get st'))"
    and fuel: "Suc n * Suc limit \<le> fuel" and small: "unat nr + unat nw + Suc n < 4294967296"
  shows "\<exists>fin. whole = Some fin \<and>
    ends_as fin (if w = 0 then Err OutOfWrites else direct blake2 p r (w - 1) (btree_get st'))"
proof -
  have "unat nw + 1 < 4294967296" using small by simp
  note step = quota_step [OF le(2) this]
  show ?thesis
  proof (cases "nw + 1 \<le> mw")
    case True
    with step w have w': "w \<noteq> 0" "w - 1 = unat mw - unat (nw + 1)" by simp_all
    with True go fit n fuel f small step(2) implementsD [OF rest _ wf le(1) True r w'(2), of c' f]
    show ?thesis by simp
  qed (use go step w in \<open>simp add: ends_as_def\<close>)
qed

lemma implements_Write:
  assumes "implements load m0 blake2 mr mw p"
  shows "implements load m0 blake2 mr mw (Write key val p)"
  unfolding implements_def Let_def
proof (intro allI impI)
  fix c st fuel and nr nw :: u32
  let ?r = "unat mr - unat nr" and ?w = "unat mw - unat nw"
  let ?n = "calls_made blake2 (Write key val p) ?r ?w (btree_get st)"
  let ?st = "btree_insert (blake2 key) val st"
  assume running: "running c st mr mw nr nw" and wf: "btree_wf st" and le: "nr \<le> mr" "nw \<le> mw"
    and fit: "buffers_fit blake2 (Write key val p) ?r ?w (btree_get st)"
    and fuel: "Suc ?n * Suc limit \<le> fuel" and small: "unat nr + unat nw + Suc ?n < 4294967296"
  have "length key + length val \<le> 65536" and "limit < fuel" using fit fuel by simp_all
  from run_write [OF running this, of blake2 load m0 "compile place C p"] obtain c' f where
    step: "fuel \<le> f + Suc limit" "if nw + 1 \<le> mw
      then running c' ?st mr mw nr (nw + 1) \<and>
        run load m0 blake2 (compile place C (Write key val p)) c fuel =
          run load m0 blake2 (compile place C p) c' f
      else run load m0 blake2 (compile place C (Write key val p)) c fuel =
        Some (Err ''ExceededWrites'', c', f)"
    unfolding compile.simps by blast
  have st': "btree_wf ?st" "btree_get ?st = (btree_get st)(blake2 key \<mapsto> val)" using wf by simp_all
  have fit': "?w = 0 \<or> buffers_fit blake2 p ?r (?w - 1) (btree_get ?st)"
    and n: "?n = Suc (if ?w = 0 then 0 else calls_made blake2 p ?r (?w - 1) (btree_get ?st))"
    using fit by (simp_all only: buffers_fit.simps calls_made.simps st' simp_thms)
  from implements_update [OF assms step st'(1) le refl refl fit' n fuel small]
  show "\<exists>fin. run load m0 blake2 (compile place C (Write key val p)) c fuel = Some fin \<and>
      ends_as fin (direct blake2 (Write key val p) ?r ?w (btree_get st))"
    by (simp only: direct.simps st')
qed

lemma implements_Delete:
  assumes "implements load m0 blake2 mr mw p"
  shows "implements load m0 blake2 mr mw (Delete key p)"
  unfolding implements_def Let_def
proof (intro allI impI)
  fix c st fuel and nr nw :: u32
  let ?r = "unat mr - unat nr" and ?w = "unat mw - unat nw"
  let ?n = "calls_made blake2 (Delete key p) ?r ?w (btree_get st)"
  let ?st = "btree_remove (blake2 key) st"
  assume running: "running c st mr mw nr nw" and wf: "btree_wf st" and le: "nr \<le> mr" "nw \<le> mw"
    and fit: "buffers_fit blake2 (Delete key p) ?r ?w (btree_get st)"
    and fuel: "Suc ?n * Suc limit \<le> fuel" and small: "unat nr + unat nw + Suc ?n < 4294967296"
  have "length key \<le> 65536" and "limit < fuel" using fit fuel by simp_all
  from run_delete [OF running this, of blake2 load m0 "compile place C p"] obtain c' f where
    step: "fuel \<le> f + Suc limit" "if nw + 1 \<le> mw
      then running c' ?st mr mw nr (nw + 1) \<and>
        run load m0 blake2 (compile place C (Delete key p)) c fuel =
          run load m0 blake2 (compile place C p) c' f
      else run load m0 blake2 (compile place C (Delete key p)) c fuel =
        Some (Err ''ExceededWrites'', c', f)"
    unfolding compile.simps by blast
  have st': "btree_wf ?st" "btree_get ?st = (btree_get st)(blake2 key := None)" using wf by simp_all
  have fit': "?w = 0 \<or> buffers_fit blake2 p ?r (?w - 1) (btree_get ?st)"
    and n: "?n = Suc (if ?w = 0 then 0 else calls_made blake2 p ?r (?w - 1) (btree_get ?st))"
    using fit by (simp_all only: buffers_fit.simps calls_made.simps st' simp_thms)
  from implements_update [OF assms step st'(1) le refl refl fit' n fuel small]
  show "\<exists>fin. run load m0 blake2 (compile place C (Delete key p)) c fuel = Some fin \<and>
      ends_as fin (direct blake2 (Delete key p) ?r ?w (btree_get st))"
    by (simp only: direct.simps st')
qed

lemma implements_Read:
  assumes rest: "\<And>v. implements load m0 blake2 mr mw (k v)"
  shows "implements load m0 blake2 mr mw (Read key k)"
  unfolding implements_def Let_def
proof (intro allI impI)
  fix c st fuel and nr nw :: u32
  let ?r = "unat mr - unat nr" and ?w = "unat mw - unat nw"
  let ?n = "calls_made blake2 (Read key k) ?r ?w (btree_get st)"
  define v where "v = looked_up (btree_get st) (blake2 key)"
  let ?run = "run load m0 blake2 (compile place C (Read key k)) c fuel"
  assume running: "running c st mr mw nr nw" and wf: "btree_wf st" and le: "nr \<le> mr" "nw \<le> mw"
    and fit: "buffers_fit blake2 (Read key k) ?r ?w (btree_get st)"
    and fuel: "Suc ?n * Suc limit \<le> fuel" and small: "unat nr + unat nw + Suc ?n < 4294967296"
  have size: "length key \<le> 60000" and "limit < fuel" using fit fuel by simp_all
  from run_read [where ?blake2.0 = blake2 and key = key and load = load and ?m0.0 = m0
      and k = "\<lambda>v. compile place C (k v)", OF running this v_def] obtain c' f where
    f: "fuel \<le> f + Suc limit" and go: "if nr + 1 \<le> mr then
      if length v < 64 then running c' st mr mw (nr + 1) nw \<and>
        ?run = run load m0 blake2 (compile place C (k v)) c' f
      else if length v \<le> 100 then ?run = Some (Panic, c', f)
      else ?run = Some (Err ''Impossible write data in wasm memory'', c', f)
    else ?run = Some (Err ''ExceededReads'', c', f)"
    unfolding compile.simps by blast
  have "unat nr + 1 < 4294967296" using small by simp
  note step = quota_step [OF le(1) this]
  show "\<exists>fin. ?run = Some fin \<and> ends_as fin (direct blake2 (Read key k) ?r ?w (btree_get st))"
  proof (cases "nr + 1 \<le> mr \<and> length v < 64")
    case True
    then have nr: "nr + 1 \<le> mr" by simp
    with step have "?r \<noteq> 0" "?r - 1 = unat mr - unat (nr + 1)" by simp_all
    with True go fit fuel f small step(2)
      implementsD [OF rest _ wf nr le(2) _ refl, of c' "?r - 1" v f]
    show ?thesis by (simp add: v_def [symmetric])
  qed (use go step in \<open>auto simp: ends_as_def v_def [symmetric] split: if_splits\<close>)
qed

lemma compile_implements: "implements load m0 blake2 mr mw p"
  by (induction p)
    (simp_all add: implements_ends implements_Write implements_Delete implements_Read)

lemma compiled_end:
  fixes fuel :: u32
  assumes "dec_map C raw = Some st" and "buffers_fit blake2 p (unat mr) (unat mw) (btree_get st)"
    and "Suc (calls_made blake2 p (unat mr) (unat mw) (btree_get st)) * Suc limit \<le> unat fuel"
  obtains fin where
    "run load m0 blake2 (compile place C p) (kontract_start st mr mw m0) (unat fuel) = Some fin"
    and "ends_as fin (direct blake2 p (unat mr) (unat mw) (btree_get st))"
proof -
  have "n \<le> n * Suc limit" for n by simp
  from order.trans [OF this assms(3)]
  have "Suc (calls_made blake2 p (unat mr) (unat mw) (btree_get st)) < 4294967296"
    using unat_u32_less [of fuel] by (rule le_less_trans)
  with implementsD [OF compile_implements running_start, of st mr mw "unat mr" "unat mw" blake2 p
      "unat fuel" load m0 m0] map_decoded [OF assms(1)] assms(2,3)
  show thesis using that by auto
qed

lemma execute_compiled:
  assumes "binary_of load code (compile place C p)" and "dec_map C raw = Some st"
    and "buffers_fit blake2 p (unat mr) (unat mw) (btree_get st)"
    and "Suc (calls_made blake2 p (unat mr) (unat mw) (btree_get st)) * Suc limit \<le> unat fuel"
  shows "\<exists>st'. btree_wf st' \<and>
    execute_code (kontract_engine gas load m0) C blake2 code raw fuel mr mw =
      Some (case direct blake2 p (unat mr) (unat mw) (btree_get st) of
          Ok D \<Rightarrow> encode_result C st' | Err e \<Rightarrow> Err e | Panic \<Rightarrow> Panic) \<and>
    (\<forall>D. direct blake2 p (unat mr) (unat mw) (btree_get st) = Ok D \<longrightarrow> btree_get st' = D)"
proof -
  from compiled_end [OF assms(2-4), of load m0] obtain fin where
    fin: "run load m0 blake2 (compile place C p) (kontract_start st mr mw m0) (unat fuel) = Some fin"
      "ends_as fin (direct blake2 p (unat mr) (unat mw) (btree_get st))"
    by blast
  show ?thesis
  proof (cases "direct blake2 p (unat mr) (unat mw) (btree_get st)")
    case (Ok D)
    with fin show ?thesis
      by (intro exI [of _ "storage (store_data (fst (snd fin)))"])
         (auto simp: execute_kontract [OF assms(1,2)] ends_as_def dec_case split: prod.splits)
  qed (use fin in \<open>auto simp: execute_kontract [OF assms(1,2)] ends_as_def intro: exI [of _ "[]"]
      split: prod.splits\<close>)
qed

text \<open>The same with a bound on the calls and a known result.\<close>

lemma execute_compiled_as:
  assumes "binary_of load code (compile place C p)" and "dec_map C raw = Some st"
    and "buffers_fit blake2 p (unat mr) (unat mw) (btree_get st)"
    and "calls_made blake2 p (unat mr) (unat mw) (btree_get st) \<le> n" and "Suc n * Suc limit \<le> unat fuel"
    and "direct blake2 p (unat mr) (unat mw) (btree_get st) = res"
    and "\<forall>D. res = Ok D \<longrightarrow> D = btree_get st'" and "btree_wf st'"
  shows "execute_code (kontract_engine gas load m0) C blake2 code raw fuel mr mw =
    Some (case res of Ok D \<Rightarrow> encode_result C st' | Err e \<Rightarrow> Err e | Panic \<Rightarrow> Panic)"
proof -
  have "Suc (calls_made blake2 p (unat mr) (unat mw) (btree_get st)) * Suc limit \<le> Suc n * Suc limit"
    using assms(4) by (intro mult_right_mono) simp_all
  with assms(5) have "Suc (calls_made blake2 p (unat mr) (unat mw) (btree_get st)) * Suc limit \<le> unat fuel"
    by linarith
  from execute_compiled [OF assms(1-3) this, of m0] assms(6,7) btree_ext [OF _ assms(8)]
  show ?thesis by (cases res) auto
qed

end

section \<open>Property\<close>

text \<open>The reference placement with ten units of fuel per stretch of code, and one loaded binary.\<close>

definition one_binary :: "kontract \<Rightarrow> bytes \<Rightarrow> kontract option" where
  "one_binary k code = (if code = [7] then Some k else None)"

lemma one_binary_loads [simp]: "binary_of (one_binary k) [7] k"
  by (simp add: binary_of_def one_binary_def)

lemma ref_dec_empty: "dec_map scale_ref [0] = Some []"
  by code_simp

text \<open>
  C3. Executing a compiled kontract is running its source over a map: for every program over \<open>write\<close>,
  \<open>delete\<close> and \<open>read\<close>, every storage, memory layout and cost of code, with fuel for one stretch of code
  per call made and one more, \<open>execute_code\<close> returns what the direct walk over a finite map with two
  quotas returns, encoded, error or panic alike; and no program makes more calls than its quotas
  and one.
\<close>

theorem compiled_kontract_equivalent:
  assumes "kontract_guest C place gas limit" and "binary_of load code (compile place C p)"
    and "dec_map C raw = Some st" and "buffers_fit blake2 p (unat mr) (unat mw) (btree_get st)"
    and "Suc (calls_made blake2 p (unat mr) (unat mw) (btree_get st)) * Suc limit \<le> unat fuel"
  shows "(\<exists>st'. btree_wf st' \<and>
      execute_code (kontract_engine gas load m0) C blake2 code raw fuel mr mw =
        Some (case direct blake2 p (unat mr) (unat mw) (btree_get st) of
            Ok D \<Rightarrow> encode_result C st' | Err e \<Rightarrow> Err e | Panic \<Rightarrow> Panic) \<and>
      (\<forall>D. direct blake2 p (unat mr) (unat mw) (btree_get st) = Ok D \<longrightarrow> btree_get st' = D)) \<and>
    calls_made blake2 p (unat mr) (unat mw) (btree_get st) \<le> Suc (unat mr + unat mw)"
  using kontract_guest.execute_compiled [OF assms] calls_made_le by blast

definition swap_program :: program where
  "swap_program = Read [1] (\<lambda>a. Read [2] (\<lambda>b. Write [1] b (Write [2] a (Delete [3] Finish))))"

theorem compiled_kontract_equivalent_witness:
  "\<exists>st'. execute_code (kontract_engine (\<lambda>_. 10) (one_binary (compile page_place scale_ref swap_program)) [])
      scale_ref id [7] [12, 4, 1, 4, 8, 4, 2, 4, 9, 4, 3, 4, 7] 70 2 3 = Some (encode_result scale_ref st') \<and>
    btree_get st' = [[1] \<mapsto> [9], [2] \<mapsto> [8]]"
proof -
  let ?st = "[([1], [8]), ([2], [9]), ([3], [7])] :: kv_storage"
  have dec: "dec_map scale_ref [12, 4, 1, 4, 8, 4, 2, 4, 9, 4, 3, 4, 7] = Some ?st"
    by code_simp
  have n: "unat (2 :: u32) = 2" "unat (3 :: u32) = 3" by simp_all
  have lookups: "btree_get ?st [1] = Some [8]" "btree_get ?st [2] = Some [9]"
    by code_simp+
  have fit: "buffers_fit id swap_program (unat (2 :: u32)) (unat (3 :: u32)) (btree_get ?st)"
    and calls: "Suc (calls_made id swap_program (unat (2 :: u32)) (unat (3 :: u32)) (btree_get ?st)) *
      Suc 10 \<le> unat (70 :: u32)"
    and walk: "direct id swap_program (unat (2 :: u32)) (unat (3 :: u32)) (btree_get ?st) =
      Ok ((btree_get ?st)([1] \<mapsto> [9], [2] \<mapsto> [8], [3] := None))"
    unfolding n by (simp_all add: swap_program_def lookups)
  have final: "(btree_get ?st)([1] \<mapsto> [9], [2] \<mapsto> [8], [3] := None) = [[1] \<mapsto> [9], [2] \<mapsto> [8]]"
    by (auto simp: fun_eq_iff)
  from compiled_kontract_equivalent [where ?blake2.0 = id and C = scale_ref,
      OF page.kontract_guest_axioms one_binary_loads dec fit calls, of "[]"] walk final
  show ?thesis by auto
qed

end
