(* ===== verification/Sample_Kontracts.thy ===== *)
theory Sample_Kontracts
  imports Kontract_Programs
begin

text \<open>
  The kontracts of the repository, \<open>pallets/kontracts/wasm_test/*.rs\<close> and \<open>rust_kontract/src/lib.rs\<close>,
  each the function \<open>main\<close> of its source over the functions of the macro, and what executing them
  gives: the storage they leave, the quota they need, the deposit the pallet takes. The statements
  are those of \<open>pallets/kontracts/src/tests.rs\<close>, for every storage, fuel, allocator and engine cost
  instead of one run. \<open>u32\<close> arithmetic wraps around, as in the release build of the kontracts.
\<close>

section \<open>The sources\<close>

definition key_123 :: "scale \<Rightarrow> bytes" where
  "key_123 C = enc_vec_u32 C [1, 2, 3]"

definition value_456 :: "scale \<Rightarrow> bytes" where
  "value_456 C = enc_vec_u32 C [4, 5, 6]"

text \<open>
  \<open>for x in xs { .. }\<close>: the body of each iteration is put before what follows. An iteration that calls no
  host function is part of the stretch of code around it, which the engine charges for as a whole.
\<close>

definition for_in :: "'a list \<Rightarrow> ('a \<Rightarrow> kontract \<Rightarrow> kontract) \<Rightarrow> kontract \<Rightarrow> kontract" where
  "for_in xs body rest = foldr body xs rest"

lemma for_in_empty_body [simp]: "for_in xs (\<lambda>_ k. k) rest = rest"
  unfolding for_in_def by (induction xs) simp_all

definition empty_execution :: kontract where
  "empty_execution = for_in [0 :: nat..<100] (\<lambda>_ k. k) (\<lambda>_. Done)"

definition loop_kontract :: kontract where
  "loop_kontract = (\<lambda>_. Spin)"

definition panic_kontract :: kontract where
  "panic_kontract = (\<lambda>_. Abort)"

definition write_8B :: "placement \<Rightarrow> scale \<Rightarrow> kontract" where
  "write_8B place C = sdk_write place (key_123 C) (value_456 C) (\<lambda>_. Done)"

definition delete_kontract :: "placement \<Rightarrow> scale \<Rightarrow> kontract" where
  "delete_kontract place C = sdk_delete place (key_123 C) (\<lambda>_. Done)"

definition read_kontract :: "placement \<Rightarrow> scale \<Rightarrow> kontract" where
  "read_kontract place C =
     sdk_read place C (key_123 C) (\<lambda>bytes_read _.
       case dec_vec_u32 C bytes_read of
         None \<Rightarrow> Abort
       | Some v \<Rightarrow> if v = [4, 5, 6] then Done else Abort)"

definition write_and_read_16B :: "placement \<Rightarrow> scale \<Rightarrow> kontract" where
  "write_and_read_16B place C =
     sdk_write place (key_123 C) (value_456 C)
       (sdk_read place C (key_123 C) (\<lambda>bytes_read.
         case dec_vec_u32 C bytes_read of
           None \<Rightarrow> (\<lambda>_. Abort)
         | Some v \<Rightarrow> sdk_write place (value_456 C) (enc_vec_u32 C v) (\<lambda>_. Done)))"

text \<open>The template kontract of \<open>rust_kontract/src/lib.rs\<close> has the same \<open>main\<close>.\<close>

definition rust_kontract :: "placement \<Rightarrow> scale \<Rightarrow> kontract" where
  "rust_kontract place C = write_and_read_16B place C"

definition collatz_step :: "u32 \<Rightarrow> u32" where
  "collatz_step val = (if val mod 2 = 0 then val div 2 else val * 3 + 1)"

definition collatz_kontract :: "placement \<Rightarrow> scale \<Rightarrow> kontract" where
  "collatz_kontract place C =
     sdk_read place C (enc_u32 C 1) (\<lambda>bytes_read.
       let val = (case dec_u32 C bytes_read of Some v \<Rightarrow> v | None \<Rightarrow> 5) in
       sdk_write place (enc_u32 C 1) (enc_u32 C (collatz_step val)) (\<lambda>_. Done))"

section \<open>Runs\<close>

text \<open>Each of them is a compiled program, so that its run is a walk over a map.\<close>

definition write_8B_program :: "scale \<Rightarrow> program" where
  "write_8B_program C = Write (key_123 C) (value_456 C) Finish"

definition delete_program :: "scale \<Rightarrow> program" where
  "delete_program C = Delete (key_123 C) Finish"

definition read_program :: "scale \<Rightarrow> program" where
  "read_program C = Read (key_123 C) (\<lambda>bytes_read.
     if dec_vec_u32 C bytes_read = Some [4, 5, 6] then Finish else Fault)"

definition write_and_read_program :: "scale \<Rightarrow> program" where
  "write_and_read_program C = Write (key_123 C) (value_456 C) (Read (key_123 C) (\<lambda>bytes_read.
     case dec_vec_u32 C bytes_read of
       None \<Rightarrow> Fault
     | Some v \<Rightarrow> Write (value_456 C) (enc_vec_u32 C v) Finish))"

definition collatz_program :: "scale \<Rightarrow> program" where
  "collatz_program C = Read (enc_u32 C 1) (\<lambda>bytes_read.
     Write (enc_u32 C 1)
       (enc_u32 C (collatz_step (case dec_u32 C bytes_read of Some v \<Rightarrow> v | None \<Rightarrow> 5))) Finish)"

lemma sample_programs:
  "write_8B place C = compile place C (write_8B_program C)"
  "delete_kontract place C = compile place C (delete_program C)"
  "read_kontract place C = compile place C (read_program C)"
  "write_and_read_16B place C = compile place C (write_and_read_program C)"
  "collatz_kontract place C = compile place C (collatz_program C)"
  "empty_execution = compile place C Finish" "loop_kontract = compile place C Forever"
  "panic_kontract = compile place C Fault"
  unfolding write_8B_def delete_kontract_def read_kontract_def write_and_read_16B_def
    collatz_kontract_def empty_execution_def loop_kontract_def panic_kontract_def
    write_8B_program_def delete_program_def read_program_def write_and_read_program_def
    collatz_program_def compile.simps Let_def
  by (intro refl arg_cong [where f = "sdk_read place C (key_123 C)"]
      arg_cong [where f = "sdk_write place (key_123 C) (value_456 C)"] ext;
      simp split: option.split)+

context kontract_guest
begin

lemma sample_lengths [simp]:
  "length (key_123 C) = 13" "length (value_456 C) = 13" "length (enc_vec_u32 C [x, y, z]) = 13"
  "length (enc_u32 C v) = 4"
  by (simp_all add: key_123_def value_456_def vec_u32_length compact_len_def u32_length)

lemma sample_decode [simp]:
  "dec_vec_u32 C (value_456 C) = Some [4, 5, 6]" "dec_u32 C (enc_u32 C v) = Some v"
  "dec_u32 C [] = None" "dec_vec_u32 C [] = None" "enc_vec_u32 C [4, 5, 6] = value_456 C"
  by (simp_all add: value_456_def vec_u32_roundtrip' u32_roundtrip' u32_short vec_u32_empty)

lemma write_8B_run:
  assumes "binary_of load code (write_8B place C)" and "dec_map C raw = Some st"
    and "2 * Suc limit \<le> unat fuel"
  shows "execute_code (kontract_engine gas load m0) C blake2 code raw fuel mr mw =
    Some (if mw = 0 then Err OutOfWrites
          else encode_result C (btree_insert (blake2 (key_123 C)) (value_456 C) st))"
proof -
  let ?st' = "btree_insert (blake2 (key_123 C)) (value_456 C) st"
  have "direct blake2 (write_8B_program C) (unat mr) (unat mw) (btree_get st) =
      (if mw = 0 then Err OutOfWrites else Ok (btree_get ?st'))"
    using map_decoded [OF assms(2)] by (simp add: write_8B_program_def unat_eq_0)
  from execute_compiled_as [OF assms(1,2) [unfolded sample_programs] _ _ _ this, of 1 fuel ?st' m0]
    assms(3) map_decoded [OF assms(2)]
  show ?thesis by (simp add: write_8B_program_def unat_eq_0)
qed

lemma delete_run:
  assumes "binary_of load code (delete_kontract place C)" and "dec_map C raw = Some st"
    and "2 * Suc limit \<le> unat fuel"
  shows "execute_code (kontract_engine gas load m0) C blake2 code raw fuel mr mw =
    Some (if mw = 0 then Err OutOfWrites
          else encode_result C (btree_remove (blake2 (key_123 C)) st))"
proof -
  let ?st' = "btree_remove (blake2 (key_123 C)) st"
  have "direct blake2 (delete_program C) (unat mr) (unat mw) (btree_get st) =
      (if mw = 0 then Err OutOfWrites else Ok (btree_get ?st'))"
    using map_decoded [OF assms(2)] by (simp add: delete_program_def unat_eq_0)
  from execute_compiled_as [OF assms(1,2) [unfolded sample_programs] _ _ _ this, of 1 fuel ?st' m0]
    assms(3) map_decoded [OF assms(2)]
  show ?thesis by (simp add: delete_program_def unat_eq_0)
qed

lemma read_run:
  assumes "binary_of load code (read_kontract place C)" and "dec_map C raw = Some st"
    and "2 * Suc limit \<le> unat fuel" and "v = looked_up (btree_get st) (blake2 (key_123 C))"
  shows "execute_code (kontract_engine gas load m0) C blake2 code raw fuel mr mw =
    Some (if mr = 0 then Err OutOfReads
          else if length v < 64 then
            (if dec_vec_u32 C v = Some [4, 5, 6] then encode_result C st else Err WasmPanic)
          else if length v \<le> 100 then Panic else Err WasmPanic)"
proof -
  have "direct blake2 (read_program C) (unat mr) (unat mw) (btree_get st) =
      (if mr = 0 then Err OutOfReads
       else if length v < 64 then
         (if dec_vec_u32 C v = Some [4, 5, 6] then Ok (btree_get st) else Err WasmPanic)
       else if length v \<le> 100 then Panic else Err WasmPanic)"
    by (simp add: read_program_def unat_eq_0 assms(4))
  from execute_compiled_as [OF assms(1,2) [unfolded sample_programs] _ _ _ this, of 1 fuel st m0]
    assms(3) map_decoded [OF assms(2)]
  show ?thesis by (simp add: read_program_def)
qed

lemma collatz_run:
  assumes "binary_of load code (collatz_kontract place C)" and "dec_map C raw = Some st"
    and "3 * Suc limit \<le> unat fuel" and "mr \<noteq> 0" and "mw \<noteq> 0"
    and "btree_get st (blake2 (enc_u32 C 1)) = map_option (enc_u32 C) x"
  shows "execute_code (kontract_engine gas load m0) C blake2 code raw fuel mr mw =
    Some (encode_result C (btree_insert (blake2 (enc_u32 C 1))
      (enc_u32 C (collatz_step (case x of Some v \<Rightarrow> v | None \<Rightarrow> 5))) st))"
proof -
  let ?next = "collatz_step (case x of Some v \<Rightarrow> v | None \<Rightarrow> 5)"
  let ?st' = "btree_insert (blake2 (enc_u32 C 1)) (enc_u32 C ?next) st"
  have v: "length (looked_up (btree_get st) (blake2 (enc_u32 C 1))) < 64"
    "(case dec_u32 C (looked_up (btree_get st) (blake2 (enc_u32 C 1))) of Some v \<Rightarrow> v | None \<Rightarrow> 5) =
      (case x of Some v \<Rightarrow> v | None \<Rightarrow> 5)"
    using assms(6) by (cases x; simp)+
  have "direct blake2 (collatz_program C) (unat mr) (unat mw) (btree_get st) = Ok (btree_get ?st')"
    using map_decoded [OF assms(2)] assms(4,5) v by (simp add: collatz_program_def unat_eq_0)
  from execute_compiled_as [OF assms(1,2) [unfolded sample_programs] _ _ _ this, of 2 fuel ?st' m0]
    assms(3-5) v map_decoded [OF assms(2)]
  show ?thesis by (simp add: collatz_program_def unat_eq_0)
qed

lemma write_and_read_run:
  assumes "binary_of load code (write_and_read_16B place C)" and "dec_map C raw = Some st"
    and "4 * Suc limit \<le> unat fuel"
  shows "execute_code (kontract_engine gas load m0) C blake2 code raw fuel mr mw =
    Some (if mw = 0 then Err OutOfWrites
          else if mr = 0 then Err OutOfReads
          else if mw = 1 then Err OutOfWrites
          else encode_result C (btree_insert (blake2 (value_456 C)) (value_456 C)
            (btree_insert (blake2 (key_123 C)) (value_456 C) st)))"
proof -
  let ?st' = "btree_insert (blake2 (value_456 C)) (value_456 C)
    (btree_insert (blake2 (key_123 C)) (value_456 C) st)"
  have one: "unat mw - 1 = 0 \<longleftrightarrow> mw = 0 \<or> mw = 1"
    by (auto simp: word_unat_eq_iff)
  have "direct blake2 (write_and_read_program C) (unat mr) (unat mw) (btree_get st) =
      (if mw = 0 then Err OutOfWrites else if mr = 0 then Err OutOfReads
       else if mw = 1 then Err OutOfWrites else Ok (btree_get ?st'))"
    using map_decoded [OF assms(2)] one by (simp add: write_and_read_program_def unat_eq_0)
  from execute_compiled_as [OF assms(1,2) [unfolded sample_programs] _ _ _ this, of 3 fuel ?st' m0]
    assms(3) map_decoded [OF assms(2)] one
  show ?thesis by (simp add: write_and_read_program_def unat_eq_0)
qed

lemma empty_run:
  assumes "binary_of load code empty_execution" and "dec_map C raw = Some st"
    and "Suc limit \<le> unat fuel"
  shows "execute_code (kontract_engine gas load m0) C blake2 code raw fuel mr mw =
    Some (encode_result C st)"
  using execute_compiled_as [where p = Finish and st' = st and n = 0, OF _ assms(2)] assms
  by (simp add: empty_execution_def map_decoded)

lemma panic_run:
  assumes "binary_of load code panic_kontract" and "dec_map C raw = Some st"
    and "Suc limit \<le> unat fuel"
  shows "execute_code (kontract_engine gas load m0) C blake2 code raw fuel mr mw =
    Some (Err WasmPanic)"
  using execute_compiled_as [where p = Fault and st' = st and n = 0, OF _ assms(2)] assms
  by (simp add: panic_kontract_def map_decoded)

end

lemma loop_run:
  assumes "dec_map C raw = Some st" and "binary_of load code loop_kontract"
  shows "execute_code (kontract_engine gas load m0) C blake2 code raw fuel mr mw = Some (Err OutOfFuel)"
  using drive_spin [where c = "kontract_start st mr mw m0" and mem = m0]
  by (simp add: execute_kontract [OF assms(2,1)] loop_kontract_def)

section \<open>Properties\<close>

text \<open>
  C28. The template kontract, and \<open>write_and_read_16B\<close>, write a value, read it back and write it under a
  second key: they need one read and two writes, stop with the matching error at the first call over a
  quota, in the order of the calls, and otherwise leave the storage with both keys at that value, whatever
  it held before.
\<close>

theorem rust_kontract_outcome:
  assumes "kontract_guest C place gas limit"
    and "binary_of load code (rust_kontract place C) \<or> binary_of load code (write_and_read_16B place C)"
    and "dec_map C raw = Some st" and "4 * Suc limit \<le> unat fuel"
  shows "execute_code (kontract_engine gas load m0) C blake2 code raw fuel mr mw =
    Some (if mw = 0 then Err OutOfWrites
          else if mr = 0 then Err OutOfReads
          else if mw = 1 then Err OutOfWrites
          else encode_result C (btree_insert (blake2 (value_456 C)) (value_456 C)
            (btree_insert (blake2 (key_123 C)) (value_456 C) st)))"
  using kontract_guest.write_and_read_run [OF assms(1) _ assms(3,4)] assms(2)
  unfolding rust_kontract_def by blast

theorem rust_kontract_outcome_witness:
  "execute_code (kontract_engine (\<lambda>_. 10) (one_binary (rust_kontract page_place scale_ref)) []) scale_ref id
     [7] [0] 50 1 1 = Some (Err OutOfWrites) \<and>
   execute_code (kontract_engine (\<lambda>_. 10) (one_binary (rust_kontract page_place scale_ref)) []) scale_ref id
     [7] [0] 50 0 2 = Some (Err OutOfReads)"
proof -
  have fuel: "4 * Suc 10 \<le> unat (50 :: u32)" by simp
  have load: "binary_of (one_binary (rust_kontract page_place scale_ref)) [7] (rust_kontract page_place scale_ref)"
    by (rule one_binary_loads)
  show ?thesis
    using rust_kontract_outcome [OF page.kontract_guest_axioms disjI1 [OF load] ref_dec_empty fuel] by simp
qed

text \<open>
  How a kontract that makes no call ends: \<open>loop\<close> runs out of whatever fuel it is given, \<open>panic\<close>
  is reported as a wasm panic, and \<open>empty_execution\<close> returns the storage it was given, encoded anew.
\<close>

lemma kontract_endings:
  assumes "kontract_guest C place gas limit" and "dec_map C raw = Some st"
    and "Suc limit \<le> unat fuel"
  shows "(binary_of load code loop_kontract \<longrightarrow>
      execute_code (kontract_engine gas load m0) C blake2 code raw fuel mr mw = Some (Err OutOfFuel)) \<and>
    (binary_of load code panic_kontract \<longrightarrow>
      execute_code (kontract_engine gas load m0) C blake2 code raw fuel mr mw = Some (Err WasmPanic)) \<and>
    (binary_of load code empty_execution \<longrightarrow>
      execute_code (kontract_engine gas load m0) C blake2 code raw fuel mr mw =
        Some (encode_result C st))"
  using loop_run [OF assms(2)] kontract_guest.panic_run [OF assms(1) _ assms(2,3)]
    kontract_guest.empty_run [OF assms(1) _ assms(2,3)]
  by blast

subsection \<open>Repeated executions\<close>

text \<open>Executing one code again and again on the storage it left, with the same fuel and quotas.\<close>

fun repeat_execute ::
  "nat \<Rightarrow> (bytes \<Rightarrow> (bytes, execution_error) outcome option) \<Rightarrow> bytes \<Rightarrow>
   (bytes, execution_error) outcome option" where
  "repeat_execute 0 exec raw = Some (Ok raw)"
| "repeat_execute (Suc n) exec raw =
     (case repeat_execute n exec raw of Some (Ok raw') \<Rightarrow> exec raw' | r \<Rightarrow> r)"

lemma encode_result_Ok: "enc_map C st = Some raw \<Longrightarrow> encode_result C st = Ok raw"
  by (simp add: encode_result_def)

lemma collatz_encodable:
  assumes "kontract_guest C place gas limit" and "length k < 4294967296"
  shows "\<exists>raw. enc_map C [(k, enc_u32 C v)] = Some raw \<and> dec_map C raw = Some [(k, enc_u32 C v)]"
proof -
  note codec = kontract_guest.axioms(1) [OF assms(1)]
  have "\<exists>raw. enc_map C [(k, enc_u32 C v)] = Some raw"
    using assms scale_codec.u32_length [OF codec, of v]
    by (simp add: scale_codec.map_format [OF codec] encodable_def)
  then show ?thesis using scale_codec.map_roundtrip [OF codec, of "[(k, enc_u32 C v)]"] by auto
qed

lemma collatz_once:
  assumes "kontract_guest C place gas limit" and "binary_of load code (collatz_kontract place C)"
    and "3 * Suc limit \<le> unat fuel" and "mr \<noteq> 0" and "mw \<noteq> 0" and "length k < 4294967296"
    and "k = blake2 (enc_u32 C 1)"
    and "dec_map C raw = Some st" and "st = [] \<and> v = 5 \<or> st = [(k, enc_u32 C v)]"
  shows "\<exists>raw'. execute_code (kontract_engine gas load m0) C blake2 code raw fuel mr mw =
      Some (Ok raw') \<and> dec_map C raw' = Some [(k, enc_u32 C (collatz_step v))]"
proof -
  let ?x = "if st = [] then None else Some v"
  have "btree_get st (blake2 (enc_u32 C 1)) = map_option (enc_u32 C) ?x"
    using assms(7,9) by auto
  from kontract_guest.collatz_run [where C = C and ?blake2.0 = blake2, OF assms(1,2,8,3,4,5) this, of m0] assms(7,9)
  have "execute_code (kontract_engine gas load m0) C blake2 code raw fuel mr mw =
      Some (encode_result C [(k, enc_u32 C (collatz_step v))])"
    by auto
  moreover obtain raw' where "enc_map C [(k, enc_u32 C (collatz_step v))] = Some raw'"
    "dec_map C raw' = Some [(k, enc_u32 C (collatz_step v))]"
    using collatz_encodable [OF assms(1,6)] by blast
  ultimately show ?thesis by (simp add: encode_result_def)
qed

text \<open>
  C26. The Collatz kontract computes the Collatz sequence: started on an empty storage, \<open>n + 1\<close>
  executions leave exactly one entry, the number reached from 5 after \<open>n + 1\<close> steps of the sequence in
  \<open>u32\<close> arithmetic, whatever \<open>n\<close> is.
\<close>

theorem collatz_sequence:
  assumes "kontract_guest C place gas limit" and "binary_of load code (collatz_kontract place C)"
    and "3 * Suc limit \<le> unat fuel" and "mr \<noteq> 0" and "mw \<noteq> 0"
    and "length (blake2 (enc_u32 C 1)) < 4294967296" and "dec_map C raw = Some []"
  shows "\<exists>raw'. repeat_execute (Suc n)
      (\<lambda>r. execute_code (kontract_engine gas load m0) C blake2 code r fuel mr mw) raw = Some (Ok raw') \<and>
    dec_map C raw' = Some [(blake2 (enc_u32 C 1), enc_u32 C ((collatz_step ^^ Suc n) 5))]"
proof (induction n)
  case 0
  from collatz_once [where C = C and ?blake2.0 = blake2, OF assms(1-6) refl assms(7), of 5 m0] show ?case by simp
next
  case (Suc n)
  then obtain raw1 where "repeat_execute (Suc n)
      (\<lambda>r. execute_code (kontract_engine gas load m0) C blake2 code r fuel mr mw) raw = Some (Ok raw1)"
    and dec: "dec_map C raw1 = Some [(blake2 (enc_u32 C 1), enc_u32 C ((collatz_step ^^ Suc n) 5))]"
    by blast
  with collatz_once [where C = C and ?blake2.0 = blake2, OF assms(1-6) refl dec,
      of "(collatz_step ^^ Suc n) 5" m0] show ?case
    by (simp del: funpow.simps add: funpow.simps(2) [of "Suc n"])
qed

theorem collatz_sequence_witness:
  "\<exists>raw'. repeat_execute 3 (\<lambda>r. execute_code
       (kontract_engine (\<lambda>_. 10) (one_binary (collatz_kontract page_place scale_ref)) [])
       scale_ref id [7] r 40 1 1) [0] = Some (Ok raw') \<and>
     dec_map scale_ref raw' = Some [(enc_u32 scale_ref 1, enc_u32 scale_ref 4)]"
proof -
  have fuel: "3 * Suc 10 \<le> unat (40 :: u32)" by simp
  have len: "length (id (enc_u32 scale_ref 1)) < 4294967296"
    by (simp add: ref_enc_u32_def)
  have steps: "(collatz_step ^^ Suc 2) 5 = 4" by code_simp
  from collatz_sequence [where n = 2 and C = scale_ref and ?blake2.0 = id,
      OF page.kontract_guest_axioms one_binary_loads fuel _ _ len ref_dec_empty, of 1 1 "[]"]
  show ?thesis unfolding steps by (simp add: numeral_3_eq_3)
qed

end
