(* ===== verification/Kontract_Scenarios.thy ===== *)
theory Kontract_Scenarios
  imports Sample_Kontracts
begin

text \<open>
  The sample kontracts run by the pallet: the scenarios of \<open>pallets/kontracts/src/tests.rs\<close>
  (\<open>write_8B_equal\<close>, \<open>write_8B_less\<close>, \<open>write_8B_more\<close>, \<open>delete\<close>) for every declared change, balance,
  currency and engine. The runtime is any runtime with the executor linked in; the guest is the
  compiled kontract of \<open>Sample_Kontracts\<close>.
\<close>

section \<open>Storages of one entry\<close>

definition one_entry :: "bytes \<Rightarrow> bytes \<Rightarrow> kv_storage" where
  "one_entry k v = [(k, v)]"

lemma one_entry_size:
  "length k = 32 \<Longrightarrow> length v = 13 \<Longrightarrow> entries_size (one_entry k v) = 47"
  by (simp add: one_entry_def entry_size_def compact_len_def)

text \<open>A configuration in which an entry with a hashed key and a 13 byte value can be stored.\<close>

definition holds_one_entry :: "pallet_config \<Rightarrow> bool" where
  "holds_one_entry cfg \<longleftrightarrow> config_fits cfg \<and> 32 \<le> unat (max_storage_key_size cfg) \<and>
     13 \<le> unat (max_storage_value_size cfg) \<and> 1 \<le> unat (max_storage_size cfg)"

lemma one_entry_ok:
  "holds_one_entry cfg \<Longrightarrow> length k = 32 \<Longrightarrow> length v = 13 \<Longrightarrow> storage_ok cfg (one_entry k v)"
  by (simp add: holds_one_entry_def storage_ok_def one_entry_def within_bounds_def)

context kontract_guest
begin

lemma encoded:
  assumes "encodable st" and "btree_wf st"
  obtains raw where "enc_map C st = Some raw" and "dec_map C raw = Some st"
  using assms map_format [of st] map_roundtrip [of st] by auto

end

section \<open>Any program, run by the pallet\<close>

text \<open>
  For a program whose map fits the configuration: what the extrinsic commits, in terms of the walk
  over the map that is stored, the deposit policy and nothing else.
\<close>

lemma program_executed:
  assumes guest: "kontract_guest (codec R) place gas limit"
    and binary: "binary_of load code (compile place (codec R) p)"
    and fits: "config_fits (config R)" and signed: "signed_by R origin = Some who"
    and code: "codes s i = Some code"
    and old: "storage_ok (config R) (storages_get s i)"
    and D: "D = btree_get (storages_get s i)"
    and buffers: "buffers_fit blake2 p (unat reads) (unat writes) D"
    and fuel: "Suc (calls_made blake2 p (unat reads) (unat writes) D) * Suc limit \<le> unat fuel"
    and new: "\<forall>D'. direct blake2 p (unat reads) (unat writes) D = Ok D' \<longrightarrow> map_fits (config R) D'"
  shows "\<exists>st'. btree_wf st' \<and>
    (\<forall>D'. direct blake2 p (unat reads) (unat writes) D = Ok D' \<longrightarrow> btree_get st' = D') \<and>
    pallet_execute_code (link_executor (kontract_engine gas load m0) blake2 R) origin i x fuel
      reads writes s =
    Some (case direct blake2 p (unat reads) (unat writes) D of
        Panic \<Rightarrow> (Panic, s)
      | Err e \<Rightarrow> (Err (Module (ExecutionCode e)), s)
      | Ok D' \<Rightarrow>
          (case pay R who i (storage_fee (map_size D) (map_size D') (sint x)) s of
             (Ok True, s') \<Rightarrow> (Ok (), s'\<lparr>storages := (storages s)(i \<mapsto> st'),
                events := events s @ [CodeExecuted i who]\<rparr>)
           | (Ok False, s') \<Rightarrow> (Ok (), s')
           | (Err e, s') \<Rightarrow> (Err e, s')
           | (Panic, s') \<Rightarrow> (Panic, s')))"
proof -
  let ?C = "codec R" and ?R = "link_executor (kontract_engine gas load m0) blake2 R"
  let ?res = "direct blake2 p (unat reads) (unat writes) D"
  have wf: "btree_wf (storages_get s i)" using old by (simp add: storage_ok_def)
  obtain raw where raw: "enc_map ?C (storages_get s i) = Some raw"
    "dec_map ?C raw = Some (storages_get s i)"
    by (rule kontract_guest.encoded [OF guest storage_ok_encodable [OF old] wf])
  obtain st' where st': "btree_wf st'" "\<forall>D'. ?res = Ok D' \<longrightarrow> btree_get st' = D'"
    and run: "host_execute ?R code raw fuel reads writes =
      Some (case ?res of Ok D \<Rightarrow> encode_result ?C st' | Err e \<Rightarrow> Err e | Panic \<Rightarrow> Panic)"
    using kontract_guest.execute_compiled [OF guest binary raw(2), of blake2 reads writes fuel m0]
      buffers fuel D by auto
  have R: "pallet_runtime ?R"
    by (rule linked_runtime [OF kontract_guest.axioms(1) [OF guest]])
  show ?thesis
  proof (cases ?res)
    case (Ok D')
    with new st' storage_ok_map [OF st'(1)] have ok: "storage_ok (config R) st'" by auto
    obtain raw' where raw': "enc_map ?C st' = Some raw'"
      by (rule kontract_guest.encoded [OF guest storage_ok_encodable [OF ok] st'(1)])
    have pay: "pay ?R who i fee s = pay R who i fee s" for fee
      by (cases fee) simp_all
    have sizes: "entries_size (storages_get s i) = map_size D" "entries_size st' = map_size D'"
      using Ok wf D st' by (simp_all add: entries_size_map)
    from run Ok raw' have "host_execute ?R code raw fuel reads writes = Some (Ok raw')"
      by (simp add: encode_result_def)
    with pallet_runtime.execute_outcome [OF R, of origin who s i code raw fuel reads writes raw' st' x]
      fits signed code old raw(1) raw' st'(1) storage_ok_size [OF fits ok]
    have "pallet_execute_code ?R origin i x fuel reads writes s =
      Some (case pay R who i (storage_fee (map_size D) (map_size D') (sint x)) s of
         (Ok True, s') \<Rightarrow> (Ok (), s'\<lparr>storages := (storages s)(i \<mapsto> st'),
            events := events s @ [CodeExecuted i who]\<rparr>)
       | (Ok False, s') \<Rightarrow> (Ok (), s')
       | (Err e, s') \<Rightarrow> (Err e, s')
       | (Panic, s') \<Rightarrow> (Panic, s'))"
      unfolding link_executor_sel pay sizes if_P [OF ok] by blast
    with Ok st' show ?thesis by (intro exI [of _ st']) simp
  qed (use pallet_runtime.execute_host [OF R, of origin who s i code raw x fuel reads writes]
      run raw signed code st' in auto)
qed

text \<open>The test runtime, for the witnesses.\<close>

abbreviation test_runtime :: "(nat option, nat, bytes, nat ledger) runtime" where
  "test_runtime \<equiv> ledger_runtime test_config (\<lambda>_ _ _ _ _. None)"

lemma test_guest: "kontract_guest (codec test_runtime) page_place (\<lambda>_. 10) 10"
  by (simp add: page.kontract_guest_axioms)

text \<open>
  What \<open>write_8B\<close> costs: on an empty storage, run by a signed account that declares a write and
  enough fuel, a declared change of at least 47 bytes reserves exactly 47 (or fails with
  \<open>DepositError\<close>, nothing changed, when they cannot be reserved) and stores the entry; a smaller one
  slashes 47 and stores nothing, and is still reported as success.
\<close>

lemma write_8B_deposit:
  assumes "kontract_guest (codec R) place gas limit"
    and "binary_of load code (write_8B place (codec R))"
    and "holds_one_entry (config R)" and "length (blake2 (key_123 (codec R))) = 32"
    and "signed_by R origin = Some who" and "codes s i = Some code" and "storages_get s i = []"
    and "2 * Suc limit \<le> unat fuel" and "writes \<noteq> 0"
  shows "pallet_execute_code (link_executor (kontract_engine gas load m0) blake2 R) origin i x fuel
      reads writes s =
    Some (if sint x < 47 then
        (Ok (), s\<lparr>balances := currency_slash R who 47 (balances s),
                  events := events s @ [ExceededStorage i who]\<rparr>)
      else (case currency_reserve R who 47 (balances s) of
          None \<Rightarrow> (Err (Module DepositError), s)
        | Some b \<Rightarrow> (Ok (), s\<lparr>balances := b,
            storages := (storages s)
              (i \<mapsto> one_entry (blake2 (key_123 (codec R))) (value_456 (codec R))),
            events := events s @ [CodeExecuted i who]\<rparr>)))"
proof -
  let ?C = "codec R" and ?R = "link_executor (kontract_engine gas load m0) blake2 R"
  let ?new = "one_entry (blake2 (key_123 ?C)) (value_456 ?C)"
  have len: "length (value_456 ?C) = 13"
    by (rule kontract_guest.sample_lengths [OF assms(1)])
  have ok: "storage_ok (config R) ?new" and size: "entries_size ?new = 47"
    using one_entry_ok [OF assms(3,4) len] one_entry_size [OF assms(4) len] by simp_all
  obtain raw where raw: "enc_map ?C [] = Some raw" "dec_map ?C raw = Some []"
    by (rule kontract_guest.encoded [OF assms(1), of "[]"]) simp_all
  obtain raw' where raw': "enc_map ?C ?new = Some raw'"
    using storage_ok_encodable [OF ok] kontract_guest.encoded [OF assms(1), of ?new]
    by (auto simp: one_entry_def)
  have run: "host_execute ?R code raw fuel reads writes = Some (Ok raw')"
    using kontract_guest.write_8B_run [OF assms(1,2) raw(2) assms(8), of m0 blake2 reads writes]
      assms(9) raw'
    by (simp add: encode_result_def one_entry_def)
  have fits: "config_fits (config R)" using assms(3) by (simp add: holds_one_entry_def)
  have "pallet_runtime ?R"
    by (rule linked_runtime [OF kontract_guest.axioms(1) [OF assms(1)]])
  from pallet_runtime.execute_outcome [OF this, of origin who s i code raw fuel reads writes raw'
      ?new x] assms(5-7) fits raw raw' run ok size
  show ?thesis by (simp add: storage_fee_def one_entry_def split: option.split)
qed

text \<open>
  C27. A kontract run by the pallet: for any program whose map fits the configuration, \<open>execute_code\<close>
  fails with the error of the walk over the stored map and changes nothing, panics when the walk
  panics the host, and otherwise charges the deposit policy on the sizes of the two maps and stores
  the new one, unless the fee is declined or a penalty.
\<close>

theorem kontract_on_pallet:
  assumes "kontract_guest (codec R) place gas limit"
    and "binary_of load code (compile place (codec R) p)"
    and "config_fits (config R)" and "signed_by R origin = Some who" and "codes s i = Some code"
    and "storage_ok (config R) (storages_get s i)" and "D = btree_get (storages_get s i)"
    and "buffers_fit blake2 p (unat reads) (unat writes) D"
    and "Suc (calls_made blake2 p (unat reads) (unat writes) D) * Suc limit \<le> unat fuel"
    and "\<forall>D'. direct blake2 p (unat reads) (unat writes) D = Ok D' \<longrightarrow> map_fits (config R) D'"
  shows "\<exists>st'. btree_wf st' \<and>
    (\<forall>D'. direct blake2 p (unat reads) (unat writes) D = Ok D' \<longrightarrow> btree_get st' = D') \<and>
    pallet_execute_code (link_executor (kontract_engine gas load m0) blake2 R) origin i x fuel
      reads writes s =
    Some (case direct blake2 p (unat reads) (unat writes) D of
        Panic \<Rightarrow> (Panic, s)
      | Err e \<Rightarrow> (Err (Module (ExecutionCode e)), s)
      | Ok D' \<Rightarrow>
          (case pay R who i (storage_fee (map_size D) (map_size D') (sint x)) s of
             (Ok True, s') \<Rightarrow> (Ok (), s'\<lparr>storages := (storages s)(i \<mapsto> st'),
                events := events s @ [CodeExecuted i who]\<rparr>)
           | (Ok False, s') \<Rightarrow> (Ok (), s')
           | (Err e, s') \<Rightarrow> (Err e, s')
           | (Panic, s') \<Rightarrow> (Panic, s')))"
  using assms by (rule program_executed)

theorem kontract_on_pallet_witness:
  "\<exists>s'. pallet_execute_code (link_executor
      (kontract_engine (\<lambda>_. 10) (one_binary (compile page_place scale_ref (Write [5] [6] Finish))) [])
      id test_runtime) (Some 1) [7] 10 30 0 1 (demo_state 47 []) = Some (Ok (), s') \<and>
    balances s' 1 = (43, 4) \<and> btree_get (storages_get s' [7]) = [[5] \<mapsto> [6]]"
proof -
  let ?p = "Write [5] [6] Finish" and ?D = "btree_get (storages_get (demo_state 47 []) [7])"
  have empty: "?D = Map.empty" by (simp add: fun_eq_iff)
  have walk: "direct id ?p (unat (0 :: u32)) (unat (1 :: u32)) ?D = Ok [[5] \<mapsto> [6]]"
    and buffers: "buffers_fit id ?p (unat (0 :: u32)) (unat (1 :: u32)) ?D"
    and fuel: "Suc (calls_made id ?p (unat (0 :: u32)) (unat (1 :: u32)) ?D) * Suc 10 \<le> unat (30 :: u32)"
    by (simp_all add: fun_eq_iff)
  have fit: "map_fits (config test_runtime) [[5] \<mapsto> [6]]"
    by (simp add: map_fits_def test_config_def)
  have fee: "storage_fee (map_size ?D) (map_size [[5] \<mapsto> [6]]) (sint (10 :: i32)) = Deposit 4"
  proof -
    have "map_size ?D = 0" "map_size [[5] \<mapsto> [6]] = 4"
      unfolding empty by (simp_all add: map_size_def entry_size_def compact_len_def)
    moreover have "sint (10 :: i32) = 10" by code_simp
    ultimately show ?thesis by (simp add: storage_fee_def)
  qed
  have binary: "binary_of (one_binary (compile page_place (codec test_runtime) ?p)) [7]
      (compile page_place (codec test_runtime) ?p)"
    by simp
  have facts: "config_fits (config test_runtime)" "signed_by test_runtime (Some 1) = Some 1"
    "codes (demo_state 47 []) [7] = Some [7]"
    "storage_ok (config test_runtime) (storages_get (demo_state 47 []) [7])"
    by (simp_all add: test_config_fits)
  from kontract_on_pallet [where R = test_runtime and ?blake2.0 = id, OF test_guest binary facts refl
      buffers fuel, of "[]" 10] walk fit fee
  show ?thesis by (auto simp: ledger_reserve_def storages_get_def)
qed

text \<open>
  What \<open>delete\<close> gives back: run on the storage \<open>write_8B\<close> leaves, it empties the storage and
  unreserves exactly the 47 bytes when the account declared a change of at least -47; with a smaller
  declared change the storage stays and the account is slashed by \<open>2^32 - 47\<close>.
\<close>

lemma delete_refund:
  assumes "kontract_guest (codec R) place gas limit"
    and "binary_of load code (delete_kontract place (codec R))"
    and "holds_one_entry (config R)" and "length (blake2 (key_123 (codec R))) = 32"
    and "signed_by R origin = Some who" and "codes s i = Some code"
    and "storages_get s i = one_entry (blake2 (key_123 (codec R))) (value_456 (codec R))"
    and "2 * Suc limit \<le> unat fuel" and "writes \<noteq> 0"
  shows "pallet_execute_code (link_executor (kontract_engine gas load m0) blake2 R) origin i x fuel
      reads writes s =
    Some (Ok (), if sint x < - 47 then
        s\<lparr>balances := currency_slash R who (4294967296 - 47) (balances s),
          events := events s @ [ExceededStorage i who]\<rparr>
      else s\<lparr>balances := currency_unreserve R who 47 (balances s),
             storages := (storages s)(i \<mapsto> []), events := events s @ [CodeExecuted i who]\<rparr>)"
proof -
  let ?C = "codec R" and ?R = "link_executor (kontract_engine gas load m0) blake2 R"
  let ?old = "one_entry (blake2 (key_123 ?C)) (value_456 ?C)"
  have len: "length (value_456 ?C) = 13"
    by (rule kontract_guest.sample_lengths [OF assms(1)])
  have ok: "storage_ok (config R) ?old" and size: "entries_size ?old = 47"
    using one_entry_ok [OF assms(3,4) len] one_entry_size [OF assms(4) len] by simp_all
  have "btree_wf ?old" by (simp add: one_entry_def)
  with storage_ok_encodable [OF ok] obtain raw where
    raw: "enc_map ?C ?old = Some raw" "dec_map ?C raw = Some ?old"
    by (rule kontract_guest.encoded [OF assms(1)])
  obtain raw' where raw': "enc_map ?C [] = Some raw'"
    by (rule kontract_guest.encoded [OF assms(1), of "[]"]) simp_all
  have run: "host_execute ?R code raw fuel reads writes = Some (Ok raw')"
    using kontract_guest.delete_run [OF assms(1,2) raw(2) assms(8), of m0 blake2 reads writes]
      assms(9) raw'
    by (simp add: encode_result_def one_entry_def)
  have fits: "config_fits (config R)" using assms(3) by (simp add: holds_one_entry_def)
  have "pallet_runtime ?R"
    by (rule linked_runtime [OF kontract_guest.axioms(1) [OF assms(1)]])
  from pallet_runtime.execute_outcome [OF this, of origin who s i code raw fuel reads writes raw'
      "[]" x] assms(5-7) fits raw raw' run ok size
  show ?thesis by (simp add: storage_fee_def)
qed

end
