(* ===== verification/Runtime_Config.thy ===== *)
theory Runtime_Config
  imports Kontract_Scenarios
begin

text \<open>
  The constants of the node's runtime, \<open>runtime/src/lib.rs\<close>: its version, its time constants, the
  configurations of the pallets that take numbers, the order of the pallets and of the signed
  extensions. The properties say which configurations keep the size of a storage exact, and which calls
  of the pallet the block limits admit (locale \<open>sensible_block_weights\<close>).
\<close>

section \<open>Version and time\<close>

record runtime_version =
  spec_name :: string
  impl_name :: string
  authoring_version :: u32
  spec_version :: u32
  impl_version :: u32
  transaction_version :: u32
  state_version :: u8

definition runtime_VERSION :: runtime_version where
  "runtime_VERSION =
     \<lparr>spec_name = ''node-kontracts'', impl_name = ''node-kontracts'', authoring_version = 1,
      spec_version = 100, impl_version = 1, transaction_version = 1, state_version = 1\<rparr>"

definition millisecs_per_block :: u64 where
  "millisecs_per_block = 6000"

definition slot_duration :: u64 where
  "slot_duration = millisecs_per_block"

definition minutes :: u32 where
  "minutes = 60000 div ucast millisecs_per_block"

definition hours :: u32 where
  "hours = minutes * 60"

definition days :: u32 where
  "days = hours * 24"

text \<open>\<open>MinimumPeriod\<close> of pallet timestamp, \<open>BlockHashCount\<close> and \<open>SS58Prefix\<close> of the system.\<close>

definition minimum_period :: u64 where
  "minimum_period = slot_duration div 2"

definition block_hash_count :: u32 where
  "block_hash_count = 2400"

definition max_authorities :: u32 where
  "max_authorities = 32"

definition existential_deposit :: nat where
  "existential_deposit = 500"

text \<open>
  \<open>NORMAL_DISPATCH_RATIO\<close> in percent, and \<open>BlockWeights\<close>: FRAME's \<open>with_sensible_defaults\<close> of two seconds
  of computation, in the units \<open>WEIGHT_REF_TIME_PER_SECOND\<close> gives to a second, and of any proof size.
  \<open>BlockLength\<close> is in bytes.
\<close>

definition normal_dispatch_ratio :: nat where
  "normal_dispatch_ratio = 75"

definition block_weights :: "(u64 \<times> u64 \<Rightarrow> nat \<Rightarrow> 'w) \<Rightarrow> u64 \<Rightarrow> 'w" where
  "block_weights with_sensible_defaults per_second =
     with_sensible_defaults (2 * per_second, - 1) normal_dispatch_ratio"

definition max_block_length :: u32 where
  "max_block_length = 5 * 1024 * 1024"

definition normal_share :: "nat \<Rightarrow> nat" where
  "normal_share limit = limit * normal_dispatch_ratio div 100"

section \<open>Pallets\<close>

text \<open>\<open>construct_runtime!\<close> numbers the pallets in the order in which they are listed.\<close>

datatype runtime_pallet =
    System | RandomnessCollectiveFlip | Timestamp | Aura | Grandpa | Balances
  | TransactionPayment | Sudo | Kontracts

definition construct_runtime :: "runtime_pallet list" where
  "construct_runtime = [System, RandomnessCollectiveFlip, Timestamp, Aura, Grandpa, Balances,
     TransactionPayment, Sudo, Kontracts]"

text \<open>Pallets are ordered by the index the macro gives them.\<close>

fun pallet_index :: "runtime_pallet \<Rightarrow> nat" where
  "pallet_index System = 0"
| "pallet_index RandomnessCollectiveFlip = 1"
| "pallet_index Timestamp = 2"
| "pallet_index Aura = 3"
| "pallet_index Grandpa = 4"
| "pallet_index Balances = 5"
| "pallet_index TransactionPayment = 6"
| "pallet_index Sudo = 7"
| "pallet_index Kontracts = 8"

lemma pallet_index_inject: "pallet_index p = pallet_index q \<longleftrightarrow> p = q"
  by (cases p; cases q) simp_all

instantiation runtime_pallet :: linorder
begin

definition less_eq_runtime_pallet :: "runtime_pallet \<Rightarrow> runtime_pallet \<Rightarrow> bool" where
  "p \<le> q \<longleftrightarrow> pallet_index p \<le> pallet_index q"

definition less_runtime_pallet :: "runtime_pallet \<Rightarrow> runtime_pallet \<Rightarrow> bool" where
  "p < q \<longleftrightarrow> pallet_index p < pallet_index q"

instance
  by standard
    (auto simp: less_eq_runtime_pallet_def less_runtime_pallet_def
      simp flip: pallet_index_inject)

end

lemma construct_runtime_sorted:
  "sorted_wrt (<) construct_runtime" "construct_runtime ! pallet_index p = p"
  by (simp add: construct_runtime_def less_runtime_pallet_def)
    (cases p; simp add: construct_runtime_def)

datatype signed_extension =
    CheckNonZeroSender | CheckSpecVersion | CheckTxVersion | CheckGenesis | CheckEra | CheckNonce
  | CheckWeight | ChargeTransactionPayment

definition signed_extra :: "signed_extension list" where
  "signed_extra = [CheckNonZeroSender, CheckSpecVersion, CheckTxVersion, CheckGenesis, CheckEra,
     CheckNonce, CheckWeight, ChargeTransactionPayment]"

text \<open>The configuration of pallet kontracts; that of \<open>mock.rs\<close> is \<open>test_config\<close>.\<close>

definition kontracts_config :: pallet_config where
  "kontracts_config =
     \<lparr>max_number_contracts = 1000, max_storage_value_size = 1024, max_storage_key_size = 512,
      max_storage_size = 1048576, max_code_size = 1000000\<rparr>"

section \<open>How large a storage can be\<close>

text \<open>
  The numbers below \<open>256 ^ k\<close> as keys of \<open>k\<close> bytes, in key order, and the storage that uses every bound
  of a configuration up.
\<close>

fun numbered_key :: "nat \<Rightarrow> nat \<Rightarrow> bytes" where
  "numbered_key 0 i = []"
| "numbered_key (Suc k) i = word_of_nat (i div 256 ^ k) # numbered_key k (i mod 256 ^ k)"

definition largest_storage :: "pallet_config \<Rightarrow> kv_storage" where
  "largest_storage cfg =
     map (\<lambda>i. (numbered_key (unat (max_storage_key_size cfg)) i,
               replicate (unat (max_storage_value_size cfg)) 0))
       [0..<unat (max_storage_size cfg)]"

definition largest_size :: "pallet_config \<Rightarrow> nat" where
  "largest_size cfg =
     (let k = unat (max_storage_key_size cfg); v = unat (max_storage_value_size cfg) in
      unat (max_storage_size cfg) * (compact_len k + k + compact_len v + v))"

lemma numbered_key_length [simp]: "length (numbered_key k i) = k"
  by (induction k i rule: numbered_key.induct) simp_all

lemma numbered_key_mono:
  "i < j \<Longrightarrow> j < 256 ^ k \<Longrightarrow> numbered_key k i < numbered_key k j"
proof (induction k arbitrary: i j)
  case (Suc k)
  have byte: "(word_of_nat a :: u8) < word_of_nat b \<longleftrightarrow> a < b" if "a < 256" "b < 256" for a b
    using that by (simp add: word_less_nat_alt unat_u8_of_nat)
  have small: "i div 256 ^ k < 256" "j div 256 ^ k < 256" "i div 256 ^ k \<le> j div 256 ^ k"
    using Suc.prems by (simp_all add: less_mult_imp_div_less div_le_mono mult.commute)
  show ?case
  proof (cases "i div 256 ^ k = j div 256 ^ k")
    case True
    with Suc.prems(1) have "i mod 256 ^ k < j mod 256 ^ k"
      by (metis div_mult_mod_eq nat_add_left_cancel_less)
    with True Suc.IH show ?thesis by simp
  next
    case False
    with small byte show ?thesis by simp
  qed
qed simp

lemma largest_storage_ok:
  assumes "unat (max_storage_size cfg) \<le> 256 ^ unat (max_storage_key_size cfg)"
  shows "storage_ok cfg (largest_storage cfg)" "entries_size (largest_storage cfg) = largest_size cfg"
proof -
  let ?k = "unat (max_storage_key_size cfg)"
  have "sorted_wrt (\<lambda>i j. numbered_key ?k i < numbered_key ?k j) [0..<unat (max_storage_size cfg)]"
    by (rule sorted_wrt_mono_rel [OF _ sorted_wrt_upt]) (use assms numbered_key_mono in auto)
  then show "storage_ok cfg (largest_storage cfg)"
    by (auto simp: storage_ok_def within_bounds_def largest_storage_def btree_wf_def sorted_wrt_map comp_def)
  show "entries_size (largest_storage cfg) = largest_size cfg"
    by (simp add: entries_size_def largest_storage_def largest_size_def entry_size_def comp_def
        sum_list_triv Let_def)
qed

lemma compact_len_mono: "m \<le> n \<Longrightarrow> compact_len m \<le> compact_len n"
  by (simp add: compact_len_def)

lemma storage_ok_largest: "storage_ok cfg m \<Longrightarrow> entries_size m \<le> largest_size cfg"
proof -
  let ?k = "unat (max_storage_key_size cfg)" and ?v = "unat (max_storage_value_size cfg)"
  assume "storage_ok cfg m"
  then have m: "length m \<le> unat (max_storage_size cfg)"
    "\<forall>e \<in> set m. length (fst e) \<le> ?k \<and> length (snd e) \<le> ?v"
    by (auto simp: storage_ok_def within_bounds_def)
  have "entry_size e \<le> compact_len ?k + ?k + compact_len ?v + ?v" if "e \<in> set m" for e
  proof -
    from m(2) that have "length (fst e) \<le> ?k" "length (snd e) \<le> ?v" by auto
    then show ?thesis unfolding entry_size_def by (intro add_mono compact_len_mono)
  qed
  then have "entries_size m \<le> (\<Sum>e\<leftarrow>m. compact_len ?k + ?k + compact_len ?v + ?v)"
    unfolding entries_size_def by (intro sum_list_mono) auto
  also have "\<dots> \<le> largest_size cfg"
    using m(1) by (simp add: sum_list_triv largest_size_def Let_def)
  finally show ?thesis .
qed

text \<open>
  C34. When the size of a storage is exact: the bounds of a configuration limit the bytes of a storage
  to \<open>largest_size\<close>, and, as long as there are enough keys, a storage that the bounds allow has that
  size; so the \<open>i32\<close> that \<open>execute_code\<close> computes is the number of bytes of every storage the bounds allow
  exactly when \<open>largest_size\<close> is below 2 GiB.
\<close>

theorem storage_size_exact_iff:
  assumes "scale_codec (codec R)"
    and "unat (max_storage_size (config R)) \<le> 256 ^ unat (max_storage_key_size (config R))"
  shows "(\<forall>m. storage_ok (config R) m \<longrightarrow> entries_size m \<le> largest_size (config R)) \<and>
    (\<exists>m. storage_ok (config R) m \<and> entries_size m = largest_size (config R)) \<and>
    ((\<forall>m raw. storage_ok (config R) m \<longrightarrow> enc_map (codec R) m = Some raw \<longrightarrow>
        map_option sint (get_storage_size (codec R) raw) = Some (int (entries_size m))) \<longleftrightarrow>
     largest_size (config R) < 2147483648)"
proof -
  have size: "get_storage_size (codec R) raw = Some (word_of_nat (entries_size m))"
    if "storage_ok (config R) m" "enc_map (codec R) m = Some raw" for m raw
    using scale_codec.dec_compact_map [OF assms(1) that(2)] storage_ok_encodable [OF that(1)]
      scale_codec.entries_length [OF assms(1)] by (simp add: get_storage_size_def)
  have below: "sint (word_of_nat n :: i32) = int n \<longleftrightarrow> n < 2147483648" for n
  proof
    assume "sint (word_of_nat n :: i32) = int n"
    with sint_less [of "word_of_nat n :: i32"] show "n < 2147483648" by simp
  qed (rule sint_small)
  let ?m = "largest_storage (config R)"
  note largest = largest_storage_ok [OF assms(2)]
  obtain raw where raw: "enc_map (codec R) ?m = Some raw"
    using scale_codec.map_format [OF assms(1)] storage_ok_encodable [OF largest(1)] by auto
  have "largest_size (config R) < 2147483648"
    if "\<forall>m raw. storage_ok (config R) m \<longrightarrow> enc_map (codec R) m = Some raw \<longrightarrow>
        map_option sint (get_storage_size (codec R) raw) = Some (int (entries_size m))"
    using that [rule_format, OF largest(1) raw] size [OF largest(1) raw] below largest(2) by simp
  moreover have "map_option sint (get_storage_size (codec R) raw) = Some (int (entries_size m))"
    if "largest_size (config R) < 2147483648" "storage_ok (config R) m" "enc_map (codec R) m = Some raw"
    for m raw
    using size [OF that(2,3)] storage_ok_largest [OF that(2)] that(1) below by simp
  ultimately show ?thesis using storage_ok_largest largest by blast
qed

text \<open>
  The node's configuration: the size is exact, but a storage can be 1540 times the 1 MiB that
  \<open>MaxKontracStorageSize\<close> is annotated with, because it bounds the number of entries.
\<close>

theorem storage_size_exact_iff_witness:
  "\<exists>m raw. storage_ok kontracts_config m \<and> entries_size m = 1540 * 1048576 \<and>
     enc_map scale_ref m = Some raw \<and>
     map_option sint (get_storage_size scale_ref raw) = Some (1540 * 1048576)"
proof -
  let ?R = "ledger_runtime kontracts_config (\<lambda>_ _ _ _ _. None)"
  have size: "largest_size kontracts_config = 1540 * 1048576" by code_simp
  have "(2 :: nat) ^ 20 \<le> 256 ^ 512" by (rule order_trans [OF power_increasing [of 20 4096]]) (simp_all flip: power_mult)
  then have "unat (max_storage_size kontracts_config) \<le> 256 ^ unat (max_storage_key_size kontracts_config)"
    by (simp add: kontracts_config_def)
  with storage_size_exact_iff [of ?R] size have
    exact: "\<forall>m raw. storage_ok kontracts_config m \<longrightarrow> enc_map scale_ref m = Some raw \<longrightarrow>
      map_option sint (get_storage_size scale_ref raw) = Some (int (entries_size m))"
    and "\<exists>m. storage_ok kontracts_config m \<and> entries_size m = 1540 * 1048576"
    by (simp_all add: scale_ref.scale_codec_axioms)
  then obtain m where m: "storage_ok kontracts_config m" "entries_size m = 1540 * 1048576" by blast
  obtain raw where raw: "enc_map scale_ref m = Some raw"
    using scale_codec.map_format [OF scale_ref.scale_codec_axioms] storage_ok_encodable [OF m(1)] by auto
  from exact [rule_format, OF m(1) raw] have
    "map_option sint (get_storage_size scale_ref raw) = Some (1540 * 1048576)"
    unfolding m(2) by simp
  with m raw show ?thesis by blast
qed

section \<open>What fits into a block\<close>

text \<open>
  What FRAME documents of \<open>with_sensible_defaults\<close>: normal extrinsics share the given ratio of the block,
  a tenth of the block is set aside for its initialisation, and every extrinsic has a base weight; one
  extrinsic can have what is left of the normal share. The fields are computation times. FRAME
  rounds, so the laws are stated for weights it need not round.
\<close>

record block_limits =
  max_block :: u64
  max_total_normal :: u64
  max_extrinsic_normal :: u64

locale sensible_block_weights =
  fixes with_sensible_defaults :: "u64 \<times> u64 \<Rightarrow> nat \<Rightarrow> block_limits"
    and base :: u64
  assumes whole: "max_block (with_sensible_defaults w ratio) = fst w"
    and normal_share_of: "ratio \<le> 100 \<Longrightarrow> 100 dvd unat (fst w) \<Longrightarrow>
      unat (max_total_normal (with_sensible_defaults w ratio)) = unat (fst w) * ratio div 100"
    and left_for_one: "ratio \<le> 100 \<Longrightarrow> 100 dvd unat (fst w) \<Longrightarrow>
      unat (max_extrinsic_normal (with_sensible_defaults w ratio)) =
        unat (fst w) * ratio div 100 - unat (fst w) div 10 - unat base"
begin

lemma node_limits:
  assumes "unat (per_second :: u64) = 1000000000000"
  shows "unat (max_block (block_weights with_sensible_defaults per_second)) = 2000000000000"
    "unat (max_total_normal (block_weights with_sensible_defaults per_second)) = 1500000000000"
    "unat (max_extrinsic_normal (block_weights with_sensible_defaults per_second)) =
      1300000000000 - unat base"
proof -
  have two: "unat (2 * per_second) = 2000000000000" using assms by (simp add: unat_word_ariths)
  have dvd: "(100 :: nat) dvd 2000000000000" by simp
  show "unat (max_block (block_weights with_sensible_defaults per_second)) = 2000000000000"
    using two by (simp add: block_weights_def whole)
  show "unat (max_total_normal (block_weights with_sensible_defaults per_second)) = 1500000000000"
    using two dvd by (simp add: block_weights_def normal_dispatch_ratio_def normal_share_of)
  show "unat (max_extrinsic_normal (block_weights with_sensible_defaults per_second)) =
      1300000000000 - unat base"
    using two dvd by (simp add: block_weights_def normal_dispatch_ratio_def left_for_one)
qed

end

definition documented_weights :: "u64 \<Rightarrow> u64 \<times> u64 \<Rightarrow> nat \<Rightarrow> block_limits" where
  "documented_weights base w ratio =
     \<lparr>max_block = fst w, max_total_normal = word_of_nat (unat (fst w) * ratio div 100),
      max_extrinsic_normal =
        word_of_nat (unat (fst w) * ratio div 100 - unat (fst w) div 10 - unat base)\<rparr>"

interpretation node_weights: sensible_block_weights "documented_weights base" base for base
proof
  fix w :: "u64 \<times> u64" and ratio :: nat
  assume "ratio \<le> 100"
  then have share: "unat (fst w) * ratio div 100 \<le> unat (fst w)"
    by (metis div_le_mono div_mult_self_is_m mult_le_mono2 zero_less_numeral)
  have small: "unat (word_of_nat n :: u64) = n" if "n \<le> unat (fst w)" for n
    using that unat_u64_less [of "fst w"] by (simp add: unat_of_nat)
  show "unat (max_total_normal (documented_weights base w ratio)) = unat (fst w) * ratio div 100"
    using small [OF share] by (simp add: documented_weights_def)
  have "unat (fst w) * ratio div 100 - unat (fst w) div 10 - unat base \<le> unat (fst w)"
    using share by linarith
  from small [OF this] show "unat (max_extrinsic_normal (documented_weights base w ratio)) =
      unat (fst w) * ratio div 100 - unat (fst w) div 10 - unat base"
    by (simp add: documented_weights_def)
qed (simp add: documented_weights_def)

text \<open>The weight of a call with FRAME's weights of RocksDB.\<close>

lemma rocksdb_weight:
  assumes "bounded_call (config R) c" and "unat (db_writes R 1) = 100000000"
    and "\<forall>r w. unat (db_reads_writes R (ucast (r :: u32)) (ucast (w :: u32))) =
      25000000 * unat r + 100000000 * unat w"
  shows "unat (call_weight R c) =
    (case c of
       UploadCode code \<Rightarrow> 100010000 + 155 * length code
     | UpdateCode i code \<Rightarrow> 100010000 + 155 * length code
     | ExecuteCode i x f r w \<Rightarrow> 10000 + 25000000 * unat r + 100000000 * unat w + 100 * unat f
     | DeleteCode i \<Rightarrow> 0)"
proof -
  have "25000000 * unat r + 100000000 * unat w < 9223372036854775808" for r w :: u32
    using unat_u32_less [of r] unat_u32_less [of w] by linarith
  then show ?thesis
    using call_weight_exact [OF assms(1)] assms(2,3) by (simp split: call.split)
qed

text \<open>
  C32. The calls of the pallet against the node's limits for one extrinsic, with FRAME's weights of RocksDB
  (25 microseconds a read, 100 a write) and a base weight of at most a millisecond: an upload or update
  of any allowed code takes less than a thousandth of the time an extrinsic may take and a third of the length left
  to normal calls; an execution is accepted with any fuel whatever as long as it declares at most 34000
  reads, a write counting as four, and never with 52000 or more, although the arguments allow \<open>2^32\<close>.
\<close>

theorem node_calls_fit_block:
  assumes "config R = kontracts_config" and "bounded_call (config R) c"
    and "sensible_block_weights wsd base" and "unat base \<le> 1000000000"
    and "unat (per_second :: u64) = 1000000000000" and "unat (db_writes R 1) = 100000000"
    and "\<forall>r w. unat (db_reads_writes R (ucast (r :: u32)) (ucast (w :: u32))) =
      25000000 * unat r + 100000000 * unat w"
    and "limit = max_extrinsic_normal (block_weights wsd per_second)"
  shows "case c of
      UploadCode code \<Rightarrow> 1000 * unat (call_weight R c) < unat limit \<and>
        3 * length code < normal_share (unat max_block_length)
    | UpdateCode i code \<Rightarrow> 1000 * unat (call_weight R c) < unat limit \<and>
        3 * length code < normal_share (unat max_block_length)
    | DeleteCode i \<Rightarrow> unat (call_weight R c) = 0
    | ExecuteCode i x f r w \<Rightarrow>
        (unat r + 4 * unat w \<le> 34000 \<longrightarrow> call_weight R c \<le> limit) \<and>
        (52000 \<le> unat r + 4 * unat w \<longrightarrow> limit < call_weight R c)"
proof -
  have limit: "unat limit = 1300000000000 - unat base" "normal_share (unat max_block_length) = 3932160"
    using sensible_block_weights.node_limits(3) [OF assms(3,5)] assms(8)
    by (simp_all add: normal_share_def max_block_length_def normal_dispatch_ratio_def unat_word_ariths)
  note exact = rocksdb_weight [OF assms(2,6,7)]
  have "length code \<le> 1000000" if "c = UploadCode code \<or> c = UpdateCode i code" for i code
    using assms(1,2) that by (auto simp: kontracts_config_def)
  then show ?thesis
  proof (cases c)
    case (ExecuteCode i x f r w)
    have "unat f \<le> 4294967295" using unat_u32_less [of f] by linarith
    then show ?thesis
      using exact limit(1) ExecuteCode assms(4)
      by (simp add: word_le_nat_alt word_less_nat_alt) (intro conjI impI; linarith)
  qed (use exact limit assms(4) in simp_all)
qed

lemma ledger_weights:
  "unat (db_reads_writes (ledger_runtime cfg exec) (ucast (r :: u32)) (ucast (w :: u32))) =
    25000000 * unat r + 100000000 * unat w"
proof -
  have "25000000 * unat r < 1000000000000000000" "100000000 * unat w < 1000000000000000000"
    using unat_u32_less [of r] unat_u32_less [of w] by linarith+
  then show ?thesis by (simp add: unat_word_ariths)
qed

theorem node_calls_fit_block_witness:
  "call_weight (ledger_runtime kontracts_config (\<lambda>_ _ _ _ _. None)) (ExecuteCode [] 0 (- 1) 2 1)
     \<le> max_extrinsic_normal (block_weights (documented_weights 86298000) 1000000000000)"
proof -
  let ?R = "ledger_runtime kontracts_config (\<lambda>_ _ _ _ _. None)"
  from node_calls_fit_block [OF _ _ node_weights.sensible_block_weights_axioms _ _ _ _ refl,
      of ?R "ExecuteCode [] 0 (- 1) 2 1" 86298000 1000000000000] ledger_weights
  show ?thesis by simp
qed

end
