(* ===== verification/Runtime_Api.thy ===== *)
theory Runtime_Api
  imports Runtime_Config
begin

text \<open>
  What \<open>runtime/src/lib.rs\<close> answers itself: the runtime APIs with a body of their own, the native
  version, the keys of a session, the benchmark list, and the configurations of the FRAME pallets
  that are numbers or functions. The functions of FRAME that the APIs call are the
  record \<open>frame\<close>.
\<close>

section \<open>Versions and session keys\<close>

definition core_version :: runtime_version where
  "core_version = runtime_VERSION"

text \<open>\<open>can_author_with\<close> is the empty set, the default.\<close>

record native_version =
  native_runtime_version :: runtime_version
  can_author_with :: "u32 set"

definition runtime_native_version :: native_version where
  "runtime_native_version = \<lparr>native_runtime_version = runtime_VERSION, can_author_with = {}\<rparr>"

text \<open>
  A full node uses its native runtime only when name, authoring and specification version agree with
  those on chain; this is the condition the comment on \<open>spec_version\<close> states.
\<close>

definition can_use_native :: "native_version \<Rightarrow> runtime_version \<Rightarrow> bool" where
  "can_use_native n on_chain \<longleftrightarrow>
     spec_name (native_runtime_version n) = spec_name on_chain \<and>
     spec_version (native_runtime_version n) = spec_version on_chain \<and>
     authoring_version (native_runtime_version n) = authoring_version on_chain"

lemma native_runtime_used: "can_use_native runtime_native_version core_version"
  by (simp add: can_use_native_def runtime_native_version_def core_version_def)

record ('aura, 'grandpa) session_keys =
  session_aura :: 'aura
  session_grandpa :: 'grandpa

section \<open>Configurations\<close>

record system_config =
  ss58_prefix :: nat
  max_consumers :: u32

definition runtime_system_config :: system_config where
  "runtime_system_config = \<lparr>ss58_prefix = 42, max_consumers = 16\<rparr>"

record balances_config =
  max_locks :: u32
  max_reserves :: u32
  min_balance :: nat

definition runtime_balances_config :: balances_config where
  "runtime_balances_config =
     \<lparr>max_locks = 50, max_reserves = 1048576, min_balance = existential_deposit\<rparr>"

text \<open>\<open>IdentityFee\<close> twice, and the constant multiplier one.\<close>

definition operational_fee_multiplier :: u8 where
  "operational_fee_multiplier = 5"

definition weight_to_fee :: "u64 \<Rightarrow> nat" where
  "weight_to_fee weight = unat weight"

definition length_to_fee :: "u64 \<Rightarrow> nat" where
  "length_to_fee len = unat len"

definition fee_multiplier :: nat where
  "fee_multiplier = 1"

section \<open>The runtime APIs\<close>

text \<open>\<open>pallet_aura_slot_duration\<close> is \<open>Aura::slot_duration\<close>, in milliseconds.\<close>

definition aura_api_slot_duration :: "u64 \<Rightarrow> u64" where
  "aura_api_slot_duration pallet_aura_slot_duration = pallet_aura_slot_duration"

text \<open>GRANDPA equivocations cannot be reported: there is no proof of key ownership.\<close>

definition submit_report_equivocation_unsigned_extrinsic :: "'proof \<Rightarrow> 'owner \<Rightarrow> unit option" where
  "submit_report_equivocation_unsigned_extrinsic equivocation_proof key_owner_proof = None"

definition generate_key_ownership_proof :: "u64 \<Rightarrow> 'grandpa \<Rightarrow> 'owner option" where
  "generate_key_ownership_proof set_id authority_id = None"

text \<open>
  What the APIs call in FRAME: the executive and the functions of the other pallets, over the state of
  the chain. Blocks, headers, extrinsics and the other values of FRAME are one type; \<open>None\<close> is a block
  whose execution panics.
\<close>

record ('v, 's) frame =
  executive_execute_block :: "'v \<Rightarrow> 's \<Rightarrow> 's option"
  executive_initialize_block :: "'v \<Rightarrow> 's \<Rightarrow> 's"
  executive_apply_extrinsic :: "'v \<Rightarrow> 's \<Rightarrow> 'v \<times> 's"
  executive_finalize_block :: "'s \<Rightarrow> 'v \<times> 's"
  executive_validate_transaction :: "'v \<Rightarrow> 'v \<Rightarrow> 'v \<Rightarrow> 's \<Rightarrow> 'v"
  executive_offchain_worker :: "'v \<Rightarrow> 's \<Rightarrow> 's"
  opaque_metadata_new :: "'v \<Rightarrow> 'v"
  runtime_metadata :: 'v
  create_extrinsics :: "'v \<Rightarrow> 's \<Rightarrow> 'v list"
  check_extrinsics :: "'v \<Rightarrow> 'v \<Rightarrow> 's \<Rightarrow> 'v"
  aura_slot_duration_of :: "'s \<Rightarrow> u64"
  aura_authorities :: "'s \<Rightarrow> 'v list"
  session_keys_generate :: "bytes option \<Rightarrow> bytes"
  session_keys_decode :: "bytes \<Rightarrow> 'v list option"
  grandpa_authorities :: "'s \<Rightarrow> 'v list"
  grandpa_current_set_id :: "'s \<Rightarrow> u64"
  system_account_nonce :: "'v \<Rightarrow> 's \<Rightarrow> u32"
  payment_query_info :: "'v \<Rightarrow> u32 \<Rightarrow> 's \<Rightarrow> 'v"
  payment_query_fee_details :: "'v \<Rightarrow> u32 \<Rightarrow> 's \<Rightarrow> 'v"
  payment_query_call_info :: "'v \<Rightarrow> u32 \<Rightarrow> 's \<Rightarrow> 'v"
  payment_query_call_fee_details :: "'v \<Rightarrow> u32 \<Rightarrow> 's \<Rightarrow> 'v"

datatype 'v api_call =
    Core_version | Core_execute_block 'v | Core_initialize_block 'v
  | Metadata_metadata
  | BlockBuilder_apply_extrinsic 'v | BlockBuilder_finalize_block
  | BlockBuilder_inherent_extrinsics 'v | BlockBuilder_check_inherents 'v 'v
  | TaggedTransactionQueue_validate_transaction 'v 'v 'v
  | OffchainWorkerApi_offchain_worker 'v
  | AuraApi_slot_duration | AuraApi_authorities
  | SessionKeys_generate_session_keys "bytes option" | SessionKeys_decode_session_keys bytes
  | GrandpaApi_grandpa_authorities | GrandpaApi_current_set_id
  | GrandpaApi_submit_report_equivocation_unsigned_extrinsic 'v 'v
  | GrandpaApi_generate_key_ownership_proof u64 'v
  | AccountNonceApi_account_nonce 'v
  | TransactionPaymentApi_query_info 'v u32 | TransactionPaymentApi_query_fee_details 'v u32
  | TransactionPaymentCallApi_query_call_info 'v u32
  | TransactionPaymentCallApi_query_call_fee_details 'v u32

datatype 'v api_result =
    Done | A_Version runtime_version | A_Value 'v | Values "'v list" | Maybe_Values "'v list option"
  | Maybe_Unit "unit option" | Maybe_Value "'v option" | Raw bytes | U32 u32 | U64 u64

fun impl_runtime_apis :: "('v, 's) frame \<Rightarrow> 'v api_call \<Rightarrow> 's \<Rightarrow> ('v api_result \<times> 's) option" where
  "impl_runtime_apis F Core_version s = Some (A_Version core_version, s)"
| "impl_runtime_apis F (Core_execute_block block) s =
     map_option (Pair Done) (executive_execute_block F block s)"
| "impl_runtime_apis F (Core_initialize_block header) s =
     Some (Done, executive_initialize_block F header s)"
| "impl_runtime_apis F Metadata_metadata s =
     Some (A_Value (opaque_metadata_new F (runtime_metadata F)), s)"
| "impl_runtime_apis F (BlockBuilder_apply_extrinsic extrinsic) s =
     Some (apfst A_Value (executive_apply_extrinsic F extrinsic s))"
| "impl_runtime_apis F BlockBuilder_finalize_block s =
     Some (apfst A_Value (executive_finalize_block F s))"
| "impl_runtime_apis F (BlockBuilder_inherent_extrinsics data) s =
     Some (Values (create_extrinsics F data s), s)"
| "impl_runtime_apis F (BlockBuilder_check_inherents block data) s =
     Some (A_Value (check_extrinsics F data block s), s)"
| "impl_runtime_apis F (TaggedTransactionQueue_validate_transaction source tx block_hash) s =
     Some (A_Value (executive_validate_transaction F source tx block_hash s), s)"
| "impl_runtime_apis F (OffchainWorkerApi_offchain_worker header) s =
     Some (Done, executive_offchain_worker F header s)"
| "impl_runtime_apis F AuraApi_slot_duration s =
     Some (U64 (aura_api_slot_duration (aura_slot_duration_of F s)), s)"
| "impl_runtime_apis F AuraApi_authorities s = Some (Values (aura_authorities F s), s)"
| "impl_runtime_apis F (SessionKeys_generate_session_keys seed) s =
     Some (Raw (session_keys_generate F seed), s)"
| "impl_runtime_apis F (SessionKeys_decode_session_keys encoded) s =
     Some (Maybe_Values (session_keys_decode F encoded), s)"
| "impl_runtime_apis F GrandpaApi_grandpa_authorities s = Some (Values (grandpa_authorities F s), s)"
| "impl_runtime_apis F GrandpaApi_current_set_id s = Some (U64 (grandpa_current_set_id F s), s)"
| "impl_runtime_apis F (GrandpaApi_submit_report_equivocation_unsigned_extrinsic proof owner) s =
     Some (Maybe_Unit (submit_report_equivocation_unsigned_extrinsic proof owner), s)"
| "impl_runtime_apis F (GrandpaApi_generate_key_ownership_proof set_id authority) s =
     Some (Maybe_Value (generate_key_ownership_proof set_id authority), s)"
| "impl_runtime_apis F (AccountNonceApi_account_nonce account) s =
     Some (U32 (system_account_nonce F account s), s)"
| "impl_runtime_apis F (TransactionPaymentApi_query_info uxt len) s =
     Some (A_Value (payment_query_info F uxt len s), s)"
| "impl_runtime_apis F (TransactionPaymentApi_query_fee_details uxt len) s =
     Some (A_Value (payment_query_fee_details F uxt len s), s)"
| "impl_runtime_apis F (TransactionPaymentCallApi_query_call_info c len) s =
     Some (A_Value (payment_query_call_info F c len s), s)"
| "impl_runtime_apis F (TransactionPaymentCallApi_query_call_fee_details c len) s =
     Some (A_Value (payment_query_call_fee_details F c len s), s)"

section \<open>Benchmarks and try-runtime\<close>

datatype benchmark = Baseline | PalletBenchmark runtime_pallet

definition runtime_benchmark_list :: "benchmark list" where
  "runtime_benchmark_list =
     [Baseline, PalletBenchmark System, PalletBenchmark Balances, PalletBenchmark Timestamp,
      PalletBenchmark Kontracts]"

text \<open>The \<open>unwrap\<close> and \<open>expect\<close> of the try-runtime API; the argument is what the executive returned.\<close>

definition on_runtime_upgrade :: "block_limits \<Rightarrow> (u64, 'e) outcome \<Rightarrow> (u64 \<times> u64, 'e) outcome" where
  "on_runtime_upgrade weights upgraded =
     (case upgraded of Ok weight \<Rightarrow> Ok (weight, max_block weights) | _ \<Rightarrow> Panic)"

definition try_execute_block :: "(u64, 'e) outcome \<Rightarrow> (u64, 'e) outcome" where
  "try_execute_block executed = (case executed of Ok weight \<Rightarrow> Ok weight | _ \<Rightarrow> Panic)"

section \<open>The mock runtime\<close>

text \<open>
  \<open>pallets/kontracts/src/mock.rs\<close>: three pallets, no existential deposit, and free database accesses,
  so that a test pays for nothing but its deposits.
\<close>

definition test_construct_runtime :: "runtime_pallet list" where
  "test_construct_runtime = [System, Balances, Kontracts]"

definition test_block_hash_count :: u64 where
  "test_block_hash_count = 250"

definition test_system_config :: system_config where
  "test_system_config = \<lparr>ss58_prefix = 42, max_consumers = 16\<rparr>"

definition test_balances_config :: balances_config where
  "test_balances_config = \<lparr>max_locks = 50, max_reserves = 1024, min_balance = 0\<rparr>"

lemma test_pallets_in_order: "sorted_wrt (<) test_construct_runtime"
  by (simp add: test_construct_runtime_def less_runtime_pallet_def)

end
