(* ===== verification/Runtime_Blocks.thy ===== *)
theory Runtime_Blocks
  imports Runtime_Api
begin

text \<open>
  Pallet kontracts inside the runtime: what the runtime APIs of \<open>runtime/src/lib.rs\<close>, called by a node
  that builds or imports blocks, do to the pallet's state, and what the calls of the pallet cost under
  the runtime's fee configuration. FRAME's executive and transaction payment are arguments; the locales
  \<open>frame_executive\<close> and \<open>fee_schedule\<close> state what FRAME documents of them.
\<close>

section \<open>Blocks\<close>

text \<open>Two states of the chain that differ, for the pallet, in balances and events only.\<close>

definition same_kontracts ::
  "('id, 'acc, 'bal) pallet_state \<Rightarrow> ('id, 'acc, 'bal) pallet_state \<Rightarrow> bool" where
  "same_kontracts s t \<longleftrightarrow> codes t = codes s \<and> storages t = storages s"

lemma same_kontracts_step: "same_kontracts s t \<Longrightarrow> pallet_step R s t"
proof -
  assume "same_kontracts s t"
  then have "t = s\<lparr>balances := balances t, events := events t\<rparr>"
    by (cases s; cases t) (simp add: same_kontracts_def)
  with step_others [where R = R and s = s and b = "balances t" and es = "events t"]
  show ?thesis by simp
qed

text \<open>
  What an extrinsic dispatches once the signed extensions let it: a call of the pallet, with the origin
  it gets there (root when sudo made it), a call of another pallet as root, such as sudo's
  \<open>System::set_storage\<close>, \<open>kill_prefix\<close> or \<open>set_code\<close>, which can write any storage, or a call of
  another pallet without root.
\<close>

datatype ('o, 'id) dispatch = Kontract_call 'o "'id call" | Root_elsewhere | User_elsewhere

text \<open>
  The extrinsics a call of the runtime APIs applies, those that do not act for root on the pallet, and
  what holds between a state of the chain and a later one when all extrinsics are of users only.
\<close>

definition applied :: "('v \<Rightarrow> 'v list) \<Rightarrow> 'v api_call \<Rightarrow> 'v list" where
  "applied block_extrinsics a =
     (case a of Core_execute_block b \<Rightarrow> block_extrinsics b | BlockBuilder_apply_extrinsic x \<Rightarrow> [x]
      | _ \<Rightarrow> [])"

definition unprivileged ::
  "('o, 'acc, 'id, 'bal) runtime \<Rightarrow> ('v \<Rightarrow> ('o, 'id) dispatch) \<Rightarrow> 'v \<Rightarrow> bool" where
  "unprivileged R dispatches x \<longleftrightarrow>
     (case dispatches x of Kontract_call origin c \<Rightarrow> \<not> is_root R origin | Root_elsewhere \<Rightarrow> False
      | User_elsewhere \<Rightarrow> True)"

definition keeps ::
  "('o, 'acc, 'id, 'bal) runtime \<Rightarrow> ('s \<Rightarrow> ('id, 'acc, 'bal) pallet_state) \<Rightarrow> 's \<Rightarrow> 's \<Rightarrow> bool \<Rightarrow> bool"
  where
  "keeps R pallet s s' users \<longleftrightarrow> reachable R (pallet s') \<and>
     (users \<longrightarrow> codes_kept R (pallet s) (pallet s'))"

lemma keeps_trans:
  "keeps R pallet s t users \<Longrightarrow> keeps R pallet t u users' \<Longrightarrow> keeps R pallet s u (users \<and> users')"
  by (auto simp: keeps_def intro: codes_kept_trans)

text \<open>A node calling the APIs one after the other.\<close>

fun run_apis :: "('v, 's) frame \<Rightarrow> 'v api_call list \<Rightarrow> 's \<Rightarrow> 's option" where
  "run_apis F [] s = Some s"
| "run_apis F (a # as) s =
     (case impl_runtime_apis F a s of None \<Rightarrow> None | Some (r, t) \<Rightarrow> run_apis F as t)"

text \<open>
  The executive runs a block by initialising it, applying its extrinsics in order and finalising it.
  A call of the pallet is dispatched after the signed extensions charged for it, or is dropped by
  them; a call of another pallet without root and the other phases of a block do not touch the
  pallet's storage. Nothing is said of a call of another pallet as root.
\<close>

locale frame_executive =
  fixes F :: "('v, 's) frame"
    and R :: "('o, 'acc, 'id, 'bal) runtime"
    and pallet :: "'s \<Rightarrow> ('id, 'acc, 'bal) pallet_state"
    and dispatches :: "'v \<Rightarrow> ('o, 'id) dispatch"
    and block_header :: "'v \<Rightarrow> 'v"
    and block_extrinsics :: "'v \<Rightarrow> 'v list"
  assumes executes: "executive_execute_block F b s = Some s' \<Longrightarrow>
      s' = snd (executive_finalize_block F
        (fold (\<lambda>x s. snd (executive_apply_extrinsic F x s)) (block_extrinsics b)
          (executive_initialize_block F (block_header b) s)))"
    and initializes: "same_kontracts (pallet s) (pallet (executive_initialize_block F h s))"
    and finalizes: "same_kontracts (pallet s) (pallet (snd (executive_finalize_block F s)))"
    and off_chain: "same_kontracts (pallet s) (pallet (executive_offchain_worker F h s))"
    and applies_user: "dispatches x = User_elsewhere \<Longrightarrow>
      same_kontracts (pallet s) (pallet (snd (executive_apply_extrinsic F x s)))"
    and applies_call: "dispatches x = Kontract_call origin c \<Longrightarrow>
      same_kontracts (pallet s) (pallet (snd (executive_apply_extrinsic F x s))) \<or>
      (bounded_call (config R) c \<and> (\<exists>t res. same_kontracts (pallet s) t \<and>
         run_call R origin c t = Some res \<and>
         same_kontracts (committed res t) (pallet (snd (executive_apply_extrinsic F x s)))))"
begin

text \<open>What an extrinsic, and with it a list of them, preserves.\<close>

lemma keeps_same: "reachable R (pallet s) \<Longrightarrow> same_kontracts (pallet s) (pallet s') \<Longrightarrow> keeps R pallet s s' users"
  using reachable_step [OF _ same_kontracts_step] by (auto simp: keeps_def same_kontracts_def codes_kept_def)

lemma apply_keeps:
  assumes "reachable R (pallet s)" and "dispatches x \<noteq> Root_elsewhere"
  shows "keeps R pallet s (snd (executive_apply_extrinsic F x s)) (unprivileged R dispatches x)"
proof (cases "dispatches x")
  case User_elsewhere
  with assms(1) show ?thesis by (intro keeps_same applies_user)
next
  case (Kontract_call origin c)
  from applies_call [OF this, of s] show ?thesis
  proof (elim disjE conjE exE)
    fix t res
    assume bounded: "bounded_call (config R) c" and before: "same_kontracts (pallet s) t"
      and run: "run_call R origin c t = Some res"
      and after: "same_kontracts (committed res t) (pallet (snd (executive_apply_extrinsic F x s)))"
    from reachable_step [OF assms(1) same_kontracts_step [OF before]] have t: "reachable R t" .
    from reachable_step [OF t step_call [OF bounded run]] have "reachable R (committed res t)" .
    from reachable_step [OF this same_kontracts_step [OF after]]
    have "reachable R (pallet (snd (executive_apply_extrinsic F x s)))" .
    moreover have "codes_kept R (pallet s) (pallet (snd (executive_apply_extrinsic F x s)))"
      if "\<not> is_root R origin"
      using call_keeps_codes [OF t that run] before after
      by (simp add: same_kontracts_def codes_kept_def)
    ultimately show ?thesis
      using Kontract_call by (simp add: keeps_def unprivileged_def)
  qed (rule keeps_same [OF assms(1)])
qed (use assms(2) in simp)

lemma extrinsics_keep:
  "reachable R (pallet s) \<Longrightarrow> \<forall>x \<in> set xs. dispatches x \<noteq> Root_elsewhere \<Longrightarrow>
   keeps R pallet s (fold (\<lambda>x s. snd (executive_apply_extrinsic F x s)) xs s) (\<forall>x \<in> set xs. unprivileged R dispatches x)"
proof (induction xs arbitrary: s)
  case (Cons x xs)
  let ?t = "snd (executive_apply_extrinsic F x s)"
  have k: "keeps R pallet s ?t (unprivileged R dispatches x)"
    using Cons.prems by (intro apply_keeps) auto
  then have "reachable R (pallet ?t)" by (simp add: keeps_def)
  with Cons.prems(2)
  have "keeps R pallet ?t (fold (\<lambda>x s. snd (executive_apply_extrinsic F x s)) xs ?t) (\<forall>x \<in> set xs. unprivileged R dispatches x)"
    by (intro Cons.IH) auto
  from keeps_trans [OF k this] show ?case by simp
qed (simp add: keeps_def)

lemma api_keeps:
  assumes "reachable R (pallet s)" and "impl_runtime_apis F a s = Some (r, s')"
    and "\<forall>x \<in> set (applied block_extrinsics a). dispatches x \<noteq> Root_elsewhere"
  shows "keeps R pallet s s' (\<forall>x \<in> set (applied block_extrinsics a). unprivileged R dispatches x)"
proof (cases "\<exists>b. a = Core_execute_block b")
  case True
  then obtain b where a: "a = Core_execute_block b" by blast
  let ?s1 = "executive_initialize_block F (block_header b) s"
  let ?s2 = "fold (\<lambda>x s. snd (executive_apply_extrinsic F x s)) (block_extrinsics b) ?s1"
  have s': "s' = snd (executive_finalize_block F ?s2)"
    using assms(2) a by (auto dest: executes)
  have k1: "keeps R pallet s ?s1 True" using assms(1) initializes by (rule keeps_same)
  then have k2: "keeps R pallet ?s1 ?s2 (\<forall>x \<in> set (block_extrinsics b). unprivileged R dispatches x)"
    using assms(3) a by (intro extrinsics_keep) (simp_all add: keeps_def applied_def)
  then have "keeps R pallet ?s2 s' True" unfolding s' by (intro keeps_same finalizes) (simp add: keeps_def)
  from keeps_trans [OF keeps_trans [OF k1 k2] this] a show ?thesis by (simp add: applied_def)
next
  case False
  show ?thesis
  proof (cases "\<exists>x. a = BlockBuilder_apply_extrinsic x")
    case True
    then obtain x where "a = BlockBuilder_apply_extrinsic x" by blast
    with extrinsics_keep [OF assms(1), of "[x]"] assms(2,3) show ?thesis
      by (cases "executive_apply_extrinsic F x s") (auto simp: applied_def)
  next
    case no_extrinsic: False
    have "same_kontracts (pallet s) (pallet s')"
      using assms(2) False no_extrinsic initializes finalizes [of s] off_chain
      by (cases a; cases "executive_finalize_block F s") (auto simp: same_kontracts_def)
    with assms(1) show ?thesis by (rule keeps_same)
  qed
qed

lemma apis_keep:
  "run_apis F as s = Some s' \<Longrightarrow> reachable R (pallet s) \<Longrightarrow>
   \<forall>a \<in> set as. \<forall>x \<in> set (applied block_extrinsics a). dispatches x \<noteq> Root_elsewhere \<Longrightarrow>
   keeps R pallet s s' (\<forall>a \<in> set as. \<forall>x \<in> set (applied block_extrinsics a). unprivileged R dispatches x)"
proof (induction as arbitrary: s)
  case (Cons a as)
  from Cons.prems(1) obtain r t where a: "impl_runtime_apis F a s = Some (r, t)"
    and rest: "run_apis F as t = Some s'" by (auto split: option.splits)
  have first: "keeps R pallet s t (\<forall>x \<in> set (applied block_extrinsics a). unprivileged R dispatches x)"
    using Cons.prems(3) by (intro api_keeps [OF Cons.prems(2) a]) auto
  then have "reachable R (pallet t)" by (simp add: keeps_def)
  with Cons.prems(3) have
    "keeps R pallet t s' (\<forall>a \<in> set as. \<forall>x \<in> set (applied block_extrinsics a). unprivileged R dispatches x)"
    by (intro Cons.IH [OF rest]) auto
  from keeps_trans [OF first this] show ?case by simp
qed (simp add: keeps_def)

end

text \<open>
  A chain with the parts the laws distinguish: calls of the pallet, with the fee that is withdrawn for
  them first (without which they are dropped), calls of other pallets, that change balances as users
  or write the pallet's storage as root, and blocks that start without events. A value of the APIs is
  a list of such extrinsics.
\<close>

datatype ('o, 'id, 'acc, 'bal) chain_extrinsic =
    To_kontracts 'o "'id call"
  | To_balances "'bal \<Rightarrow> 'bal"
  | Set_storage "'id \<Rightarrow> bytes option" "'id \<Rightarrow> kv_storage option"

definition chain_dispatch :: "('o, 'id, 'acc, 'bal) chain_extrinsic list \<Rightarrow> ('o, 'id) dispatch" where
  "chain_dispatch x =
     (case x of [To_kontracts origin c] \<Rightarrow> Kontract_call origin c | [Set_storage cs ms] \<Rightarrow> Root_elsewhere
      | _ \<Rightarrow> User_elsewhere)"

definition apply_chain ::
  "('o, 'acc, 'id, 'bal) runtime \<Rightarrow> ('o \<Rightarrow> 'bal \<Rightarrow> 'bal option) \<Rightarrow>
   ('o, 'id, 'acc, 'bal) chain_extrinsic list \<Rightarrow> ('id, 'acc, 'bal) pallet_state \<Rightarrow>
   ('id, 'acc, 'bal) pallet_state" where
  "apply_chain R withdraw x s =
     (case x of
        [To_kontracts origin c] \<Rightarrow>
          if bounded_call (config R) c then
            (case withdraw origin (balances s) of
               None \<Rightarrow> s
             | Some b \<Rightarrow>
                 (case run_call R origin c (s\<lparr>balances := b\<rparr>) of
                    None \<Rightarrow> s
                  | Some res \<Rightarrow> committed res (s\<lparr>balances := b\<rparr>)))
          else s
      | [To_balances f] \<Rightarrow> s\<lparr>balances := f (balances s)\<rparr>
      | [Set_storage cs ms] \<Rightarrow> s\<lparr>codes := cs, storages := ms\<rparr>
      | _ \<Rightarrow> s)"

definition kontract_frame ::
  "('o, 'acc, 'id, 'bal) runtime \<Rightarrow> ('o \<Rightarrow> 'bal \<Rightarrow> 'bal option) \<Rightarrow>
   (('o, 'id, 'acc, 'bal) chain_extrinsic list, ('id, 'acc, 'bal) pallet_state) frame" where
  "kontract_frame R withdraw =
     \<lparr>executive_execute_block =
        (\<lambda>b s. Some (fold (apply_chain R withdraw) (map (\<lambda>x. [x]) b) (s\<lparr>events := []\<rparr>))),
      executive_initialize_block = (\<lambda>h s. s\<lparr>events := []\<rparr>),
      executive_apply_extrinsic = (\<lambda>x s. (x, apply_chain R withdraw x s)),
      executive_finalize_block = (\<lambda>s. ([], s)),
      executive_validate_transaction = (\<lambda>source tx block_hash s. tx),
      executive_offchain_worker = (\<lambda>h s. s),
      opaque_metadata_new = id, runtime_metadata = [],
      create_extrinsics = (\<lambda>data s. []), check_extrinsics = (\<lambda>data b s. []),
      aura_slot_duration_of = (\<lambda>s. slot_duration), aura_authorities = (\<lambda>s. []),
      session_keys_generate = (\<lambda>seed. []), session_keys_decode = (\<lambda>encoded. None),
      grandpa_authorities = (\<lambda>s. []), grandpa_current_set_id = (\<lambda>s. 0),
      system_account_nonce = (\<lambda>a s. 0), payment_query_info = (\<lambda>x len s. []),
      payment_query_fee_details = (\<lambda>x len s. []), payment_query_call_info = (\<lambda>x len s. []),
      payment_query_call_fee_details = (\<lambda>x len s. [])\<rparr>"

lemma chain_dispatch_call: "chain_dispatch x = Kontract_call origin c \<longleftrightarrow> x = [To_kontracts origin c]"
  by (auto simp: chain_dispatch_def split: list.split chain_extrinsic.split)

lemma chain_dispatch_user:
  "chain_dispatch x = User_elsewhere \<Longrightarrow> same_kontracts s (apply_chain R withdraw x s)"
  by (auto simp: chain_dispatch_def apply_chain_def same_kontracts_def
      split: list.splits chain_extrinsic.splits)

lemma apply_chain_call:
  "apply_chain R withdraw [To_kontracts origin c] s = s \<or>
   (\<exists>b res. bounded_call (config R) c \<and> run_call R origin c (s\<lparr>balances := b\<rparr>) = Some res \<and>
      apply_chain R withdraw [To_kontracts origin c] s = committed res (s\<lparr>balances := b\<rparr>))"
proof (cases "withdraw origin (balances s)")
  case (Some b)
  then show ?thesis
    by (cases "run_call R origin c (s\<lparr>balances := b\<rparr>)") (auto simp: apply_chain_def)
qed (simp add: apply_chain_def)

interpretation chain: frame_executive "kontract_frame R withdraw" R id chain_dispatch "\<lambda>b. []"
    "map (\<lambda>x. [x])"
    for R :: "('o, 'acc, 'id, 'bal) runtime" and withdraw :: "'o \<Rightarrow> 'bal \<Rightarrow> 'bal option"
proof
  fix x :: "('o, 'id, 'acc, 'bal) chain_extrinsic list" and s :: "('id, 'acc, 'bal) pallet_state"
  assume "chain_dispatch x = User_elsewhere"
  from chain_dispatch_user [OF this]
  show "same_kontracts (id s) (id (snd (executive_apply_extrinsic (kontract_frame R withdraw) x s)))"
    by (simp add: kontract_frame_def)
next
  fix x :: "('o, 'id, 'acc, 'bal) chain_extrinsic list" and s :: "('id, 'acc, 'bal) pallet_state"
    and origin c
  assume "chain_dispatch x = Kontract_call origin c"
  then have x: "x = [To_kontracts origin c]" by (simp add: chain_dispatch_call)
  let ?s' = "apply_chain R withdraw x s"
  consider "?s' = s" | (ran) b res where "bounded_call (config R) c"
    "run_call R origin c (s\<lparr>balances := b\<rparr>) = Some res" "?s' = committed res (s\<lparr>balances := b\<rparr>)"
    using apply_chain_call [of R withdraw origin c s] unfolding x by blast
  then show "same_kontracts (id s) (id (snd (executive_apply_extrinsic (kontract_frame R withdraw) x s))) \<or>
      (bounded_call (config R) c \<and> (\<exists>t res. same_kontracts (id s) t \<and> run_call R origin c t = Some res \<and>
         same_kontracts (committed res t) (id (snd (executive_apply_extrinsic (kontract_frame R withdraw) x s)))))"
  proof cases
    case (ran b res)
    then show ?thesis
      by (intro disjI2 conjI exI [of _ "s\<lparr>balances := b\<rparr>"] exI [of _ res])
        (simp_all add: kontract_frame_def same_kontracts_def)
  qed (simp add: kontract_frame_def same_kontracts_def)
qed (simp_all add: kontract_frame_def same_kontracts_def)

text \<open>
  C16. The runtime protects the pallet: whatever runtime APIs a node calls, building blocks, importing
  them, validating transactions, in any order, on a state whose pallet is reachable, as long as no
  extrinsic that is applied calls another pallet as root, the pallet's state is reachable again, so
  that every invariant of the pallet's chains holds on the node; and while no extrinsic acts for root
  at all, every stored code stays, or is replaced by one with the same hash.
\<close>

theorem runtime_apis_keep_pallet:
  assumes "frame_executive F R pallet dispatches block_header block_extrinsics"
    and "run_apis F as s = Some s'" and "reachable R (pallet s)"
    and "\<forall>a \<in> set as. \<forall>x \<in> set (applied block_extrinsics a). dispatches x \<noteq> Root_elsewhere"
  shows "reachable R (pallet s') \<and>
    ((\<forall>a \<in> set as. \<forall>x \<in> set (applied block_extrinsics a). unprivileged R dispatches x) \<longrightarrow>
       (\<forall>i code. codes (pallet s) i = Some code \<longrightarrow>
          (\<exists>code'. codes (pallet s') i = Some code' \<and> code_hash R code' = code_hash R code)))"
  using frame_executive.apis_keep [OF assms] by (simp add: keeps_def codes_kept_def)

text \<open>A user uploads and runs a kontract in one block, and others pay each other in the next.\<close>

definition demo_frame ::
  "((nat option, bytes, nat, nat ledger) chain_extrinsic list, (bytes, nat, nat ledger) pallet_state) frame"
  where
  "demo_frame = kontract_frame (demo_runtime [5, 6] [CallSet 0 1 1 1]) (\<lambda>_. Some)"

theorem runtime_apis_keep_pallet_witness:
  "\<exists>s. run_apis demo_frame
      [Core_execute_block [To_kontracts (Some 1) (UploadCode [7]),
         To_kontracts (Some 1) (ExecuteCode [7] 10 5 0 1)], AuraApi_slot_duration,
       BlockBuilder_apply_extrinsic [To_balances (\<lambda>b. b(2 := (1, 0)))], BlockBuilder_finalize_block]
      (genesis (\<lambda>a. if a = 1 then (47, 0) else (0, 0))) = Some s \<and>
     storages s [7] = Some [([5], [6])] \<and>
     reachable (demo_runtime [5, 6] [CallSet 0 1 1 1]) s"
    (is "\<exists>s. ?run = Some s \<and> _")
proof -
  have "case ?run of None \<Rightarrow> False | Some s \<Rightarrow> storages s [7] = Some [([5], [6])]"
    by code_simp
  then obtain s where s: "?run = Some s" "storages s [7] = Some [([5], [6])]"
    by (auto split: option.splits)
  from runtime_apis_keep_pallet [OF chain.frame_executive_axioms s(1) [unfolded demo_frame_def]] s
  show ?thesis by (simp add: reachable_genesis applied_def chain_dispatch_def)
qed

section \<open>Fees\<close>

text \<open>
  What FRAME documents of the fee of an extrinsic: the fee of the base weight, that of its length,
  that of its weight (which the block limits bound) times the multiplier, and the tip, added with
  saturation in the \<open>u128\<close> of a balance. The three functions are those the runtime configures.
\<close>

type_synonym balance = "128 word"

locale fee_schedule =
  fixes compute_fee :: "u64 \<Rightarrow> u32 \<Rightarrow> balance \<Rightarrow> balance"
    and to_fee :: "u64 \<Rightarrow> nat" and len_fee :: "u64 \<Rightarrow> nat" and multiplier :: nat
    and base max_weight :: u64
  assumes fee: "w \<le> max_weight \<Longrightarrow>
    unat (compute_fee w len tip) = min (2 ^ 128 - 1)
      (to_fee base + len_fee (ucast len) + multiplier * to_fee w + unat tip)"

definition documented_fee :: "u64 \<Rightarrow> u64 \<Rightarrow> u32 \<Rightarrow> balance \<Rightarrow> balance" where
  "documented_fee base w len tip = word_of_nat (min (2 ^ 128 - 1)
     (weight_to_fee base + length_to_fee (ucast len) + fee_multiplier * weight_to_fee w + unat tip))"

interpretation runtime_fees: fee_schedule "documented_fee base" weight_to_fee length_to_fee
    fee_multiplier base max_weight for base max_weight
proof
  fix w :: u64 and len :: u32 and tip :: balance
  have "unat (word_of_nat (min (2 ^ 128 - 1) n) :: balance) = min (2 ^ 128 - 1) n" for n
    by (simp add: unat_of_nat min_def)
  then show "unat (documented_fee base w len tip) = min (2 ^ 128 - 1)
      (weight_to_fee base + length_to_fee (ucast len) + fee_multiplier * weight_to_fee w + unat tip)"
    by (simp only: documented_fee_def)
qed

text \<open>
  C33. What a call costs under the runtime's configuration, to the unit: one unit for a unit of weight
  and for a byte of the extrinsic. Uploading and updating cost 155 a byte of code, an execution 100 a
  unit of fuel, 25 million a declared read and 100 million a declared write, whatever the kontract then
  does and whatever change of size is declared, and deleting the base and length fee, not nothing;
  without the tip it is below \<open>2^66\<close>, so with a tip below \<open>2^127\<close> the \<open>u128\<close> of a balance never
  saturates.
\<close>

theorem kontract_fees:
  assumes "fee_schedule compute_fee weight_to_fee length_to_fee fee_multiplier base max_weight"
    and "bounded_call (config R) c" and "call_weight R c \<le> max_weight"
    and "unat (db_writes R 1) = 100000000"
    and "\<forall>r w. unat (db_reads_writes R (ucast (r :: u32)) (ucast (w :: u32))) =
      25000000 * unat r + 100000000 * unat w"
    and "unat tip < 2 ^ 127"
  shows "unat (compute_fee (call_weight R c) len tip) = unat base + unat len + unat tip +
      (case c of
         UploadCode code \<Rightarrow> 100010000 + 155 * length code
       | UpdateCode i code \<Rightarrow> 100010000 + 155 * length code
       | ExecuteCode i x f r w \<Rightarrow> 10000 + 25000000 * unat r + 100000000 * unat w + 100 * unat f
       | DeleteCode i \<Rightarrow> 0) \<and>
    unat (compute_fee (call_weight R c) len tip) < 2 ^ 66 + unat tip"
proof -
  have total: "unat base + unat len + unat (call_weight R c) < 2 ^ 66"
  proof -
    have "(2 :: nat) ^ 66 = 73786976294838206464" by simp
    then show ?thesis
      using unat_u64_less [of base] unat_u32_less [of len] unat_u64_less [of "call_weight R c"]
      by linarith
  qed
  with assms(6) have "unat base + unat len + unat (call_weight R c) + unat tip \<le> 2 ^ 128 - 1"
    by simp
  then have fee: "unat (compute_fee (call_weight R c) len tip) =
      unat base + unat len + unat tip + unat (call_weight R c)"
    using fee_schedule.fee [OF assms(1,3)]
    by (simp add: weight_to_fee_def length_to_fee_def fee_multiplier_def unat_ucast_u64 min_def)
  with total rocksdb_weight [OF assms(2,4,5)] show ?thesis by simp
qed

theorem kontract_fees_witness:
  "unat (documented_fee 86298000 (call_weight (ledger_runtime kontracts_config (\<lambda>_ _ _ _ _. None))
      (ExecuteCode [] 0 1000 2 1)) 140 7) = 86298000 + 140 + 7 + 150110000"
proof -
  let ?R = "ledger_runtime kontracts_config (\<lambda>_ _ _ _ _. None)"
  let ?c = "ExecuteCode [] 0 1000 2 1 :: bytes call"
  from kontract_fees [OF runtime_fees.fee_schedule_axioms, of ?R ?c "- 1" 7 86298000 140] ledger_weights
  show ?thesis by simp
qed

end
