(* ===== verification/Chain_Spec.thy ===== *)
theory Chain_Spec
  imports Runtime_Blocks
begin

text \<open>
  The chain specifications of \<open>node/src/chain_spec.rs\<close>. Key derivation (\<open>Pair::from_string\<close> of the
  three key types and \<open>into_account\<close>) is the record \<open>keyring\<close>; an \<open>expect\<close> on a seed that derives no
  key is a panic. The genesis of a specification is a closure in the source, so it is kept beside the
  specification as the outcome that calling it has.
\<close>

section \<open>Keys from seeds\<close>

record ('acc, 'aura, 'grandpa) keyring =
  account_key :: "string \<Rightarrow> 'acc option"
  aura_key :: "string \<Rightarrow> 'aura option"
  grandpa_key :: "string \<Rightarrow> 'grandpa option"

definition get_from_seed :: "(string \<Rightarrow> 'k option) \<Rightarrow> string \<Rightarrow> ('k, string) outcome" where
  "get_from_seed from_string seed =
     (case from_string (''//'' @ seed) of Some key \<Rightarrow> Ok key | None \<Rightarrow> Panic)"

definition get_account_id_from_seed ::
  "('acc, 'aura, 'grandpa) keyring \<Rightarrow> string \<Rightarrow> ('acc, string) outcome" where
  "get_account_id_from_seed K seed = get_from_seed (account_key K) seed"

definition authority_keys_from_seed ::
  "('acc, 'aura, 'grandpa) keyring \<Rightarrow> string \<Rightarrow> ('aura \<times> 'grandpa, string) outcome" where
  "authority_keys_from_seed K s =
     bind_outcome (get_from_seed (aura_key K) s) (\<lambda>a.
     bind_outcome (get_from_seed (grandpa_key K) s) (\<lambda>g. Ok (a, g)))"

text \<open>The elements of a \<open>vec!\<close> are evaluated from left to right.\<close>

fun collect :: "('a, 'e) outcome list \<Rightarrow> ('a list, 'e) outcome" where
  "collect [] = Ok []"
| "collect (x # xs) = bind_outcome x (\<lambda>a. bind_outcome (collect xs) (\<lambda>as. Ok (a # as)))"

section \<open>Genesis\<close>

record ('acc, 'aura, 'grandpa) genesis_config =
  system_code :: bytes
  genesis_balances :: "('acc \<times> nat) list"
  aura_authorities :: "'aura list"
  grandpa_authorities :: "('grandpa \<times> u64) list"
  sudo_key :: "'acc option"

definition testnet_genesis ::
  "bytes \<Rightarrow> ('aura \<times> 'grandpa) list \<Rightarrow> 'acc \<Rightarrow> 'acc list \<Rightarrow> bool \<Rightarrow>
   ('acc, 'aura, 'grandpa) genesis_config" where
  "testnet_genesis wasm_binary initial_authorities root_key endowed_accounts enable_println =
     \<lparr>system_code = wasm_binary,
      genesis_balances = map (\<lambda>k. (k, push_bit 60 1)) endowed_accounts,
      aura_authorities = map fst initial_authorities,
      grandpa_authorities = map (\<lambda>x. (snd x, 1)) initial_authorities,
      sudo_key = Some root_key\<rparr>"

datatype chain_type = Development | Local

record ('acc, 'aura, 'grandpa) chain_spec =
  chain_name :: string
  chain_id :: string
  chain_type :: chain_type
  genesis_builder :: "(('acc, 'aura, 'grandpa) genesis_config, string) outcome"
  boot_nodes :: "string list"

definition development_config ::
  "bytes option \<Rightarrow> ('acc, 'aura, 'grandpa) keyring \<Rightarrow>
   (('acc, 'aura, 'grandpa) chain_spec, string) outcome" where
  "development_config WASM_BINARY K =
     bind_outcome (ok_or WASM_BINARY ''Development wasm not available'') (\<lambda>wasm_binary.
       Ok \<lparr>chain_name = ''Development'', chain_id = ''dev'', chain_type = Development,
         genesis_builder =
           bind_outcome (collect (map (authority_keys_from_seed K) [''Alice''])) (\<lambda>authorities.
           bind_outcome (get_account_id_from_seed K ''Alice'') (\<lambda>root.
           bind_outcome (collect (map (get_account_id_from_seed K)
             [''Alice'', ''Bob'', ''Alice//stash'', ''Bob//stash''])) (\<lambda>endowed.
           Ok (testnet_genesis wasm_binary authorities root endowed True)))),
         boot_nodes = []\<rparr>)"

definition local_testnet_config ::
  "bytes option \<Rightarrow> ('acc, 'aura, 'grandpa) keyring \<Rightarrow>
   (('acc, 'aura, 'grandpa) chain_spec, string) outcome" where
  "local_testnet_config WASM_BINARY K =
     bind_outcome (ok_or WASM_BINARY ''Development wasm not available'') (\<lambda>wasm_binary.
       Ok \<lparr>chain_name = ''Local Testnet'', chain_id = ''local_testnet'', chain_type = Local,
         genesis_builder =
           bind_outcome (collect (map (authority_keys_from_seed K) [''Alice'', ''Bob''])) (\<lambda>authorities.
           bind_outcome (get_account_id_from_seed K ''Alice'') (\<lambda>root.
           bind_outcome (collect (map (get_account_id_from_seed K)
             [''Alice'', ''Bob'', ''Charlie'', ''Dave'', ''Eve'', ''Ferdie'', ''Alice//stash'',
              ''Bob//stash'', ''Charlie//stash'', ''Dave//stash'', ''Eve//stash'', ''Ferdie//stash'']))
             (\<lambda>endowed.
           Ok (testnet_genesis wasm_binary authorities root endowed True)))),
         boot_nodes = []\<rparr>)"

text \<open>
  \<open>Cli::load_spec\<close> of \<open>command.rs\<close>: the specification a chain id names; \<open>from_json_file\<close> reads one from
  a file.
\<close>

definition load_spec ::
  "bytes option \<Rightarrow> ('acc, 'aura, 'grandpa) keyring \<Rightarrow>
   (string \<Rightarrow> (('acc, 'aura, 'grandpa) chain_spec, string) outcome) \<Rightarrow> string \<Rightarrow>
   (('acc, 'aura, 'grandpa) chain_spec, string) outcome" where
  "load_spec WASM_BINARY K from_json_file name =
     (if name = ''dev'' then development_config WASM_BINARY K
      else if name = '''' \<or> name = ''local'' then local_testnet_config WASM_BINARY K
      else from_json_file name)"

section \<open>What a genesis promises\<close>

lemma collect_Ok: "collect xs = Ok ys \<longleftrightarrow> xs = map Ok ys"
  by (induction xs arbitrary: ys) (auto simp: bind_outcome_eq_Ok Cons_eq_map_conv)

lemma get_account_Ok:
  "get_account_id_from_seed K seed = Ok a \<longleftrightarrow> account_key K (''//'' @ seed) = Some a"
  by (auto simp: get_account_id_from_seed_def get_from_seed_def split: option.splits)

text \<open>
  The genesis the rest of the node relies on: root is endowed, every account is endowed once and
  above the existential deposit, the total issuance fits \<open>u128\<close>, the authorities fit the bounded
  vectors of Aura and GRANDPA and vote with the same weight.
\<close>

definition genesis_ok :: "('acc, 'aura, 'grandpa) genesis_config \<Rightarrow> bool" where
  "genesis_ok g \<longleftrightarrow> distinct (map fst (genesis_balances g)) \<and>
     (\<forall>e \<in> set (genesis_balances g). existential_deposit \<le> snd e) \<and>
     sum_list (map snd (genesis_balances g)) < 2 ^ 128 \<and>
     (case sudo_key g of None \<Rightarrow> False | Some root \<Rightarrow> root \<in> fst ` set (genesis_balances g)) \<and>
     aura_authorities g \<noteq> [] \<and> length (aura_authorities g) \<le> unat max_authorities \<and>
     length (grandpa_authorities g) = length (aura_authorities g) \<and>
     (\<forall>e \<in> set (grandpa_authorities g). snd e = 1)"

lemma testnet_genesis_ok:
  assumes "distinct endowed" and "root \<in> set endowed" and "length endowed < 1000"
    and "authorities \<noteq> []" and "length authorities \<le> 32"
  shows "genesis_ok (testnet_genesis wasm authorities root endowed p)"
  using assms
  by (auto simp: genesis_ok_def testnet_genesis_def existential_deposit_def max_authorities_def
      push_bit_eq_mult comp_def sum_list_triv image_image)

text \<open>
  What is documented of the well-known development accounts: each of their paths derives a key, and
  the account keys of different names are different. (Nothing is said of other strings: the same
  account has other spellings.)
\<close>

definition well_known :: "string list" where
  "well_known = [''Alice'', ''Bob'', ''Charlie'', ''Dave'', ''Eve'', ''Ferdie'', ''Alice//stash'',
     ''Bob//stash'', ''Charlie//stash'', ''Dave//stash'', ''Eve//stash'', ''Ferdie//stash'']"

definition development_keys :: "('acc, 'aura, 'grandpa) keyring \<Rightarrow> bool" where
  "development_keys K \<longleftrightarrow>
     (\<forall>seed \<in> set well_known. account_key K (''//'' @ seed) \<noteq> None) \<and>
     distinct (map (\<lambda>seed. account_key K (''//'' @ seed)) well_known) \<and>
     (\<forall>seed \<in> set [''Alice'', ''Bob'']. aura_key K (''//'' @ seed) \<noteq> None \<and> grandpa_key K (''//'' @ seed) \<noteq> None)"

lemma collect_map_Ok: "\<forall>x \<in> set xs. f x = Ok (g x) \<Longrightarrow> collect (map f xs) = Ok (map g xs)"
  by (induction xs) auto

lemma genesis_built:
  assumes keys: "development_keys K" and as: "set as \<subseteq> {''Alice'', ''Bob''}" "as \<noteq> []" "length as \<le> 32"
    and seeds: "set seeds \<subseteq> set well_known" "distinct seeds" "length seeds < 1000" "''Alice'' \<in> set seeds"
  shows "\<exists>g. bind_outcome (collect (map (authority_keys_from_seed K) as)) (\<lambda>authorities.
      bind_outcome (get_account_id_from_seed K ''Alice'') (\<lambda>root.
      bind_outcome (collect (map (get_account_id_from_seed K) seeds)) (\<lambda>endowed.
        Ok (testnet_genesis wasm authorities root endowed p)))) = Ok g \<and>
    genesis_ok g \<and> system_code g = wasm \<and> sudo_key g = account_key K (''//'' @ ''Alice'') \<and>
    map Some (aura_authorities g) = map (\<lambda>s. aura_key K (''//'' @ s)) as \<and>
    map (Some \<circ> fst) (grandpa_authorities g) = map (\<lambda>s. grandpa_key K (''//'' @ s)) as"
proof -
  let ?acc = "\<lambda>s. the (account_key K (''//'' @ s))" and ?aura = "\<lambda>s. the (aura_key K (''//'' @ s))"
    and ?grandpa = "\<lambda>s. the (grandpa_key K (''//'' @ s))"
  have acc: "account_key K (''//'' @ s) = Some (?acc s)" if "s \<in> set well_known" for s
    using keys that by (auto simp: development_keys_def)
  have auth: "aura_key K (''//'' @ s) = Some (?aura s) \<and> grandpa_key K (''//'' @ s) = Some (?grandpa s)"
    if "s \<in> set as" for s
    using keys as(1) that unfolding development_keys_def by auto
  have inj: "inj_on (\<lambda>s. account_key K (''//'' @ s)) (set well_known)"
    using keys by (simp add: development_keys_def distinct_map)
  have "inj_on ?acc (set seeds)"
  proof (rule inj_onI)
    fix s t
    assume st: "s \<in> set seeds" "t \<in> set seeds" and same: "?acc s = ?acc t"
    with seeds(1) have wk: "s \<in> set well_known" "t \<in> set well_known" by auto
    with acc [OF wk(1)] acc [OF wk(2)] same have "account_key K (''//'' @ s) = account_key K (''//'' @ t)" by simp
    with inj wk show "s = t" by (auto dest: inj_onD)
  qed
  with seeds(2) have dist: "distinct (map ?acc seeds)" by (simp add: distinct_map)
  have alice: "''Alice'' \<in> set well_known" by (simp add: well_known_def)
  let ?g = "testnet_genesis wasm (map (\<lambda>s. (?aura s, ?grandpa s)) as) (?acc ''Alice'') (map ?acc seeds) p"
  have "collect (map (authority_keys_from_seed K) as) = Ok (map (\<lambda>s. (?aura s, ?grandpa s)) as)"
  proof (intro collect_map_Ok ballI)
    fix s assume "s \<in> set as"
    from auth [OF this] obtain a g where
      "aura_key K (''//'' @ s) = Some a" "grandpa_key K (''//'' @ s) = Some g" by blast
    then show "authority_keys_from_seed K s = Ok (?aura s, ?grandpa s)"
      by (simp add: authority_keys_from_seed_def get_from_seed_def)
  qed
  moreover have "collect (map (get_account_id_from_seed K) seeds) = Ok (map ?acc seeds)"
    using acc seeds(1) by (intro collect_map_Ok ballI) (simp only: get_account_Ok, blast)
  moreover have "get_account_id_from_seed K ''Alice'' = Ok (?acc ''Alice'')"
    using acc [OF alice] by (simp only: get_account_Ok)
  moreover have "genesis_ok ?g"
    using dist seeds as by (intro testnet_genesis_ok) auto
  moreover have "map Some (map ?aura as) = map (\<lambda>s. aura_key K (''//'' @ s)) as"
    "map Some (map ?grandpa as) = map (\<lambda>s. grandpa_key K (''//'' @ s)) as"
    unfolding map_map comp_def using auth by (auto simp only: map_eq_conv)
  ultimately show ?thesis
    using acc [OF alice]
    by (intro exI [of _ ?g]) (simp add: testnet_genesis_def comp_def)
qed

text \<open>
  C35. The two chains start well: with the well-known development keys, the chain ids \<open>dev\<close>, \<open>local\<close> and the
  empty one name a specification whose genesis is built, from the given binary; Alice is root and
  endowed, pairwise different accounts are endowed above the existential deposit with a total below
  \<open>2^128\<close>, and the authorities, Alice for \<open>dev\<close> and Alice and Bob otherwise, are within the
  bounds of the pallets and of equal weight. Without a binary there is no specification.
\<close>

theorem chain_specs_start_well:
  assumes "development_keys K" and "name \<in> {''dev'', '''', ''local''}"
  shows "load_spec None K from_json_file name = Err ''Development wasm not available'' \<and>
    (\<exists>spec g. load_spec (Some wasm) K from_json_file name = Ok spec \<and>
      genesis_builder spec = Ok g \<and> genesis_ok g \<and> system_code g = wasm \<and>
      sudo_key g = account_key K ''//Alice'' \<and>
      map Some (aura_authorities g) =
        map (aura_key K) (if name = ''dev'' then [''//Alice''] else [''//Alice'', ''//Bob'']) \<and>
      map (Some \<circ> fst) (grandpa_authorities g) =
        map (grandpa_key K) (if name = ''dev'' then [''//Alice''] else [''//Alice'', ''//Bob'']))"
proof (cases "name = ''dev''")
  case True
  let ?seeds = "[''Alice'', ''Bob'', ''Alice//stash'', ''Bob//stash'']"
  have "set [''Alice''] \<subseteq> {''Alice'', ''Bob''}" "[''Alice''] \<noteq> []" "length [''Alice''] \<le> 32"
    "set ?seeds \<subseteq> set well_known" "distinct ?seeds" "length ?seeds < 1000" "''Alice'' \<in> set ?seeds"
    by (simp_all add: well_known_def)
  from genesis_built [OF assms(1) this, of wasm True] obtain g where
    g: "bind_outcome (collect (map (authority_keys_from_seed K) [''Alice''])) (\<lambda>authorities.
      bind_outcome (get_account_id_from_seed K ''Alice'') (\<lambda>root.
      bind_outcome (collect (map (get_account_id_from_seed K) ?seeds)) (\<lambda>endowed.
        Ok (testnet_genesis wasm authorities root endowed True)))) = Ok g"
    and ok: "genesis_ok g" "system_code g = wasm" "sudo_key g = account_key K (''//'' @ ''Alice'')"
      "map Some (aura_authorities g) = map (\<lambda>s. aura_key K (''//'' @ s)) [''Alice'']"
      "map (Some \<circ> fst) (grandpa_authorities g) = map (\<lambda>s. grandpa_key K (''//'' @ s)) [''Alice'']"
    by blast
  have "\<exists>spec. load_spec (Some wasm) K from_json_file name = Ok spec \<and> genesis_builder spec = Ok g"
    unfolding load_spec_def if_P [OF True] development_config_def ok_or_simps bind_outcome.simps g
    by simp
  moreover have "load_spec None K from_json_file name = Err ''Development wasm not available''"
    using True by (simp add: load_spec_def development_config_def)
  ultimately show ?thesis using ok True by auto
next
  case False
  have "set [''Alice'', ''Bob''] \<subseteq> {''Alice'', ''Bob''}" "[''Alice'', ''Bob''] \<noteq> []"
    "length [''Alice'', ''Bob''] \<le> 32" "set well_known \<subseteq> set well_known" "distinct well_known"
    "length well_known < 1000" "''Alice'' \<in> set well_known"
    by (simp_all add: well_known_def)
  from genesis_built [OF assms(1) this, of wasm True] obtain g where
    g: "bind_outcome (collect (map (authority_keys_from_seed K) [''Alice'', ''Bob''])) (\<lambda>authorities.
      bind_outcome (get_account_id_from_seed K ''Alice'') (\<lambda>root.
      bind_outcome (collect (map (get_account_id_from_seed K) well_known)) (\<lambda>endowed.
        Ok (testnet_genesis wasm authorities root endowed True)))) = Ok g"
    and ok: "genesis_ok g" "system_code g = wasm" "sudo_key g = account_key K (''//'' @ ''Alice'')"
      "map Some (aura_authorities g) = map (\<lambda>s. aura_key K (''//'' @ s)) [''Alice'', ''Bob'']"
      "map (Some \<circ> fst) (grandpa_authorities g) = map (\<lambda>s. grandpa_key K (''//'' @ s)) [''Alice'', ''Bob'']"
    by blast
  have name: "load_spec W K from_json_file name = local_testnet_config W K" for W
    using False assms(2) by (auto simp: load_spec_def)
  have "\<exists>spec. load_spec (Some wasm) K from_json_file name = Ok spec \<and> genesis_builder spec = Ok g"
    unfolding name local_testnet_config_def ok_or_simps bind_outcome.simps g [unfolded well_known_def]
    by simp
  moreover have "load_spec None K from_json_file name = Err ''Development wasm not available''"
    unfolding name by (simp add: local_testnet_config_def)
  ultimately show ?thesis using ok False by auto
qed

text \<open>A keyring in which every path is its own key.\<close>

definition path_keyring :: "(string, string, string) keyring" where
  "path_keyring = \<lparr>account_key = Some, aura_key = Some, grandpa_key = Some\<rparr>"

theorem chain_specs_start_well_witness:
  "\<exists>spec g. load_spec (Some [1]) path_keyring (\<lambda>_. Panic) ''local'' = Ok spec \<and> genesis_builder spec = Ok g \<and>
     genesis_ok g \<and> sudo_key g = Some ''//Alice''"
proof -
  have "development_keys path_keyring" by code_simp
  from chain_specs_start_well [OF this, of "''local''" "\<lambda>_. Panic" "[1]"] show ?thesis
    by (auto simp: path_keyring_def)
qed

end
