(* ===== verification/Node_Service.thy ===== *)
theory Node_Service
  imports Chain_Spec
begin

text \<open>
  How \<open>node/src/service.rs\<close> puts a node together. The Substrate services are external, so a service is
  built by a list of steps whose order and conditions are the code's; a step that ends in \<open>?\<close> can
  fail and stops the list, a step with \<open>expect\<close> panics instead. What each step does inside Substrate
  is the argument \<open>ok\<close>, which says whether it succeeds; the two times the slot duration is read are two
  steps. The property says when a node is built, by which steps in which order, and how it fails.
\<close>

section \<open>Configuration and steps\<close>

record configuration =
  keystore_remote :: "string option"
  telemetry_endpoints :: "string list option"
  is_authority :: bool
  force_authoring :: bool
  disable_grandpa :: bool
  offchain_worker :: bool

datatype service_step =
    NewTelemetryWorker
  | NewExecutor
  | NewFullParts
  | SpawnTelemetryWorker
  | NewLongestChain
  | NewTransactionPool bool
  | GrandpaBlockImport
  | SlotDuration
  | ImportQueue
  | GenesisHash
  | GrandpaPeersSet
  | NewWarpSync
  | BuildNetwork
  | BuildOffchainWorkers
  | NewRpcBuilder
  | SpawnTasks
  | NewProposerFactory
  | AuthorSlotDuration
  | StartAura bool
  | SpawnAuthoring
  | RunGrandpaVoter bool
  | SpawnVoter
  | StartNetwork

datatype service_error = OtherError string | StepFailed service_step

fun fallible :: "service_step \<Rightarrow> bool" where
  "fallible NewTelemetryWorker = True"
| "fallible NewFullParts = True"
| "fallible GrandpaBlockImport = True"
| "fallible SlotDuration = True"
| "fallible ImportQueue = True"
| "fallible GenesisHash = True"
| "fallible BuildNetwork = True"
| "fallible SpawnTasks = True"
| "fallible AuthorSlotDuration = True"
| "fallible (StartAura f) = True"
| "fallible (RunGrandpaVoter k) = True"
| "fallible s = False"

text \<open>Run steps in order, recording those done; the first one that fails ends the construction.\<close>

fun run_steps ::
  "(service_step \<Rightarrow> bool) \<Rightarrow> service_step list \<Rightarrow> service_step list \<Rightarrow>
   (unit, service_error) outcome \<times> service_step list" where
  "run_steps ok [] done = (Ok (), done)"
| "run_steps ok (s # ss) done =
     (if fallible s \<and> \<not> ok s then (if s = GenesisHash then Panic else Err (StepFailed s), done)
      else run_steps ok ss (done @ [s]))"

section \<open>new_partial and new_full\<close>

definition has_telemetry :: "configuration \<Rightarrow> bool" where
  "has_telemetry cfg =
     (case telemetry_endpoints cfg of None \<Rightarrow> False | Some endpoints \<Rightarrow> endpoints \<noteq> [])"

definition partial_steps :: "configuration \<Rightarrow> service_step list" where
  "partial_steps cfg =
     (if has_telemetry cfg then [NewTelemetryWorker] else []) @
     [NewExecutor, NewFullParts] @
     (if has_telemetry cfg then [SpawnTelemetryWorker] else []) @
     [NewLongestChain, NewTransactionPool (is_authority cfg), GrandpaBlockImport, SlotDuration,
      ImportQueue]"

definition new_partial ::
  "(service_step \<Rightarrow> bool) \<Rightarrow> configuration \<Rightarrow> service_step list \<Rightarrow>
   (unit, service_error) outcome \<times> service_step list" where
  "new_partial ok cfg done =
     (if keystore_remote cfg \<noteq> None then (Err (OtherError ''Remote Keystores are not supported.''), done)
      else run_steps ok (partial_steps cfg) done)"

definition remote_keystore :: "string \<Rightarrow> (unit, string) outcome" where
  "remote_keystore url = Err ''Remote Keystore not supported.''"

definition hook_keystore ::
  "configuration \<Rightarrow> service_step list \<Rightarrow> (unit, service_error) outcome \<times> service_step list" where
  "hook_keystore cfg done =
     (case keystore_remote cfg of
        None \<Rightarrow> (Ok (), done)
      | Some url \<Rightarrow>
          (map_err (\<lambda>e. OtherError
             (''Error hooking up remote keystore for '' @ url @ '': '' @ e)) (remote_keystore url), done))"

definition full_steps :: "configuration \<Rightarrow> service_step list" where
  "full_steps cfg =
     [GenesisHash, GrandpaPeersSet, NewWarpSync, BuildNetwork] @
     (if offchain_worker cfg then [BuildOffchainWorkers] else []) @
     [NewRpcBuilder, SpawnTasks] @
     (if is_authority cfg
      then [NewProposerFactory, AuthorSlotDuration, StartAura (force_authoring cfg), SpawnAuthoring] else []) @
     (if \<not> disable_grandpa cfg then [RunGrandpaVoter (is_authority cfg), SpawnVoter] else []) @
     [StartNetwork]"

definition new_full ::
  "(service_step \<Rightarrow> bool) \<Rightarrow> configuration \<Rightarrow> service_step list \<Rightarrow>
   (unit, service_error) outcome \<times> service_step list" where
  "new_full ok cfg =
     and_then (new_partial ok cfg) (\<lambda>_.
     and_then (hook_keystore cfg) (\<lambda>_.
     run_steps ok (full_steps cfg)))"

section \<open>Consensus parameters\<close>

text \<open>
  The inherent data of a block, for the import queue as for authoring: the slot of the timestamp and
  the timestamp. \<open>from_timestamp_and_slot_duration\<close> is Substrate's, slots and times are in \<open>u64\<close>.
\<close>

definition create_inherent_data_providers ::
  "(u64 \<Rightarrow> u64 \<Rightarrow> u64) \<Rightarrow> u64 \<Rightarrow> u64 \<Rightarrow> u64 \<times> u64" where
  "create_inherent_data_providers from_timestamp_and_slot_duration slot timestamp =
     (from_timestamp_and_slot_duration timestamp slot, timestamp)"

text \<open>The portion of a slot a proposer may use is the fraction 2/3.\<close>

record aura_params =
  aura_slot_duration :: u64
  aura_force_authoring :: bool
  backoff_authoring_blocks :: "unit option"
  block_proposal_slot_portion :: "nat \<times> nat"
  max_block_proposal_slot_portion :: "(nat \<times> nat) option"

definition start_aura_params :: "u64 \<Rightarrow> configuration \<Rightarrow> aura_params" where
  "start_aura_params slot cfg =
     \<lparr>aura_slot_duration = slot, aura_force_authoring = force_authoring cfg,
      backoff_authoring_blocks = None, block_proposal_slot_portion = (2, 3),
      max_block_proposal_slot_portion = None\<rparr>"

record grandpa_params =
  gossip_duration :: nat
  justification_period :: u32
  observer_enabled :: bool
  voter_keystore :: bool

definition grandpa_voter_params :: "configuration \<Rightarrow> grandpa_params" where
  "grandpa_voter_params cfg =
     \<lparr>gossip_duration = 333, justification_period = 512, observer_enabled = False,
      voter_keystore = is_authority cfg\<rparr>"

text \<open>
  Node and runtime agree on time: with the slot duration that pallet Aura derives from the configured
  \<open>MinimumPeriod\<close> (its double, so that the halving in the configuration must lose nothing), blocks
  whose timestamps are a slot of 6 seconds apart get different slot numbers, in order.
\<close>

lemma slots_ordered:
  assumes "pallet_slot = 2 * minimum_period" and "\<forall>t d. to_slot t d = t div d"
    and "unat t + 6000 \<le> unat u"
  shows "fst (create_inherent_data_providers to_slot (aura_api_slot_duration pallet_slot) t) <
    fst (create_inherent_data_providers to_slot (aura_api_slot_duration pallet_slot) u)"
proof -
  have slot: "unat (aura_api_slot_duration pallet_slot) = 6000"
    unfolding aura_api_slot_duration_def assms(1) by code_simp
  have "unat t div 6000 + 1 \<le> unat u div 6000"
    using div_le_mono [OF assms(3), of 6000] by simp
  then show ?thesis
    by (simp add: create_inherent_data_providers_def assms(2) word_less_nat_alt unat_div slot)
qed

section \<open>Tasks\<close>

text \<open>A task of the task manager; when an essential one ends, the node shuts down.\<close>

record task =
  task_name :: string
  task_group :: "string option"
  essential :: bool

fun spawns :: "service_step \<Rightarrow> task list" where
  "spawns SpawnTelemetryWorker =
     [\<lparr>task_name = ''telemetry'', task_group = None, essential = False\<rparr>]"
| "spawns SpawnAuthoring =
     [\<lparr>task_name = ''aura'', task_group = Some ''block-authoring'', essential = True\<rparr>]"
| "spawns SpawnVoter =
     [\<lparr>task_name = ''grandpa-voter'', task_group = None, essential = True\<rparr>]"
| "spawns s = []"

section \<open>What a node has to be\<close>

text \<open>
  The contract of \<open>new_full\<close>, step by step instead of as a list: which configuration wants a step, and
  which steps have to be over before it. The peers set of GRANDPA is pushed into the configuration the
  network is built from, the workers, the tasks, authoring and voting run over the built network,
  a task is spawned after it was made, and the network is started when everything else is done.
\<close>

fun wanted :: "configuration \<Rightarrow> service_step \<Rightarrow> bool" where
  "wanted cfg NewTelemetryWorker = has_telemetry cfg"
| "wanted cfg SpawnTelemetryWorker = has_telemetry cfg"
| "wanted cfg (NewTransactionPool authority) = (authority = is_authority cfg)"
| "wanted cfg BuildOffchainWorkers = offchain_worker cfg"
| "wanted cfg NewProposerFactory = is_authority cfg"
| "wanted cfg AuthorSlotDuration = is_authority cfg"
| "wanted cfg (StartAura force) = (is_authority cfg \<and> force = force_authoring cfg)"
| "wanted cfg SpawnAuthoring = is_authority cfg"
| "wanted cfg (RunGrandpaVoter keystore) = (\<not> disable_grandpa cfg \<and> keystore = is_authority cfg)"
| "wanted cfg SpawnVoter = (\<not> disable_grandpa cfg)"
| "wanted cfg s = True"

fun comes_after :: "service_step \<Rightarrow> service_step \<Rightarrow> bool" where
  "comes_after NewFullParts p = (p \<in> {NewTelemetryWorker, NewExecutor})"
| "comes_after SpawnTelemetryWorker p = (p = NewFullParts)"
| "comes_after NewLongestChain p = (p = NewFullParts)"
| "comes_after (NewTransactionPool authority) p = (p = NewFullParts)"
| "comes_after GrandpaBlockImport p = (p = NewLongestChain)"
| "comes_after ImportQueue p = (p \<in> {GrandpaBlockImport, SlotDuration})"
| "comes_after GenesisHash p = (p = NewFullParts)"
| "comes_after GrandpaPeersSet p = (p = GenesisHash)"
| "comes_after NewWarpSync p = (p = GrandpaBlockImport)"
| "comes_after BuildNetwork p =
     (p \<in> {GrandpaPeersSet, NewWarpSync, ImportQueue, NewTransactionPool True, NewTransactionPool False})"
| "comes_after BuildOffchainWorkers p = (p = BuildNetwork)"
| "comes_after SpawnTasks p = (p \<in> {BuildNetwork, NewRpcBuilder})"
| "comes_after NewProposerFactory p = (p = SpawnTasks)"
| "comes_after (StartAura force) p = (p \<in> {NewProposerFactory, AuthorSlotDuration, BuildNetwork})"
| "comes_after SpawnAuthoring p = (\<exists>force. p = StartAura force)"
| "comes_after (RunGrandpaVoter keystore) p = (p \<in> {GrandpaPeersSet, BuildNetwork, SpawnTasks})"
| "comes_after SpawnVoter p = (\<exists>keystore. p = RunGrandpaVoter keystore)"
| "comes_after StartNetwork p = (p \<noteq> StartNetwork)"
| "comes_after s p = False"

lemma run_steps_append:
  "run_steps ok (ss @ ss') done = and_then (run_steps ok ss) (\<lambda>_. run_steps ok ss') done"
  by (induction ok ss "done" rule: run_steps.induct) (simp_all add: and_then_def)

lemma run_steps_result:
  "run_steps ok ss done = (r, log) \<Longrightarrow>
   \<exists>pre post. ss = pre @ post \<and> log = done @ pre \<and> (\<forall>s \<in> set pre. fallible s \<longrightarrow> ok s) \<and>
     (case post of [] \<Rightarrow> r = Ok ()
      | s # _ \<Rightarrow> fallible s \<and> \<not> ok s \<and> r = (if s = GenesisHash then Panic else Err (StepFailed s)))"
proof (induction ok ss "done" rule: run_steps.induct)
  case (2 ok s ss "done")
  show ?case
  proof (cases "fallible s \<and> \<not> ok s")
    case True
    with 2(2) show ?thesis by (intro exI [of _ "[]"] exI [of _ "s # ss"]) auto
  next
    case False
    with 2(2) have "run_steps ok ss (done @ [s]) = (r, log)" by simp
    from 2(1) [OF False this] obtain pre post where "ss = pre @ post" "log = (done @ [s]) @ pre"
      "\<forall>s \<in> set pre. fallible s \<longrightarrow> ok s"
      "case post of [] \<Rightarrow> r = Ok ()
       | s # _ \<Rightarrow> fallible s \<and> \<not> ok s \<and> r = (if s = GenesisHash then Panic else Err (StepFailed s))"
      by blast
    with False show ?thesis by (intro exI [of _ "s # pre"] exI [of _ post]) auto
  qed
qed simp

lemma new_full_plan:
  "keystore_remote cfg = None \<Longrightarrow>
   new_full ok cfg = run_steps ok (partial_steps cfg @ full_steps cfg)"
  by (rule ext) (simp add: run_steps_append new_full_def new_partial_def hook_keystore_def and_then_def
      split: outcome.split prod.split)

lemma plan_wanted: "s \<in> set (partial_steps cfg @ full_steps cfg) \<longleftrightarrow> wanted cfg s"
  by (cases s) (auto simp: partial_steps_def full_steps_def)

lemma plan_distinct: "distinct (partial_steps cfg @ full_steps cfg)"
  by (cases "has_telemetry cfg"; cases "is_authority cfg"; cases "disable_grandpa cfg";
      cases "offchain_worker cfg")
    (simp_all add: partial_steps_def full_steps_def)

fun in_order :: "service_step list \<Rightarrow> bool" where
  "in_order [] = True"
| "in_order (s # ss) = ((\<forall>p \<in> set ss. \<not> comes_after s p) \<and> in_order ss)"

lemma in_order_split: "in_order (pre @ s # post) \<Longrightarrow> p \<in> set post \<Longrightarrow> \<not> comes_after s p"
  by (induction pre) auto

lemma plan_in_order: "in_order (partial_steps cfg @ full_steps cfg)"
  by (cases "has_telemetry cfg"; cases "is_authority cfg"; cases "disable_grandpa cfg";
      cases "offchain_worker cfg")
    (simp_all add: partial_steps_def full_steps_def)

lemma plan_tasks:
  "concat (map spawns (partial_steps cfg @ full_steps cfg)) =
    (if has_telemetry cfg
     then [\<lparr>task_name = ''telemetry'', task_group = None, essential = False\<rparr>] else []) @
    (if is_authority cfg
     then [\<lparr>task_name = ''aura'', task_group = Some ''block-authoring'', essential = True\<rparr>] else []) @
    (if disable_grandpa cfg then []
     else [\<lparr>task_name = ''grandpa-voter'', task_group = None, essential = True\<rparr>])"
  by (simp add: partial_steps_def full_steps_def)

text \<open>A step that is reached has every step before it that it has to come after.\<close>

lemma plan_before:
  assumes "partial_steps cfg @ full_steps cfg = pre @ s # post" and "comes_after s p" and "wanted cfg p"
  shows "p \<in> set pre"
proof -
  have "in_order (pre @ s # post)" using plan_in_order [of cfg] unfolding assms(1) .
  from in_order_split [OF this] assms(2) have "p \<notin> set post" by blast
  moreover have "p \<noteq> s" using assms(2) by (cases s; auto)
  moreover have "p \<in> set (pre @ s # post)"
    using plan_wanted [of p cfg] assms(3) unfolding assms(1) by blast
  ultimately show ?thesis by auto
qed

text \<open>
  C36. How a node is built. It is built exactly when no remote keystore is configured and every step the
  configuration wants succeeds; then exactly these steps were done, and the tasks
  spawned are the telemetry worker if there is telemetry, the essential task of block authoring for an
  authority, and the essential finality voter when GRANDPA is not disabled. With a remote keystore
  nothing is done; otherwise a node that is not built stops at one wanted step that fails, with that
  step's error, or a panic if there is no genesis block. However it ends, every step was
  done at most once, only wanted and successful ones were, and each, like the one it stopped
  at, after the steps it has to come after.
\<close>

theorem new_full_complete:
  assumes "new_full ok cfg [] = (r, log)"
  shows "(r = Ok () \<longleftrightarrow> keystore_remote cfg = None \<and> (\<forall>s. wanted cfg s \<longrightarrow> fallible s \<longrightarrow> ok s)) \<and>
    (r = Ok () \<longrightarrow> set log = {s. wanted cfg s} \<and>
      concat (map spawns log) =
        (if has_telemetry cfg
         then [\<lparr>task_name = ''telemetry'', task_group = None, essential = False\<rparr>] else []) @
        (if is_authority cfg
         then [\<lparr>task_name = ''aura'', task_group = Some ''block-authoring'', essential = True\<rparr>] else []) @
        (if disable_grandpa cfg then []
         else [\<lparr>task_name = ''grandpa-voter'', task_group = None, essential = True\<rparr>])) \<and>
    (keystore_remote cfg \<noteq> None \<longrightarrow>
      r = Err (OtherError ''Remote Keystores are not supported.'') \<and> log = []) \<and>
    (keystore_remote cfg = None \<longrightarrow> r \<noteq> Ok () \<longrightarrow>
      (\<exists>s. wanted cfg s \<and> fallible s \<and> \<not> ok s \<and> (\<forall>p. comes_after s p \<longrightarrow> wanted cfg p \<longrightarrow> p \<in> set log) \<and>
        r = (if s = GenesisHash then Panic else Err (StepFailed s)))) \<and>
    distinct log \<and> (\<forall>s \<in> set log. wanted cfg s \<and> (fallible s \<longrightarrow> ok s)) \<and>
    (\<forall>pre s post. log = pre @ s # post \<longrightarrow> (\<forall>p. comes_after s p \<longrightarrow> wanted cfg p \<longrightarrow> p \<in> set pre))"
proof (cases "keystore_remote cfg")
  case (Some url)
  then show ?thesis using assms by (auto simp: new_full_def new_partial_def and_then_def)
next
  case None
  from assms have "run_steps ok (partial_steps cfg @ full_steps cfg) [] = (r, log)"
    by (simp only: new_full_plan [OF None])
  from run_steps_result [OF this] obtain post where
    plan: "partial_steps cfg @ full_steps cfg = log @ post"
    and succeeded: "\<forall>s \<in> set log. fallible s \<longrightarrow> ok s"
    and rest: "case post of [] \<Rightarrow> r = Ok ()
      | s # _ \<Rightarrow> fallible s \<and> \<not> ok s \<and> r = (if s = GenesisHash then Panic else Err (StepFailed s))"
    by auto
  note want = plan_wanted [of _ cfg, unfolded plan]
  have dist: "distinct log" using plan_distinct [of cfg] unfolding plan by simp
  have order: "p \<in> set pre" if "log = pre @ s # post'" "comes_after s p" "wanted cfg p" for pre s post' p
    using plan_before [OF _ that(2,3), of pre "post' @ post"] plan that(1) by simp
  show ?thesis
  proof (cases post)
    case Nil
    with plan_tasks [of cfg] plan have "concat (map spawns log) =
        (if has_telemetry cfg
         then [\<lparr>task_name = ''telemetry'', task_group = None, essential = False\<rparr>] else []) @
        (if is_authority cfg
         then [\<lparr>task_name = ''aura'', task_group = Some ''block-authoring'', essential = True\<rparr>] else []) @
        (if disable_grandpa cfg then []
         else [\<lparr>task_name = ''grandpa-voter'', task_group = None, essential = True\<rparr>])"
      by simp
    with Nil None rest want succeeded dist order show ?thesis by auto
  next
    case (Cons s post')
    with rest have s: "fallible s" "\<not> ok s" "r = (if s = GenesisHash then Panic else Err (StepFailed s))"
      by simp_all
    then have "r \<noteq> Ok ()" by simp
    moreover have "wanted cfg s" using want [of s] Cons by simp
    moreover have "\<forall>p. comes_after s p \<longrightarrow> wanted cfg p \<longrightarrow> p \<in> set log"
      using plan_before plan Cons by blast
    moreover have "\<forall>s \<in> set log. wanted cfg s" using want by auto
    ultimately show ?thesis using None s succeeded dist order by blast
  qed
qed

definition plain_node :: configuration where
  "plain_node = \<lparr>keystore_remote = None, telemetry_endpoints = Some [], is_authority = True,
     force_authoring = False, disable_grandpa = False, offchain_worker = True\<rparr>"

text \<open>The slot duration that is read again for authoring can fail although the first one did not.\<close>

theorem new_full_complete_witness:
  "(\<exists>log. new_full (\<lambda>_. True) plain_node [] = (Ok (), log) \<and>
      map task_name (concat (map spawns log)) = [''aura'', ''grandpa-voter''] \<and>
      GrandpaPeersSet \<in> set log \<and> BuildOffchainWorkers \<in> set log) \<and>
   (\<exists>log. new_full (\<lambda>s. s \<noteq> AuthorSlotDuration) plain_node [] =
      (Err (StepFailed AuthorSlotDuration), log) \<and> StartNetwork \<notin> set log)"
proof -
  have cfg: "is_authority plain_node" "\<not> disable_grandpa plain_node" "\<not> has_telemetry plain_node"
    "offchain_worker plain_node" "keystore_remote plain_node = None"
    by (simp_all add: plain_node_def has_telemetry_def)
  obtain r log where run: "new_full (\<lambda>_. True) plain_node [] = (r, log)" by (rule prod.exhaust)
  obtain r' log' where stop: "new_full (\<lambda>s. s \<noteq> AuthorSlotDuration) plain_node [] = (r', log')"
    by (rule prod.exhaust)
  note built = new_full_complete [OF run] and failed = new_full_complete [OF stop]
  from built cfg have ok: "r = Ok ()" by blast
  with built have log: "set log = {s. wanted plain_node s}"
    "concat (map spawns log) =
        [\<lparr>task_name = ''aura'', task_group = Some ''block-authoring'', essential = True\<rparr>,
         \<lparr>task_name = ''grandpa-voter'', task_group = None, essential = True\<rparr>]"
    using cfg by simp_all
  have not_ok: "r' \<noteq> Ok ()"
  proof
    assume "r' = Ok ()"
    with failed have "wanted plain_node AuthorSlotDuration \<longrightarrow> fallible AuthorSlotDuration \<longrightarrow>
        AuthorSlotDuration \<noteq> AuthorSlotDuration" by blast
    with cfg show False by simp
  qed
  with failed cfg(5) obtain s where s: "\<not> s \<noteq> AuthorSlotDuration"
    "r' = (if s = GenesisHash then Panic else Err (StepFailed s))" by blast
  have "StartNetwork \<notin> set log'"
  proof
    assume "StartNetwork \<in> set log'"
    then obtain pre post where "log' = pre @ StartNetwork # post" by (auto dest: split_list)
    moreover have "comes_after StartNetwork AuthorSlotDuration" "wanted plain_node AuthorSlotDuration"
      using cfg by simp_all
    ultimately have "AuthorSlotDuration \<in> set log'" using failed by fastforce
    with failed show False by fastforce
  qed
  with run stop ok log cfg s show ?thesis by simp
qed

end
