(* ===== verification/Node_Client.thy ===== *)
theory Node_Client
  imports Node_Service
begin

text \<open>
  What the node builds from its client: the RPC module of \<open>node/src/rpc.rs\<close> and the extrinsics and
  inherent data of \<open>node/src/benchmarking.rs\<close>. Keys, eras, the bytes a payload is signed as, and the
  RPC modules of Substrate are arguments. The locale \<open>checking_node\<close> is what FRAME documents of
  the signed extensions on the side that checks an extrinsic; the property joins it with the side
  that builds one.
\<close>

section \<open>RPC\<close>

record ('client, 'pool) full_deps =
  rpc_client :: 'client
  rpc_pool :: 'pool
  deny_unsafe :: bool

text \<open>\<open>merge\<close> fails on a method name that is already registered.\<close>

definition create_full ::
  "('m \<Rightarrow> 'm \<Rightarrow> 'm option) \<Rightarrow> 'm \<Rightarrow> ('client \<Rightarrow> 'pool \<Rightarrow> bool \<Rightarrow> 'm) \<Rightarrow> ('client \<Rightarrow> 'm) \<Rightarrow>
   ('client, 'pool) full_deps \<Rightarrow> 'm option" where
  "create_full merge rpc_new system_rpc transaction_payment_rpc deps =
     Option.bind
       (merge rpc_new (system_rpc (rpc_client deps) (rpc_pool deps) (deny_unsafe deps)))
       (\<lambda>module. merge module (transaction_payment_rpc (rpc_client deps)))"

section \<open>The extrinsics of the benchmarks\<close>

datatype 'acc runtime_call = SystemRemark bytes | TransferKeepAlive 'acc nat

text \<open>\<open>u32::checked_next_power_of_two\<close>.\<close>

fun next_power_of_two :: "nat \<Rightarrow> nat" where
  "next_power_of_two n = (if n \<le> 1 then 1 else 2 * next_power_of_two ((n + 1) div 2))"

declare next_power_of_two.simps [simp del]

definition checked_next_power_of_two :: "u32 \<Rightarrow> u32 option" where
  "checked_next_power_of_two n =
     (let p = next_power_of_two (unat n) in if p < 4294967296 then Some (word_of_nat p) else None)"

definition benchmark_period :: u64 where
  "benchmark_period =
     ucast (case checked_next_power_of_two block_hash_count of Some c \<Rightarrow> c div 2 | None \<Rightarrow> 2)"

text \<open>A signed extension with the data it carries in an extrinsic, and what it adds to the payload.\<close>

datatype 'era extension =
    Plain signed_extension
  | Era 'era
  | Nonce u32
  | Tip nat

fun extension_kind :: "'era extension \<Rightarrow> signed_extension" where
  "extension_kind (Plain e) = e"
| "extension_kind (Era era) = CheckEra"
| "extension_kind (Nonce n) = CheckNonce"
| "extension_kind (Tip t) = ChargeTransactionPayment"

datatype 'hash additional = Nothing | Number u32 | Hash 'hash

record ('acc, 'era, 'sig) extrinsic =
  function_call :: "'acc runtime_call"
  extra :: "'era extension list"
  sender :: 'acc
  signature :: 'sig

text \<open>What the builder is given: the client, the era of \<open>sp_runtime\<close> and the encoding of a payload.\<close>

record 'hash chain_client =
  block_hash :: "u32 \<Rightarrow> ('hash option, string) outcome"
  best_hash :: 'hash
  best_number :: u32

record ('acc, 'sig) key_pair =
  public :: 'acc
  sign :: "bytes \<Rightarrow> 'sig"

type_synonym ('acc, 'era, 'hash) payload_encoder =
  "'acc runtime_call \<Rightarrow> 'era extension list \<Rightarrow> 'hash additional list \<Rightarrow> bytes"

definition benchmark_extra :: "(u64 \<Rightarrow> u64 \<Rightarrow> 'era) \<Rightarrow> u32 \<Rightarrow> u32 \<Rightarrow> 'era extension list" where
  "benchmark_extra mortal best_block nonce =
     [Plain CheckNonZeroSender, Plain CheckSpecVersion, Plain CheckTxVersion, Plain CheckGenesis,
      Era (mortal benchmark_period (ucast best_block)), Nonce nonce, Plain CheckWeight, Tip 0]"

definition benchmark_additional :: "'hash \<Rightarrow> 'hash \<Rightarrow> 'hash additional list" where
  "benchmark_additional genesis_hash best =
     [Nothing, Number (spec_version runtime_VERSION), Number (transaction_version runtime_VERSION),
      Hash genesis_hash, Hash best, Nothing, Nothing, Nothing]"

text \<open>The \<open>expect\<close> on the genesis hash is a panic, for an error of the client as for an absent block.\<close>

definition create_benchmark_extrinsic ::
  "(u64 \<Rightarrow> u64 \<Rightarrow> 'era) \<Rightarrow> ('acc, 'era, 'hash) payload_encoder \<Rightarrow> 'hash chain_client \<Rightarrow>
   ('acc, 'sig) key_pair \<Rightarrow> 'acc runtime_call \<Rightarrow> u32 \<Rightarrow> (('acc, 'era, 'sig) extrinsic, string) outcome"
  where
  "create_benchmark_extrinsic mortal encode client pair c nonce =
     (case block_hash client 0 of
        Ok (Some genesis_hash) \<Rightarrow>
          let ex = benchmark_extra mortal (best_number client) nonce;
              raw_payload = encode c ex (benchmark_additional genesis_hash (best_hash client)) in
          Ok \<lparr>function_call = c, extra = ex, sender = public pair, signature = sign pair raw_payload\<rparr>
      | _ \<Rightarrow> Panic)"

text \<open>An \<open>ExtrinsicBuilder\<close>: the names it announces and the extrinsic it builds for a nonce.\<close>

record ('acc, 'era, 'sig) extrinsic_builder =
  pallet_name :: string
  extrinsic_name :: string
  build :: "u32 \<Rightarrow> (('acc, 'era, 'sig) extrinsic, string) outcome"

definition remark_builder ::
  "(u64 \<Rightarrow> u64 \<Rightarrow> 'era) \<Rightarrow> ('acc, 'era, 'hash) payload_encoder \<Rightarrow> ('acc, 'sig) key_pair \<Rightarrow>
   'hash chain_client \<Rightarrow> ('acc, 'era, 'sig) extrinsic_builder" where
  "remark_builder mortal encode bob client =
     \<lparr>pallet_name = ''system'', extrinsic_name = ''remark'',
      build = create_benchmark_extrinsic mortal encode client bob (SystemRemark [])\<rparr>"

definition transfer_keep_alive_builder ::
  "(u64 \<Rightarrow> u64 \<Rightarrow> 'era) \<Rightarrow> ('acc, 'era, 'hash) payload_encoder \<Rightarrow> ('acc, 'sig) key_pair \<Rightarrow>
   'hash chain_client \<Rightarrow> 'acc \<Rightarrow> nat \<Rightarrow> ('acc, 'era, 'sig) extrinsic_builder" where
  "transfer_keep_alive_builder mortal encode bob client dest value =
     \<lparr>pallet_name = ''balances'', extrinsic_name = ''transfer_keep_alive'',
      build = create_benchmark_extrinsic mortal encode client bob (TransferKeepAlive dest value)\<rparr>"

text \<open>\<open>provide\<close> is \<open>provide_inherent_data\<close> of the timestamp provider, here at 0 milliseconds.\<close>

definition inherent_benchmark_data ::
  "(nat \<Rightarrow> ('inherent, string) outcome) \<Rightarrow> ('inherent, string) outcome" where
  "inherent_benchmark_data provide =
     map_err (\<lambda>e. ''creating inherent data: '' @ e) (provide 0)"

section \<open>The node that checks an extrinsic\<close>

text \<open>
  What FRAME documents of the signed extensions: \<open>expected c e\<close> is what extension \<open>e\<close> adds to the
  payload when an extrinsic is checked at block \<open>c\<close>, \<open>hash_at n\<close> the hash of block \<open>n\<close>. The genesis
  and versions are the chain's, and a mortal era of a power of two of at most 4096 blocks stands for
  the hash of the block it was made for, as long as it has not run out.
\<close>

locale checking_node =
  fixes expected :: "nat \<Rightarrow> 'era extension \<Rightarrow> 'hash additional"
    and hash_at :: "nat \<Rightarrow> 'hash"
    and mortal :: "u64 \<Rightarrow> u64 \<Rightarrow> 'era"
  assumes spec_version: "expected c (Plain CheckSpecVersion) = Number (spec_version runtime_VERSION)"
    and tx_version: "expected c (Plain CheckTxVersion) = Number (transaction_version runtime_VERSION)"
    and genesis: "expected c (Plain CheckGenesis) = Hash (hash_at 0)"
    and sender: "expected c (Plain CheckNonZeroSender) = Nothing"
    and weight: "expected c (Plain CheckWeight) = Nothing"
    and nonce: "expected c (Nonce n) = Nothing"
    and tip: "expected c (Tip t) = Nothing"
    and era: "2 \<le> k \<Longrightarrow> k \<le> 12 \<Longrightarrow> unat b \<le> c \<Longrightarrow> c < unat b + 2 ^ k \<Longrightarrow>
      expected c (Era (mortal (2 ^ k) b)) = Hash (hash_at (unat b))"
begin

lemma benchmark_payload:
  assumes "benchmark_period = 2048" and "unat best \<le> c" and "c < unat best + 2048"
  shows "map (expected c) (benchmark_extra mortal best n) =
    benchmark_additional (hash_at 0) (hash_at (unat best))"
  using assms era [of 11 "ucast best" c]
  by (simp add: benchmark_extra_def benchmark_additional_def spec_version tx_version genesis sender
      weight nonce tip)

end

text \<open>An era as the period and the phase in it, and its first block seen from block \<open>c\<close>.\<close>

type_synonym period_era = "nat \<times> nat"

definition period_mortal :: "u64 \<Rightarrow> u64 \<Rightarrow> period_era" where
  "period_mortal period current = (unat period, unat current mod unat period)"

definition period_birth :: "period_era \<Rightarrow> nat \<Rightarrow> nat" where
  "period_birth e c = (max c (snd e) - snd e) div fst e * fst e + snd e"

lemma period_birth_mortal:
  assumes "unat n \<le> c" and "c < unat n + unat p"
  shows "period_birth (period_mortal p n) c = unat n"
proof -
  let ?n = "unat n" and ?p = "unat p"
  have "?n mod ?p \<le> ?n" by simp
  with assms have "max c (?n mod ?p) - ?n mod ?p = (c - ?n) + ?n div ?p * ?p"
    using div_mult_mod_eq [of ?n ?p] by linarith
  moreover have "((c - ?n) + ?n div ?p * ?p) div ?p = ?n div ?p"
  proof -
    have "0 < ?p" and "c - ?n < ?p" using assms by linarith+
    then show ?thesis by (simp only: div_mult_self1 div_less add_0_right)
  qed
  ultimately show ?thesis by (simp add: period_birth_def period_mortal_def)
qed

fun period_expected :: "(nat \<Rightarrow> 'hash) \<Rightarrow> nat \<Rightarrow> period_era extension \<Rightarrow> 'hash additional" where
  "period_expected hash_at c (Plain CheckSpecVersion) = Number (spec_version runtime_VERSION)"
| "period_expected hash_at c (Plain CheckTxVersion) = Number (transaction_version runtime_VERSION)"
| "period_expected hash_at c (Plain CheckGenesis) = Hash (hash_at 0)"
| "period_expected hash_at c (Era e) = Hash (hash_at (period_birth e c))"
| "period_expected hash_at c _ = Nothing"

lemma unat_power_u64: "k \<le> 12 \<Longrightarrow> unat (2 ^ k :: u64) = 2 ^ k"
proof -
  assume "k \<le> 12"
  then have "(2 :: nat) ^ k \<le> 2 ^ 12" by (intro power_increasing) simp_all
  then show ?thesis using unat_u64_of_nat [of "2 ^ k"] by simp
qed

interpretation period: checking_node "period_expected hash_at" hash_at period_mortal for hash_at
  by unfold_locales (simp_all add: period_birth_mortal unat_power_u64)

lemma benchmark_period_value: "benchmark_period = 2048"
  by code_simp

text \<open>
  C38. The extrinsics of the benchmarks are accepted: the extrinsic built for a call and a nonce by a
  client whose best block is \<open>best_number\<close> carries the runtime's signed extensions in their order,
  and its signature verifies over the payload a node recomputes at every block from the best block
  until 2048 blocks later, a lifetime within \<open>BlockHashCount\<close>.
\<close>

theorem benchmark_extrinsic_verifies:
  assumes "checking_node expected hash_at mortal" and "block_hash client 0 = Ok (Some (hash_at 0))"
    and "best_hash client = hash_at (unat (best_number client))"
    and "unat (best_number client) \<le> c" and "c < unat (best_number client) + 2048"
    and "\<forall>m. verify (public pair) m (sign pair m)"
  shows "\<exists>x. create_benchmark_extrinsic mortal encode client pair f n = Ok x \<and>
    function_call x = f \<and> sender x = public pair \<and> map extension_kind (extra x) = signed_extra \<and>
    verify (sender x) (encode (function_call x) (extra x) (map (expected c) (extra x))) (signature x) \<and>
    unat benchmark_period = 2048 \<and> unat benchmark_period \<le> unat block_hash_count"
proof -
  note payload = checking_node.benchmark_payload [OF assms(1) benchmark_period_value assms(4,5), of n]
  have order: "map extension_kind (benchmark_extra mortal (best_number client) n) = signed_extra"
    by (simp add: benchmark_extra_def signed_extra_def)
  show ?thesis
    using assms(2,3,6) payload order
    by (simp add: create_benchmark_extrinsic_def benchmark_period_value block_hash_count_def
        Let_def)
qed

theorem benchmark_extrinsic_verifies_witness:
  "\<exists>x. build (remark_builder period_mortal (\<lambda>f ex ad. [word_of_nat (length ad)])
      \<lparr>public = (2 :: nat), sign = id\<rparr>
      \<lparr>block_hash = (\<lambda>_. Ok (Some 0)), best_hash = (5 :: nat), best_number = 5\<rparr>) 0 = Ok x \<and>
    map extension_kind (extra x) = signed_extra \<and> signature x = [8]"
proof -
  let ?client = "\<lparr>block_hash = (\<lambda>_. Ok (Some 0)), best_hash = 5, best_number = 5\<rparr> :: nat chain_client"
    and ?bob = "\<lparr>public = 2, sign = id\<rparr> :: (nat, bytes) key_pair"
    and ?encode = "\<lambda>(f :: nat runtime_call) (ex :: period_era extension list) ad.
      [word_of_nat (length (ad :: nat additional list))] :: bytes"
  have "\<exists>x. create_benchmark_extrinsic period_mortal ?encode ?client ?bob (SystemRemark []) 0 = Ok x \<and>
      map extension_kind (extra x) = signed_extra \<and>
      signature x = ?encode (SystemRemark []) (extra x) (map (period_expected id 100) (extra x))"
    using benchmark_extrinsic_verifies [of "period_expected id" id period_mortal ?client 100
        "\<lambda>a m s. s = m" ?bob ?encode "SystemRemark []" 0, OF period.checking_node_axioms]
    by auto
  then obtain x where
    x: "create_benchmark_extrinsic period_mortal ?encode ?client ?bob (SystemRemark []) 0 = Ok x"
      "map extension_kind (extra x) = signed_extra" "signature x = [word_of_nat (length (extra x))]"
    by auto
  have "length (extra x) = 8"
    using arg_cong [OF x(2), of length] by (simp add: signed_extra_def)
  with x show ?thesis by (simp add: remark_builder_def)
qed

end
