(* ===== verification/Node_Cli.thy ===== *)
theory Node_Cli
  imports Node_Client
begin

text \<open>
  The command line of the node, \<open>node/src/cli.rs\<close> and \<open>command.rs\<close>, and the host functions its
  executor is built with (\<open>ExecutorDispatch\<close> in \<open>service.rs\<close>). A sub-command is the list of steps \<open>run\<close>
  performs for it: creating a runner, building the partial service, and handing the parts it needs
  to Substrate's own command. What those commands do is external (\<open>ok\<close>); the two cargo features the
  code tests are the record \<open>features\<close>.
\<close>

section \<open>Sub-commands\<close>

datatype benchmark_cmd =
    BenchPallet | BenchBlock | BenchStorage | BenchOverhead | BenchExtrinsic | BenchMachine

datatype subcommand =
    Key | BuildSpec | CheckBlock | ExportBlocks | ExportState | ImportBlocks | PurgeChain | Revert
  | Benchmark benchmark_cmd | TryRuntime | ChainInfo

record features =
  runtime_benchmarks :: bool
  try_runtime :: bool

text \<open>The parts of a configuration or of the partial service that a command is given.\<close>

datatype service_part =
    ChainSpecPart | NetworkPart | DatabasePart | ClientPart | ImportQueuePart | BackendPart
  | RevertGrandpa | RawStorage | InherentData | RemarkExtrinsics | TransferExtrinsics nat | Hardware

datatype cli_step =
    CreateRunner
  | NewPartial
  | NewTaskManager
  | Hand service_part
  | RunCommand subcommand
  | NewFull
  | Refuse string

definition needs_benchmarks :: string where
  "needs_benchmarks = ''Runtime benchmarking wasn't enabled when building the node. '' @
     ''You can enable it with `--features runtime-benchmarks`.''"

definition needs_storage_benchmarks :: string where
  "needs_storage_benchmarks =
     ''Storage benchmarking can be enabled with `--features runtime-benchmarks`.''"

definition needs_try_runtime :: string where
  "needs_try_runtime = ''TryRuntime wasn't enabled when building the node. '' @
     ''You can enable it with `--features try-runtime`.''"

fun benchmark_steps :: "features \<Rightarrow> benchmark_cmd \<Rightarrow> cli_step list" where
  "benchmark_steps F BenchPallet =
     (if \<not> runtime_benchmarks F then [Refuse needs_benchmarks]
      else [RunCommand (Benchmark BenchPallet)])"
| "benchmark_steps F BenchBlock =
     [NewPartial, Hand ClientPart, RunCommand (Benchmark BenchBlock)]"
| "benchmark_steps F BenchStorage =
     (if \<not> runtime_benchmarks F then [Refuse needs_storage_benchmarks]
      else [NewPartial, Hand ClientPart, Hand DatabasePart, Hand RawStorage,
            RunCommand (Benchmark BenchStorage)])"
| "benchmark_steps F BenchOverhead =
     [NewPartial, Hand ClientPart, Hand InherentData, Hand RemarkExtrinsics,
      RunCommand (Benchmark BenchOverhead)]"
| "benchmark_steps F BenchExtrinsic =
     [NewPartial, Hand ClientPart, Hand RemarkExtrinsics,
      Hand (TransferExtrinsics existential_deposit), Hand InherentData,
      RunCommand (Benchmark BenchExtrinsic)]"
| "benchmark_steps F BenchMachine = [Hand Hardware, RunCommand (Benchmark BenchMachine)]"

fun command_steps :: "features \<Rightarrow> subcommand option \<Rightarrow> cli_step list" where
  "command_steps F (Some Key) = [RunCommand Key]"
| "command_steps F (Some BuildSpec) =
     [CreateRunner, Hand ChainSpecPart, Hand NetworkPart, RunCommand BuildSpec]"
| "command_steps F (Some CheckBlock) =
     [CreateRunner, NewPartial, Hand ClientPart, Hand ImportQueuePart, RunCommand CheckBlock]"
| "command_steps F (Some ExportBlocks) =
     [CreateRunner, NewPartial, Hand ClientPart, Hand DatabasePart, RunCommand ExportBlocks]"
| "command_steps F (Some ExportState) =
     [CreateRunner, NewPartial, Hand ClientPart, Hand ChainSpecPart, RunCommand ExportState]"
| "command_steps F (Some ImportBlocks) =
     [CreateRunner, NewPartial, Hand ClientPart, Hand ImportQueuePart, RunCommand ImportBlocks]"
| "command_steps F (Some PurgeChain) = [CreateRunner, Hand DatabasePart, RunCommand PurgeChain]"
| "command_steps F (Some Revert) =
     [CreateRunner, NewPartial, Hand ClientPart, Hand BackendPart, Hand RevertGrandpa,
      RunCommand Revert]"
| "command_steps F (Some (Benchmark cmd)) = CreateRunner # benchmark_steps F cmd"
| "command_steps F (Some TryRuntime) =
     (if try_runtime F then [CreateRunner, NewTaskManager, RunCommand TryRuntime]
      else [Refuse needs_try_runtime])"
| "command_steps F (Some ChainInfo) = [CreateRunner, RunCommand ChainInfo]"
| "command_steps F None = [CreateRunner, NewFull]"

datatype cli_error = CliService service_error | CliStep cli_step | CliMessage string

text \<open>
  What a step gives; \<open>ok\<close> says whether a step inside Substrate succeeds, \<open>service_ok\<close> whether a step of
  the service does. The steps are performed in order and recorded, and the first error ends \<open>run\<close>.
\<close>

fun step_result ::
  "(cli_step \<Rightarrow> bool) \<Rightarrow> (service_step \<Rightarrow> bool) \<Rightarrow> configuration \<Rightarrow> cli_step \<Rightarrow> (unit, cli_error) outcome"
  where
  "step_result ok service_ok cfg (Refuse msg) = Err (CliMessage msg)"
| "step_result ok service_ok cfg NewPartial = map_err CliService (fst (new_partial service_ok cfg []))"
| "step_result ok service_ok cfg NewFull = map_err CliService (fst (new_full service_ok cfg []))"
| "step_result ok service_ok cfg s = (if ok s then Ok () else Err (CliStep s))"

fun perform ::
  "(cli_step \<Rightarrow> (unit, cli_error) outcome) \<Rightarrow> cli_step list \<Rightarrow> cli_step list \<Rightarrow>
   (unit, cli_error) outcome \<times> cli_step list" where
  "perform result [] performed = (Ok (), performed)"
| "perform result (s # ss) performed =
     (case result s of
        Ok u \<Rightarrow> perform result ss (performed @ [s])
      | e \<Rightarrow> (e, performed))"

definition run_cli ::
  "features \<Rightarrow> (cli_step \<Rightarrow> bool) \<Rightarrow> (service_step \<Rightarrow> bool) \<Rightarrow> configuration \<Rightarrow> subcommand option \<Rightarrow>
   (unit, cli_error) outcome \<times> cli_step list" where
  "run_cli F ok service_ok cfg cmd = perform (step_result ok service_ok cfg) (command_steps F cmd) []"

section \<open>What the command line says of itself\<close>

text \<open>The version, description and author are environment variables of the build.\<close>

record cli_info =
  impl_name_of :: string
  impl_version_of :: string
  description_of :: string
  author_of :: string
  support_url :: string
  copyright_start_year :: int

definition substrate_cli :: "string \<Rightarrow> string \<Rightarrow> string \<Rightarrow> cli_info" where
  "substrate_cli version pkg_description pkg_authors =
     \<lparr>impl_name_of = ''Substrate Node'', impl_version_of = version, description_of = pkg_description,
      author_of = pkg_authors, support_url = ''support.anonymous.an'', copyright_start_year = 2017\<rparr>"

definition cli_native_runtime_version :: "'spec \<Rightarrow> runtime_version" where
  "cli_native_runtime_version spec = runtime_VERSION"

section \<open>The host functions of the executor\<close>

datatype host_functions = BenchmarkingFunctions | KontractsFunctions

definition extend_host_functions :: "features \<Rightarrow> host_functions" where
  "extend_host_functions F =
     (if runtime_benchmarks F then BenchmarkingFunctions else KontractsFunctions)"

text \<open>
  The native side of the executor: a runtime API by its name, on encoded arguments, answered by the
  runtime's generated \<open>dispatch\<close>, and the native version of the runtime.
\<close>

definition executor_dispatch :: "(string \<Rightarrow> bytes \<Rightarrow> bytes option) \<Rightarrow> string \<Rightarrow> bytes \<Rightarrow> bytes option" where
  "executor_dispatch api_dispatch method data = api_dispatch method data"

definition executor_native_version :: native_version where
  "executor_native_version = runtime_native_version"

section \<open>What a command has to do\<close>

text \<open>
  The contract of \<open>run\<close>, by the command instead of as a list: the feature a command needs, the parts
  of the configuration and of the partial service it is given, and with them the steps it asks for.
\<close>

definition allowed :: "features \<Rightarrow> subcommand option \<Rightarrow> bool" where
  "allowed F cmd \<longleftrightarrow>
     (cmd \<in> {Some (Benchmark BenchPallet), Some (Benchmark BenchStorage)} \<longrightarrow> runtime_benchmarks F) \<and>
     (cmd = Some TryRuntime \<longrightarrow> try_runtime F)"

fun given :: "subcommand option \<Rightarrow> service_part set" where
  "given (Some BuildSpec) = {ChainSpecPart, NetworkPart}"
| "given (Some CheckBlock) = {ClientPart, ImportQueuePart}"
| "given (Some ImportBlocks) = {ClientPart, ImportQueuePart}"
| "given (Some ExportBlocks) = {ClientPart, DatabasePart}"
| "given (Some ExportState) = {ClientPart, ChainSpecPart}"
| "given (Some PurgeChain) = {DatabasePart}"
| "given (Some Revert) = {ClientPart, BackendPart, RevertGrandpa}"
| "given (Some (Benchmark BenchBlock)) = {ClientPart}"
| "given (Some (Benchmark BenchStorage)) = {ClientPart, DatabasePart, RawStorage}"
| "given (Some (Benchmark BenchOverhead)) = {ClientPart, InherentData, RemarkExtrinsics}"
| "given (Some (Benchmark BenchExtrinsic)) =
     {ClientPart, InherentData, RemarkExtrinsics, TransferExtrinsics existential_deposit}"
| "given (Some (Benchmark BenchMachine)) = {Hardware}"
| "given cmd = {}"

fun asked :: "subcommand option \<Rightarrow> cli_step \<Rightarrow> bool" where
  "asked cmd CreateRunner = (cmd \<noteq> Some Key)"
| "asked cmd NewPartial = (ClientPart \<in> given cmd)"
| "asked cmd NewTaskManager = (cmd = Some TryRuntime)"
| "asked cmd (Hand part) = (part \<in> given cmd)"
| "asked cmd (RunCommand c) = (cmd = Some c)"
| "asked cmd NewFull = (cmd = None)"
| "asked cmd (Refuse msg) = False"

definition refusal :: "subcommand option \<Rightarrow> string" where
  "refusal cmd =
     (if cmd = Some (Benchmark BenchPallet) then needs_benchmarks
      else if cmd = Some (Benchmark BenchStorage) then needs_storage_benchmarks
      else needs_try_runtime)"

section \<open>Properties\<close>

lemma perform_result:
  "perform result ss performed = (r, log) \<Longrightarrow>
   \<exists>pre post. ss = pre @ post \<and> log = performed @ pre \<and> (\<forall>s \<in> set pre. result s = Ok ()) \<and>
     (case post of [] \<Rightarrow> r = Ok () | s # _ \<Rightarrow> result s \<noteq> Ok () \<and> r = result s)"
proof (induction result ss performed rule: perform.induct)
  case (2 result s ss performed)
  show ?case
  proof (cases "result s = Ok ()")
    case True
    with 2(2) have "perform result ss (performed @ [s]) = (r, log)" by simp
    from 2(1) [OF True this] obtain pre post where "ss = pre @ post" "log = (performed @ [s]) @ pre"
      "\<forall>s \<in> set pre. result s = Ok ()"
      "case post of [] \<Rightarrow> r = Ok () | s # _ \<Rightarrow> result s \<noteq> Ok () \<and> r = result s"
      by blast
    with True show ?thesis by (intro exI [of _ "s # pre"] exI [of _ post]) auto
  next
    case False
    with 2(2) show ?thesis
      by (intro exI [of _ "[]"] exI [of _ "s # ss"]) (auto split: outcome.splits)
  qed
qed simp

text \<open>A command that is allowed is performed by the steps it asks for, and runs last.\<close>

lemma command_asked:
  "allowed F cmd \<Longrightarrow> s \<in> set (command_steps F cmd) \<longleftrightarrow> asked cmd s"
proof (induction F cmd rule: command_steps.induct)
  case (9 F cmd)
  then show ?case by (cases cmd; cases s) (auto simp: allowed_def)
qed (cases s; auto simp: allowed_def)+

lemma command_runs_last:
  "RunCommand c \<notin> set (butlast (command_steps F cmd)) \<and>
   (RunCommand c \<in> set (command_steps F cmd) \<longrightarrow> cmd = Some c)"
proof (induction F cmd rule: command_steps.induct)
  case (9 F cmd)
  show ?case by (cases cmd) auto
qed auto

lemma command_refused:
  "\<not> allowed F cmd \<Longrightarrow>
   command_steps F cmd = (if cmd = Some TryRuntime then [] else [CreateRunner]) @ [Refuse (refusal cmd)]"
proof (induction F cmd rule: command_steps.induct)
  case (9 F cmd)
  then show ?case by (cases cmd) (auto simp: allowed_def refusal_def)
qed (auto simp: allowed_def refusal_def)

lemma remote_keystore_refused:
  assumes "keystore_remote cfg \<noteq> None"
  shows "step_result ok service_ok cfg NewPartial \<noteq> Ok ()" "step_result ok service_ok cfg NewFull \<noteq> Ok ()"
  using assms by (auto simp: new_partial_def new_full_def and_then_def)

text \<open>
  C37. What \<open>run\<close> does. It returns \<open>Ok\<close> exactly when the build has the feature the command needs and
  every step the command asks for succeeds; then exactly these steps were performed, so that it was given
  exactly the parts it needs, built from the partial service when it needs the client. The command itself runs only
  then, and only the one that was asked for. Without the feature the command ends with the message that names
  it and nothing but the runner was made, and with a remote keystore nothing that needs the client, and no node, succeeds.
\<close>

theorem run_cli_faithful:
  assumes "run_cli F ok service_ok cfg cmd = (r, log)"
  shows "(r = Ok () \<longleftrightarrow>
      allowed F cmd \<and> (\<forall>s. asked cmd s \<longrightarrow> step_result ok service_ok cfg s = Ok ())) \<and>
    (r = Ok () \<longrightarrow> set log = {s. asked cmd s}) \<and>
    (RunCommand c \<in> set log \<longleftrightarrow> cmd = Some c \<and> r = Ok ()) \<and>
    (\<not> allowed F cmd \<longrightarrow> set log \<subseteq> {CreateRunner} \<and>
      (ok CreateRunner \<longrightarrow> r = Err (CliMessage (refusal cmd)))) \<and>
    (keystore_remote cfg \<noteq> None \<and> (cmd = None \<or> ClientPart \<in> given cmd) \<longrightarrow> r \<noteq> Ok ())"
proof -
  let ?result = "step_result ok service_ok cfg"
  from perform_result [OF assms [unfolded run_cli_def]] obtain post where
    steps: "command_steps F cmd = log @ post" and log: "\<forall>s \<in> set log. ?result s = Ok ()"
    and rest: "case post of [] \<Rightarrow> r = Ok () | s # _ \<Rightarrow> ?result s \<noteq> Ok () \<and> r = ?result s"
    by auto
  have ended: "r = Ok () \<longleftrightarrow> post = []" using rest by (cases post) auto
  show ?thesis
  proof (cases "allowed F cmd")
    case True
    note asks = command_asked [OF True, unfolded steps]
    have all: "r = Ok () \<longleftrightarrow> (\<forall>s. asked cmd s \<longrightarrow> ?result s = Ok ())"
    proof (cases post)
      case Nil
      with ended asks log show ?thesis by auto
    next
      case (Cons s ss)
      with asks [of s] rest ended show ?thesis by auto
    qed
    have "RunCommand c \<in> set log \<longleftrightarrow> cmd = Some c \<and> r = Ok ()"
    proof (cases "post = []")
      case True
      with asks [of "RunCommand c"] ended show ?thesis by auto
    next
      case False
      with command_runs_last [of c F cmd] steps ended show ?thesis by (auto simp: butlast_append)
    qed
    moreover have "r \<noteq> Ok ()" if "keystore_remote cfg \<noteq> None" "cmd = None \<or> ClientPart \<in> given cmd"
    proof -
      from that(2) have "asked cmd NewPartial \<or> asked cmd NewFull" by auto
      with all remote_keystore_refused [OF that(1), of ok service_ok] show ?thesis by blast
    qed
    moreover have "set log = {s. asked cmd s}" if "r = Ok ()" using that ended asks by auto
    ultimately show ?thesis using True all by blast
  next
    case False
    from command_refused [OF this] steps
    have eq: "log @ post = (if cmd = Some TryRuntime then [] else [CreateRunner]) @ [Refuse (refusal cmd)]"
      by simp
    with log have "post \<noteq> []" by (auto split: if_splits)
    then obtain ys where post: "post = ys @ [Refuse (refusal cmd)]"
      and made: "log @ ys = (if cmd = Some TryRuntime then [] else [CreateRunner])"
      using eq by (cases post rule: rev_cases) (auto split: if_splits)
    have "set log \<union> set ys \<subseteq> {CreateRunner}"
      using arg_cong [OF made, of set] by (auto split: if_splits)
    moreover from this have "r = Err (CliMessage (refusal cmd))" if "ok CreateRunner"
      using rest post that by (cases ys) auto
    ultimately show ?thesis using False ended \<open>post \<noteq> []\<close> by auto
  qed
qed

theorem run_cli_faithful_witness:
  "(\<exists>log. run_cli \<lparr>runtime_benchmarks = False, try_runtime = False\<rparr> (\<lambda>_. True) (\<lambda>_. True) plain_node
      (Some CheckBlock) = (Ok (), log) \<and> {p. Hand p \<in> set log} = {ClientPart, ImportQueuePart}) \<and>
   fst (run_cli \<lparr>runtime_benchmarks = False, try_runtime = False\<rparr> (\<lambda>_. True) (\<lambda>_. True) plain_node
      (Some (Benchmark BenchPallet))) = Err (CliMessage needs_benchmarks)"
proof -
  let ?F = "\<lparr>runtime_benchmarks = False, try_runtime = False\<rparr>"
  let ?run = "run_cli ?F (\<lambda>_. True) (\<lambda>_. True) plain_node"
  have "fst (?run (Some CheckBlock)) = Ok ()" by code_simp
  then obtain log where run: "?run (Some CheckBlock) = (Ok (), log)" by (metis prod.collapse)
  from run_cli_faithful [OF this] have "set log = {s. asked (Some CheckBlock) s}" by blast
  moreover obtain r log' where refused: "?run (Some (Benchmark BenchPallet)) = (r, log')"
    by (rule prod.exhaust)
  from run_cli_faithful [OF this] have "r = Err (CliMessage needs_benchmarks)"
    by (simp add: allowed_def refusal_def)
  ultimately show ?thesis using run refused by auto
qed

text \<open>
  A node that can benchmark the pallet cannot execute kontracts: \<open>benchmark pallet\<close> succeeds only
  in a build with \<open>runtime-benchmarks\<close>, and that build's executor extends its host functions by the
  benchmarking ones instead of \<open>kontracts_executor\<close>.
\<close>

lemma benchmark_build_lacks_executor:
  assumes "run_cli F ok service_ok cfg (Some (Benchmark BenchPallet)) = (Ok (), log)"
  shows "extend_host_functions F \<noteq> KontractsFunctions"
  using assms by (auto simp: run_cli_def extend_host_functions_def split: if_splits outcome.splits)

end
