(* ===== verification/Spec2Isabelle.thy ===== *)
theory Spec2Isabelle
  imports Node_Cli
begin

text \<open>
  \<^bold>\<open>Kontracts\<close>: a Substrate node whose runtime has a pallet for small smart contracts
  (``kontracts''). A kontract is a WebAssembly binary; users upload it, and execute it with a
  declared amount of fuel, storage reads and writes, and a declared change of its storage in bytes.
  The storage is a map from byte vectors to byte vectors, one per code id; the pallet reserves one
  unit of balance per byte. The binary is run by a host function of the node, on wasmtime.

  \<^bold>\<open>Parts and theories.\<close> Paths are relative to \<open>src/\<close>.

  \<^item> \<open>Kontracts_Prelude\<close>: machine integers, the three endings of a Rust call (\<open>Ok\<close>, \<open>Err\<close>, panic),
    the \<open>?\<close> operator on stateful calls (\<open>and_then\<close>), checked slices, \<open>BTreeMap\<close> as a strictly sorted
    association list, and the locale \<open>kv_store\<close> of a map that replays writes (interpreted as \<open>btree\<close>).
  \<^item> \<open>Scale_Codec\<close>, \<open>Scale_Reference\<close>: the SCALE codec is a crate, so it is an argument (record
    \<open>scale\<close>) with the locale \<open>scale_codec\<close> of its documented format; \<open>scale_ref\<close> is a reference codec
    on which the locale is interpreted and on which concrete runs are evaluated.
  \<^item> \<open>Host_Functions\<close>: module \<open>kontracts_host_function\<close> of \<open>kontracs/kontracts-executor/src/lib.rs\<close>.
    \<open>kontract_store\<close> is \<open>KontractStore\<close>; \<open>kontracts_set/get/remove\<close>, \<open>read_vec\<close>, \<open>write_vec\<close> and the
    closures linked under \<open>env\<close> (\<open>env_set/get/remove\<close>). Locale \<open>host_interface\<close>: what a run needs of them.
  \<^item> \<open>Executor\<close>: \<open>KontractsExecutor::execute_code\<close> of the same file. wasmtime is the record
    \<open>wasmtime\<close>; \<open>drive\<close> alternates guest and host functions and is a \<open>partial_function\<close>, \<open>guest_trace\<close>
    and \<open>completed_run\<close> are the same runs as relations that record the host calls. Locales
    \<open>metered_engine\<close> (fuel never grows, a host call costs some) and \<open>engine_run\<close>.
  \<^item> \<open>Pallet\<close>: \<open>kontracs/pallets/kontracts/src/lib.rs\<close>: \<open>Config\<close>, storage, events, errors, the four
    extrinsics, their weights, and the dispatch of a call. FRAME (origins, hashing, currency,
    database weights) and the host function are the record \<open>runtime\<close>. \<open>execute_code\<close> is split as the
    code reads: \<open>charge\<close> is its \<open>match\<close> on the change of size, \<open>store_result\<close> what follows it.
  \<^item> \<open>Pallet_Accounting\<close>: the locales \<open>reservable_currency\<close> and \<open>liquid_currency\<close>, the \<open>i32\<close>
    arithmetic, and the deposit policy \<open>storage_fee\<close> over the integers that \<open>charge\<close> refines; the
    configuration of \<open>mock.rs\<close>.
  \<^item> \<open>Pallet_Runtime\<close>: the locale \<open>pallet_runtime\<close> between the pallet and the host function, interpreted
    on \<open>link_executor\<close>, a runtime with the executor in it; the outcome of \<open>execute_code\<close> on every branch.
  \<^item> \<open>Pallet_Invariants\<close>, \<open>Pallet_Deposits\<close>: chains of calls (\<open>reachable\<close>, \<open>run_calls\<close>) and what they
    preserve; locale \<open>deposit_runtime\<close>.
  \<^item> \<open>Pallet_Refinement\<close>: an abstract specification over finite maps (\<open>spec_call\<close>) and the simulation
    of the pallet with its executor by it; locale \<open>kontract_chain\<close>.
  \<^item> \<open>Kontract_Sdk\<close>: the macro of \<open>rust_kontract/kontracts-proc-macro/src/lib.rs\<close>; a compiled kontract is
    a \<open>guest\<close>, the engine runs it by \<open>kontract_resume\<close>, and \<open>kontract_guest\<close> is the locale of a memory
    layout.
  \<^item> \<open>Kontract_Programs\<close>: the source of a kontract as a tree of calls of the macro's functions
    (\<open>program\<close>), what it compiles to (\<open>compile\<close>), and what it means: a walk over a finite map with two
    quotas (\<open>direct\<close>).
  \<^item> \<open>Sample_Kontracts\<close>, \<open>Kontract_Scenarios\<close>: the kontracts of \<open>kontracs/pallets/kontracts/wasm_test\<close> and
    \<open>rust_kontract/src/lib.rs\<close> as such programs, alone and run by the pallet (the scenarios of
    \<open>tests.rs\<close>, for all balances, layouts and engines).
  \<^item> \<open>Runtime_Config\<close>, \<open>Runtime_Api\<close>: \<open>kontracs/runtime/src/lib.rs\<close>: version, time, block limits (locale
    \<open>sensible_block_weights\<close>), pallets and the numbers configured for them; the runtime APIs over the functions of FRAME (record
    \<open>frame\<close>), and the mock runtime of \<open>kontracs/pallets/kontracts/src/mock.rs\<close>.
  \<^item> \<open>Runtime_Blocks\<close>: the pallet inside the runtime: what calls of the runtime APIs do to it (locale
    \<open>frame_executive\<close>) and what its calls cost (locale \<open>fee_schedule\<close>). FRAME is external, so the
    locales are interpreted on concrete functions with the behaviour it documents.
  \<^item> \<open>Chain_Spec\<close>, \<open>Node_Service\<close>, \<open>Node_Client\<close>, \<open>Node_Cli\<close>:
    \<open>kontracs/node/src/chain_spec.rs\<close>, \<open>service.rs\<close> (its steps and tasks),
    \<open>rpc.rs\<close> and \<open>benchmarking.rs\<close>, \<open>cli.rs\<close> and \<open>command.rs\<close>. The service and the command
    line are lists of steps; a contract says step by step which are wanted and what they come after.

  \<^bold>\<open>How they interact.\<close> The command line builds the service, whose executor is extended with the
  host function; a block dispatches calls to the pallet; \<open>execute_code\<close> encodes the stored map, hands
  it with the code and the quotas to the host function, which decodes it, runs the guest and returns
  the encoded new map; the pallet charges for the difference in size and stores the map. Each of
  these interfaces is a locale, and each is interpreted on the definitions that model the code.

  \<^bold>\<open>What is shown.\<close>

  \<^item> The host functions read what was written, stay inside guest memory when they read, and enforce
    the declared quotas exactly, without wrap-around. What \<open>get\<close> writes is the SCALE encoding of the
    value, one byte longer than the guest's buffer has to be, so that it overwrites the byte after
    the buffer, and panics the host for values of 64 bytes and more.
  \<^item> \<open>execute_code\<close> of the executor returns for every guest when fuel is metered, and without it as long
    as the quotas are below \<open>2^32 - 1\<close>; a success is a completed run within the limits and leaves exactly the map its writes make; each error has exactly
    one cause, and the runs that panic, taking the node down, are characterised exactly.
  \<^item> \<open>execute_code\<close> of the pallet charges by the deposit policy, changes one storage only, and makes
    only the signer pay; on every chain the storages stay sorted, bounded and encodable, code ids are
    hashes, nobody's money grows or shrinks without an event, and the reserved balances cover all
    stored bytes as long as nobody is penalised. Over
    finite maps and two amounts per account the whole pallet refines a specification without
    encodings and words. Bytes that are freed are refunded to whoever frees them, so one account can
    be paid for what another deposited.
  \<^item> A compiled kontract is its source: for every program, \<open>execute_code\<close> returns what the walk over a
    finite map returns, and the pallet charges for the difference of the two maps. The sample
    kontracts do what their source says, through the macro, the host functions and the
    pallet; the Collatz kontract computes the Collatz sequence.
  \<^item> Without root a stored code is replaced only by a code with the same hash; nothing is assumed of the
    hash. Whatever runtime APIs the node calls, the pallet stays on a chain on which its invariants
    hold, as long as root does not write its storage through another pallet.
  \<^item> The node's configuration keeps the size of every storage exact, and fits uploads and executions of up to 34000
    declared reads into what one extrinsic may take. A call costs its weight and length; deleting a code
    costs the base fee and the length fee, where the README says nothing.
  \<^item> The chain specifications start well formed; a node is built by exactly the steps its
    configuration wants, in an order that respects what each needs, or stops at one that fails; a command does
    what was asked with the parts it needs, or fails; the benchmark extrinsics verify.

  \<^bold>\<open>Bounds and fuel.\<close> Fuel is the caller's \<open>u32\<close>; a guest's host calls are at most the fuel
  (\<open>metered_engine\<close>), hence fewer than \<open>2^32\<close>, so the \<open>u32\<close> counters cannot wrap. Sizes are \<open>i32\<close> in
  the code; \<open>config_fits\<close> states that a configuration keeps storages below \<open>2^31\<close> bytes, which both
  configurations of the repository do, and the deposit theorems assume it. The bound of 64 bytes is
  where the SCALE length prefix grows from one byte to two, the 100 bytes are the buffer of the
  macro's \<open>read\<close>. \<open>limit\<close> in the theorems about kontracts bounds the engine's cost of a stretch of code
  between two host calls. A program makes at most one call more than its two quotas allow
  (\<open>calls_made\<close>), the one that is refused, so fuel for one stretch per call made and one more is
  enough. In the specification a call is refused only for a reason it names (\<open>refusable\<close>), so a pallet
  that refuses everything does not refine it. Word operations wrap, as in
  the release profile the node is built with.

  \<^bold>\<open>Not modelled.\<close> wasmtime, FRAME and its other pallets, the SCALE codec, the hash functions, key
  derivation, the guest's allocator and the services of Substrate: they are arguments. The
  associated types of the configurations that only name FRAME items, and the code that macros of FRAME
  generate, have no definition. \<open>tests.rs\<close> is generalised by \<open>Kontract_Scenarios\<close>; build scripts
  and \<open>main.rs\<close> have no behaviour of their own. In the service the
  order, conditions and failures of the construction are modelled, not the passing on of objects, which
  the Rust compiler checks, nor what Substrate does with them. A stretch of guest code between two host
  calls is one step of the engine, so that its end is wasmtime's.
\<close>

end
